(* ===== verification/Prelude.thy ===== *)
theory Prelude
  imports Main
begin

text \<open>
  Shared vocabulary of the development: Go slices with their nil value, the result type of
  fallible operations, the fact collections the component proofs draw on, and generic lemmas
  on lists that several components use.
\<close>

section \<open>Fact collections\<close>

named_theorems go_string "rewrite rules on the Go string operations"
named_theorems go_eval "evaluation of the Go string operations on concrete ASCII strings"
named_theorems gate "unfolding of the request gates of the adapters"
named_theorems display "the display-claim fallbacks leave the authorization fields alone"

section \<open>Results and slices\<close>

text \<open>
  A Go call that returns \<open>(value, error)\<close> with exactly one of the two meaningful is a sum:
  \<open>Inl\<close> the error, \<open>Inr\<close> the value.
\<close>

type_synonym ('e, 'a) result = "'e + 'a"

text \<open>
  A Go slice may be nil, which code and tests tell apart from an empty slice: \<open>None\<close> is nil.
  Ranging over a nil slice visits nothing.
\<close>

type_synonym 'a slice = "'a list option"

definition elems :: "'a slice \<Rightarrow> 'a list" where
  "elems s = (case s of None \<Rightarrow> [] | Some xs \<Rightarrow> xs)"

lemma elems_simps [simp]:
  "elems None = []"
  "elems (Some xs) = xs"
  by (simp_all add: elems_def)

lemma result_cases_iff:
  "(case r of Inl e \<Rightarrow> Inl e | Inr x \<Rightarrow> Inr (f x)) = Inr y \<longleftrightarrow> (\<exists>x. r = Inr x \<and> y = f x)"
  by (cases r) auto

section \<open>Lists\<close>

lemma drop_less_length: "xs \<noteq> [] \<Longrightarrow> 0 < n \<Longrightarrow> length (drop n xs) < length xs"
  by (cases xs) auto

lemma list_last_split: "xs \<noteq> [] \<Longrightarrow> \<exists>ys y. xs = ys @ [y]"
  by (cases xs rule: rev_cases) auto

lemma find_map_of_fst:
  "find (\<lambda>p. fst p = k) ps = map_option (Pair k) (map_of ps k)"
  by (induction ps) auto

end
