(* ===== verification/Go_Strings.thy ===== *)
theory Go_Strings
  imports Prelude
begin

text \<open>
  The part of Go's \<open>strings\<close>, \<open>unicode\<close> and \<open>unicode/utf8\<close> packages that the repository
  calls. A Go string is a sequence of bytes, here a \<^typ>\<open>string\<close> (a \<^typ>\<open>char\<close> is one
  byte). Runes are decoded from UTF-8 exactly as Go decodes them (shortest form, no surrogates,
  an invalid byte is \<open>RuneError\<close> of width one), so \<open>TrimSpace\<close> strips the Unicode spaces
  and not only the ASCII ones. The one piece of Unicode data left open is the folding orbit of
  two runes outside ASCII, the parameter \<open>orbit\<close> of \<open>equal_fold\<close>; an ASCII string is
  compared without it.
\<close>

section \<open>Decoding runes\<close>

definition rune_error :: nat where
  "rune_error = 65533"

definition is_cont :: "nat \<Rightarrow> bool" where
  "is_cont b \<longleftrightarrow> 128 \<le> b \<and> b < 192"

text \<open>The range the second byte must lie in, by the first byte.\<close>

definition second_ok :: "nat \<Rightarrow> nat \<Rightarrow> bool" where
  "second_ok b0 b1 \<longleftrightarrow>
     (if b0 = 224 then 160 else if b0 = 240 then 144 else 128) \<le> b1 \<and>
     b1 < (if b0 = 237 then 160 else if b0 = 244 then 144 else 192)"

text \<open>The rune at the front of a byte sequence and its width.\<close>

fun decode_bytes :: "nat list \<Rightarrow> nat \<times> nat" where
  "decode_bytes [] = (rune_error, 0)"
| "decode_bytes (b0 # bs) =
     (if b0 < 128 then (b0, 1)
      else if 194 \<le> b0 \<and> b0 < 224 then
        (case bs of
           b1 # _ \<Rightarrow> if is_cont b1 then (b0 mod 32 * 64 + b1 mod 64, 2) else (rune_error, 1)
         | _ \<Rightarrow> (rune_error, 1))
      else if 224 \<le> b0 \<and> b0 < 240 then
        (case bs of
           b1 # b2 # _ \<Rightarrow>
             if second_ok b0 b1 \<and> is_cont b2
             then (b0 mod 16 * 4096 + b1 mod 64 * 64 + b2 mod 64, 3) else (rune_error, 1)
         | _ \<Rightarrow> (rune_error, 1))
      else if 240 \<le> b0 \<and> b0 < 245 then
        (case bs of
           b1 # b2 # b3 # _ \<Rightarrow>
             if second_ok b0 b1 \<and> is_cont b2 \<and> is_cont b3
             then (b0 mod 8 * 262144 + b1 mod 64 * 4096 + b2 mod 64 * 64 + b3 mod 64, 4)
             else (rune_error, 1)
         | _ \<Rightarrow> (rune_error, 1))
      else (rune_error, 1))"

definition bytes :: "string \<Rightarrow> nat list" where
  "bytes s = map of_char s"

definition decode_rune :: "string \<Rightarrow> nat \<times> nat" where
  "decode_rune s = decode_bytes (bytes (take 4 s))"

text \<open>
  The last rune: walk back at most four bytes to a byte that can start a rune, decode there,
  and insist that the rune ends the string.
\<close>

definition last_width :: "string \<Rightarrow> nat" where
  "last_width s =
     (let n = length s; starts = (\<lambda>k. k \<le> n \<and> \<not> is_cont (of_char (s ! (n - k))))
      in if starts 2 then 2 else if starts 3 then 3 else if starts 4 then 4 else min 5 n)"

definition decode_last_rune :: "string \<Rightarrow> nat \<times> nat" where
  "decode_last_rune s =
     (if s = [] then (rune_error, 0)
      else if of_char (last s) < (128 :: nat) then (of_char (last s), 1)
      else (let k = last_width s; (r, size) = decode_rune (drop (length s - k) s)
            in if size = k then (r, size) else (rune_error, 1)))"

text \<open>\<open>unicode.IsSpace\<close>: the code points with the White Space property.\<close>

definition is_space :: "nat \<Rightarrow> bool" where
  "is_space r \<longleftrightarrow>
     9 \<le> r \<and> r \<le> 13 \<or> r = 32 \<or> r = 133 \<or> r = 160 \<or> r = 5760 \<or>
     8192 \<le> r \<and> r \<le> 8202 \<or> r = 8232 \<or> r = 8233 \<or> r = 8239 \<or> r = 8287 \<or> r = 12288"

lemma bytes_simps [simp]:
  "bytes [] = []"
  "bytes (c # s) = of_char c # bytes s"
  "bytes (s @ t) = bytes s @ bytes t"
  by (simp_all add: bytes_def)

lemma decode_bytes_width_pos: "bs \<noteq> [] \<Longrightarrow> 0 < snd (decode_bytes bs)"
  by (cases bs) (auto split: list.splits)

lemma decode_bytes_width_le: "snd (decode_bytes bs) \<le> length bs"
  by (cases bs) (auto split: list.splits)

lemma decode_bytes_width_le_4: "snd (decode_bytes bs) \<le> 4"
  by (cases bs) (auto split: list.splits)

lemma decode_bytes_one_byte:
  "128 \<le> b0 \<Longrightarrow>
     fst (decode_bytes (b0 # bs)) = rune_error \<or> snd (decode_bytes (b0 # bs)) \<noteq> 1"
  by (simp split: list.split)

text \<open>Decoding looks at no more than four bytes, so the window of \<open>decode_rune\<close> is enough.\<close>

lemma decode_bytes_take_4: "decode_bytes (take 4 bs) = decode_bytes bs"
proof (cases bs)
  case (Cons b0 cs)
  then show ?thesis
    by (auto simp: take_Cons' split: list.splits)
qed simp

lemma decode_rune_bytes: "decode_rune s = decode_bytes (bytes s)"
proof -
  have "bytes (take 4 s) = take 4 (bytes s)"
    by (simp add: bytes_def take_map)
  then show ?thesis
    by (simp add: decode_rune_def decode_bytes_take_4)
qed

lemma length_bytes [simp]: "length (bytes s) = length s"
  by (simp add: bytes_def)

lemma bytes_eq_Nil [simp]: "bytes s = [] \<longleftrightarrow> s = []"
  by (simp add: bytes_def)

lemma decode_rune_pos: "s \<noteq> [] \<Longrightarrow> 0 < snd (decode_rune s)"
  by (simp add: decode_rune_bytes decode_bytes_width_pos)

lemma decode_rune_le: "snd (decode_rune s) \<le> length s"
  using decode_bytes_width_le [of "bytes s"] by (simp add: decode_rune_bytes)

lemma decode_rune_ascii [simp]:
  "of_char c < (128 :: nat) \<Longrightarrow> decode_rune (c # s) = (of_char c, 1)"
  by (simp add: decode_rune_bytes)

text \<open>
  A rune that is not \<open>RuneError\<close> is read off its own bytes alone: neither cutting the string
  behind them nor appending to it changes the decoding.
\<close>

lemma decode_bytes_stable:
  assumes "decode_bytes bs = (r, n)" and "r \<noteq> rune_error"
  shows "decode_bytes (take n bs @ us) = (r, n)"
proof (cases bs)
  case Nil
  with assms show ?thesis by simp
next
  case (Cons b0 cs)
  with assms show ?thesis
    by (auto split: list.splits if_splits)
qed

lemma decode_bytes_append:
  assumes "decode_bytes bs = (r, n)" and "r \<noteq> rune_error"
  shows "decode_bytes (bs @ us) = (r, n)"
  using decode_bytes_stable [OF assms, of "drop n bs @ us"] by (simp flip: append_assoc)

text \<open>ASCII bytes never continue a rune, so appending them changes no first rune.\<close>

lemma decode_bytes_append_ascii:
  assumes "bs \<noteq> []" and "\<forall>u \<in> set us. u < 128"
  shows "decode_bytes (bs @ us) = decode_bytes bs"
proof (cases bs)
  case (Cons b0 cs)
  have "\<not> is_cont u" and "\<not> second_ok b u" if "u < 128" for b u
    using that by (auto simp: is_cont_def second_ok_def)
  with Cons assms(2) show ?thesis
    by (auto split: list.splits simp: neq_Nil_conv append_eq_Cons_conv)
qed (use assms in simp)

lemma is_space_not_error: "is_space r \<Longrightarrow> r \<noteq> rune_error"
  by (auto simp: is_space_def rune_error_def)

section \<open>Trimming\<close>

function trim_left_func :: "(nat \<Rightarrow> bool) \<Rightarrow> string \<Rightarrow> string" where
  "trim_left_func p s =
     (if s = [] then []
      else case decode_rune s of (r, n) \<Rightarrow>
        if p r then trim_left_func p (drop n s) else s)"
  by pat_completeness auto
termination
proof (relation "measure (\<lambda>(p, s). length s)", goal_cases)
  case (2 p s r n)
  have "0 < snd (decode_rune s)"
    using 2 by (intro decode_rune_pos)
  with 2 have "0 < n"
    by (metis snd_conv)
  with 2 show ?case
    by (simp add: drop_less_length)
qed simp

lemma last_width_bounds: "s \<noteq> [] \<Longrightarrow> 0 < last_width s \<and> last_width s \<le> length s"
  by (auto simp: last_width_def Let_def)

lemma decode_last_rune_bounds:
  "s \<noteq> [] \<Longrightarrow> 0 < snd (decode_last_rune s) \<and> snd (decode_last_rune s) \<le> length s"
  using last_width_bounds [of s]
  by (auto simp: decode_last_rune_def Let_def Suc_le_eq split: prod.splits)

function trim_right_func :: "(nat \<Rightarrow> bool) \<Rightarrow> string \<Rightarrow> string" where
  "trim_right_func p s =
     (if s = [] then []
      else case decode_last_rune s of (r, n) \<Rightarrow>
        if p r then trim_right_func p (take (length s - n) s) else s)"
  by pat_completeness auto
termination
proof (relation "measure (\<lambda>(p, s). length s)", goal_cases)
  case (2 p s r n)
  have "0 < snd (decode_last_rune s)"
    using 2 decode_last_rune_bounds by blast
  with 2 have "0 < n"
    by (metis snd_conv)
  with 2 show ?case
    by (cases s) auto
qed simp

declare trim_left_func.simps [simp del] trim_right_func.simps [simp del]

text \<open>
  \<open>strings.TrimSpace\<close>. Go's ASCII fast path falls back to \<open>TrimFunc\<close> at the first byte
  outside ASCII; both strip the maximal run of spaces on each side.
\<close>

definition trim_space :: "string \<Rightarrow> string" where
  "trim_space s = trim_right_func is_space (trim_left_func is_space s)"

text \<open>A string no trimming changes: empty, or a non-space rune on both ends.\<close>

definition trimmed :: "string \<Rightarrow> bool" where
  "trimmed s \<longleftrightarrow>
     s = [] \<or> \<not> is_space (fst (decode_rune s)) \<and> \<not> is_space (fst (decode_last_rune s))"

lemma trim_left_func_suffix: "\<exists>a. s = a @ trim_left_func p s"
proof (induction p s rule: trim_left_func.induct)
  case (1 p s)
  show ?case
  proof (cases "s = [] \<or> \<not> p (fst (decode_rune s))")
    case True
    then show ?thesis
      by (auto simp: trim_left_func.simps [of p s] split: prod.splits)
  next
    case False
    define n where "n = snd (decode_rune s)"
    from False have "\<exists>a. drop n s = a @ trim_left_func p (drop n s)"
      using 1 [of "fst (decode_rune s)" n] by (simp add: n_def)
    with False show ?thesis
      by (auto simp: trim_left_func.simps [of p s] n_def split: prod.splits)
        (metis append.assoc append_take_drop_id)
  qed
qed

lemma trim_right_func_prefix: "\<exists>b. s = trim_right_func p s @ b"
proof (induction p s rule: trim_right_func.induct)
  case (1 p s)
  show ?case
  proof (cases "s = [] \<or> \<not> p (fst (decode_last_rune s))")
    case True
    then show ?thesis
      by (auto simp: trim_right_func.simps [of p s] split: prod.splits)
  next
    case False
    define m where "m = length s - snd (decode_last_rune s)"
    from False have "\<exists>b. take m s = trim_right_func p (take m s) @ b"
      using 1 [of "fst (decode_last_rune s)" "snd (decode_last_rune s)"] by (simp add: m_def)
    with False show ?thesis
      by (auto simp: trim_right_func.simps [of p s] m_def split: prod.splits)
        (metis append.assoc append_take_drop_id)
  qed
qed

lemma trim_left_func_first:
  "trim_left_func p s \<noteq> [] \<Longrightarrow> \<not> p (fst (decode_rune (trim_left_func p s)))"
proof (induction p s rule: trim_left_func.induct)
  case (1 p s)
  then show ?case
    by (auto simp: trim_left_func.simps [of p s] split: prod.splits if_splits)
qed

lemma trim_right_func_last:
  "trim_right_func p s \<noteq> [] \<Longrightarrow> \<not> p (fst (decode_last_rune (trim_right_func p s)))"
proof (induction p s rule: trim_right_func.induct)
  case (1 p s)
  then show ?case
    by (auto simp: trim_right_func.simps [of p s] split: prod.splits if_splits)
qed

lemma trim_left_func_id: "s = [] \<or> \<not> p (fst (decode_rune s)) \<Longrightarrow> trim_left_func p s = s"
  by (auto simp: trim_left_func.simps [of p s] split: prod.splits)

lemma trim_right_func_id: "s = [] \<or> \<not> p (fst (decode_last_rune s)) \<Longrightarrow> trim_right_func p s = s"
  by (auto simp: trim_right_func.simps [of p s] split: prod.splits)

lemma trim_space_id: "trimmed s \<Longrightarrow> trim_space s = s"
  by (auto simp: trimmed_def trim_space_def trim_left_func_id trim_right_func_id)

lemma trim_space_Nil [simp]: "trim_space [] = []"
  by (simp add: trim_space_id trimmed_def)

text \<open>A prefix that opens with a space rune extends to a string that does.\<close>

lemma space_first_append:
  assumes "is_space (fst (decode_rune t))"
  shows "is_space (fst (decode_rune (t @ u)))"
proof -
  obtain r n where rn: "decode_bytes (bytes t) = (r, n)"
    by fastforce
  with assms have "is_space r"
    by (simp add: decode_rune_bytes)
  then have "decode_bytes (bytes t @ bytes u) = (r, n)"
    using rn is_space_not_error decode_bytes_append by blast
  with \<open>is_space r\<close> show ?thesis
    by (simp add: decode_rune_bytes)
qed

lemma trimmed_trim_space: "trimmed (trim_space s)"
proof -
  define u where "u = trim_left_func is_space s"
  define t where "t = trim_right_func is_space u"
  obtain b where b: "u = t @ b"
    using trim_right_func_prefix t_def by blast
  have "trimmed t" if "t \<noteq> []"
  proof -
    from that b have "u \<noteq> []" by simp
    then have "\<not> is_space (fst (decode_rune u))"
      unfolding u_def by (rule trim_left_func_first)
    then have "\<not> is_space (fst (decode_rune t))"
      using space_first_append b by blast
    moreover have "\<not> is_space (fst (decode_last_rune t))"
      using that unfolding t_def by (rule trim_right_func_last)
    ultimately show ?thesis
      by (simp add: trimmed_def)
  qed
  moreover have "trim_space s = t"
    by (simp add: trim_space_def t_def u_def)
  ultimately show ?thesis
    by (cases "t = []") (auto simp: trimmed_def)
qed

lemma trim_space_idem [simp, go_string]: "trim_space (trim_space s) = trim_space s"
  by (intro trim_space_id trimmed_trim_space)

lemma trim_space_eq_self_iff: "trim_space s = s \<longleftrightarrow> trimmed s"
  using trimmed_trim_space trim_space_id by metis

lemma trim_space_infix: "\<exists>a b. s = a @ trim_space s @ b"
  unfolding trim_space_def using trim_left_func_suffix trim_right_func_prefix by metis

subsection \<open>Trimming around ASCII padding\<close>

definition is_ascii :: "string \<Rightarrow> bool" where
  "is_ascii s \<longleftrightarrow> (\<forall>c \<in> set s. of_char c < (128 :: nat))"

definition ascii_blank :: "string \<Rightarrow> bool" where
  "ascii_blank s \<longleftrightarrow> (\<forall>c \<in> set s. of_char c < (128 :: nat) \<and> is_space (of_char c))"

text \<open>A string of visible ASCII characters, such as an encoded JWT.\<close>

definition visible_ascii :: "string \<Rightarrow> bool" where
  "visible_ascii s \<longleftrightarrow> (\<forall>c \<in> set s. 33 \<le> (of_char c :: nat) \<and> of_char c < (127 :: nat))"

lemma is_ascii_simps [simp]:
  "is_ascii []"
  "is_ascii (c # s) \<longleftrightarrow> of_char c < (128 :: nat) \<and> is_ascii s"
  "is_ascii (s @ t) \<longleftrightarrow> is_ascii s \<and> is_ascii t"
  by (auto simp: is_ascii_def)

lemma ascii_blank_simps [simp]:
  "ascii_blank []"
  "ascii_blank (c # s) \<longleftrightarrow> of_char c < (128 :: nat) \<and> is_space (of_char c) \<and> ascii_blank s"
  "ascii_blank (s @ t) \<longleftrightarrow> ascii_blank s \<and> ascii_blank t"
  by (auto simp: ascii_blank_def)

lemma decode_last_rune_ascii [simp]:
  "of_char c < (128 :: nat) \<Longrightarrow> decode_last_rune (s @ [c]) = (of_char c, 1)"
  by (simp add: decode_last_rune_def)

lemma trim_left_func_blank:
  "ascii_blank w \<Longrightarrow> trim_left_func is_space (w @ s) = trim_left_func is_space s"
proof (induction w)
  case (Cons c w)
  then show ?case
    by (simp add: trim_left_func.simps [of _ "c # w @ s"])
qed simp

lemma trim_right_func_snoc:
  "of_char c < (128 :: nat) \<Longrightarrow> is_space (of_char c) \<Longrightarrow>
     trim_right_func is_space (s @ [c]) = trim_right_func is_space s"
  by (subst trim_right_func.simps) simp

lemma trim_right_func_blank:
  "ascii_blank w \<Longrightarrow> trim_right_func is_space (s @ w) = trim_right_func is_space s"
  by (induction w rule: rev_induct) (simp_all add: trim_right_func_snoc flip: append_assoc)

lemma ascii_blank_ascii: "ascii_blank w \<Longrightarrow> is_ascii w"
  by (auto simp: ascii_blank_def is_ascii_def)

lemma decode_rune_append_ascii:
  "s \<noteq> [] \<Longrightarrow> is_ascii w \<Longrightarrow> decode_rune (s @ w) = decode_rune s"
  unfolding decode_rune_bytes
  by (simp add: decode_bytes_append_ascii is_ascii_def bytes_def)

text \<open>ASCII blanks around a trimmed string are exactly what \<open>TrimSpace\<close> removes.\<close>

lemma trim_space_padded [go_string]:
  assumes "trimmed t" and "ascii_blank a" and "ascii_blank b"
  shows "trim_space (a @ t @ b) = t"
proof (cases "t = []")
  case True
  have "trim_space (a @ b) = trim_right_func is_space (trim_left_func is_space b)"
    using assms(2) by (simp add: trim_space_def trim_left_func_blank)
  also have "trim_left_func is_space b = []"
    using trim_left_func_blank [OF assms(3), of "[]"] by (simp add: trim_left_func_id)
  finally show ?thesis
    using True by (simp add: trim_right_func_id)
next
  case False
  have "is_ascii b"
    using assms(3) by (rule ascii_blank_ascii)
  with False assms(1) have "trim_left_func is_space (t @ b) = t @ b"
    by (intro trim_left_func_id) (simp add: trimmed_def decode_rune_append_ascii)
  then have "trim_space (a @ t @ b) = trim_right_func is_space (t @ b)"
    using assms(2) by (simp add: trim_space_def trim_left_func_blank)
  also have "\<dots> = t"
    using assms(1,3) by (auto simp: trim_right_func_blank trim_right_func_id trimmed_def)
  finally show ?thesis .
qed

lemma visible_not_space:
  "33 \<le> (of_char c :: nat) \<Longrightarrow> of_char c < (127 :: nat) \<Longrightarrow> \<not> is_space (of_char c)"
  by (auto simp: is_space_def)

lemma trimmed_visible [go_string]: "visible_ascii s \<Longrightarrow> trimmed s"
proof (cases s)
  case (Cons c cs)
  assume vis: "visible_ascii s"
  then have "\<not> is_space (fst (decode_rune s))"
    using Cons visible_not_space [of c] by (simp add: visible_ascii_def)
  moreover have "last s \<in> set s"
    using Cons by simp
  then have "\<not> is_space (fst (decode_last_rune s))"
    using Cons vis visible_not_space [of "last s"]
    by (auto simp: visible_ascii_def decode_last_rune_def)
  ultimately show ?thesis
    by (simp add: trimmed_def)
qed (simp add: trimmed_def)

subsection \<open>Evaluating a trimming\<close>

lemma trim_left_func_eval [go_eval]:
  "trim_left_func p [] = []"
  "of_char c < (128 :: nat) \<Longrightarrow>
     trim_left_func p (c # s) = (if p (of_char c) then trim_left_func p s else c # s)"
  by (simp_all add: trim_left_func.simps)

lemma trim_right_func_eval [go_eval]:
  "trim_right_func p [] = []"
  "of_char (last (c # s)) < (128 :: nat) \<Longrightarrow>
     trim_right_func p (c # s) =
       (if p (of_char (last (c # s))) then trim_right_func p (butlast (c # s)) else c # s)"
  by (simp_all add: trim_right_func.simps [of _ "c # s"] trim_right_func.simps [of _ "[]"]
      decode_last_rune_def butlast_conv_take)

lemmas [go_eval] = trim_space_def is_space_def

section \<open>Searching, cutting and splitting\<close>

definition has_prefix :: "string \<Rightarrow> string \<Rightarrow> bool" where
  "has_prefix s p \<longleftrightarrow> take (length p) s = p"

definition trim_suffix :: "string \<Rightarrow> string \<Rightarrow> string" where
  "trim_suffix s p =
     (if length p \<le> length s \<and> drop (length s - length p) s = p
      then take (length s - length p) s else s)"

text \<open>\<open>strings.TrimRight s cutset\<close> for an ASCII cutset.\<close>

definition trim_right_bytes :: "string \<Rightarrow> string \<Rightarrow> string" where
  "trim_right_bytes s cutset = rev (dropWhile (\<lambda>c. c \<in> set cutset) (rev s))"

text \<open>\<open>strings.Cut\<close>: around the first occurrence of \<open>sep\<close>; \<open>None\<close> when there is none.\<close>

fun cut :: "string \<Rightarrow> string \<Rightarrow> (string \<times> string) option" where
  "cut sep [] = (if sep = [] then Some ([], []) else None)"
| "cut sep (c # s) =
     (if has_prefix (c # s) sep then Some ([], drop (length sep) (c # s))
      else map_option (\<lambda>(b, a). (c # b, a)) (cut sep s))"

lemma cut_Some: "cut sep s = Some (b, a) \<Longrightarrow> s = b @ sep @ a"
  by (induction sep s arbitrary: b a rule: cut.induct)
    (auto simp: has_prefix_def split: if_splits, metis append_take_drop_id)

text \<open>An empty separator explodes the string after each UTF-8 sequence.\<close>

function explode_utf8 :: "string \<Rightarrow> string list" where
  "explode_utf8 s =
     (if s = [] then []
      else take (snd (decode_rune s)) s # explode_utf8 (drop (snd (decode_rune s)) s))"
  by pat_completeness auto
termination
  by (relation "measure length") (auto simp: decode_rune_pos drop_less_length)

function split_sep :: "string \<Rightarrow> string \<Rightarrow> string list" where
  "split_sep sep s =
     (if sep = [] then [s]
      else case cut sep s of None \<Rightarrow> [s] | Some (b, a) \<Rightarrow> b # split_sep sep a)"
  by pat_completeness auto
termination
proof (relation "measure (\<lambda>(sep, s). length s)", goal_cases)
  case (2 sep s p b a)
  then have "cut sep s = Some (b, a)"
    by simp
  then have "s = b @ sep @ a"
    by (rule cut_Some)
  with 2 show ?case
    by (cases sep) auto
qed simp

declare split_sep.simps [simp del] explode_utf8.simps [simp del]

text \<open>\<open>strings.Split s sep\<close>.\<close>

definition split_str :: "string \<Rightarrow> string \<Rightarrow> string list" where
  "split_str s sep = (if sep = [] then explode_utf8 s else split_sep sep s)"

text \<open>\<open>strings.Join\<close>, the inverse of splitting.\<close>

fun join_str :: "string list \<Rightarrow> string \<Rightarrow> string" where
  "join_str [] sep = []"
| "join_str [p] sep = p"
| "join_str (p # ps) sep = p @ sep @ join_str ps sep"

subsection \<open>Splitting at a single byte\<close>

lemma cut_byte:
  "cut [d] s =
     (if d \<in> set s
      then Some (takeWhile (\<lambda>c. c \<noteq> d) s, tl (dropWhile (\<lambda>c. c \<noteq> d) s)) else None)"
  by (induction s) (auto simp: has_prefix_def)

lemma cut_byte_None_iff [go_string]: "cut [d] s = None \<longleftrightarrow> d \<notin> set s"
  by (simp add: cut_byte)

lemma cut_byte_append [go_string]: "d \<notin> set b \<Longrightarrow> cut [d] (b @ d # a) = Some (b, a)"
  by (simp add: cut_byte takeWhile_append dropWhile_append)

lemma split_byte_none: "d \<notin> set s \<Longrightarrow> split_str s [d] = [s]"
  by (simp add: split_str_def split_sep.simps [of _ s] cut_byte)

lemma split_byte_cons: "d \<notin> set b \<Longrightarrow> split_str (b @ d # a) [d] = b # split_str a [d]"
  by (simp add: split_str_def split_sep.simps [of _ "b @ d # a"] cut_byte_append)

lemma split_byte_induct [case_names last more]:
  assumes last: "\<And>s. d \<notin> set s \<Longrightarrow> P s"
    and more: "\<And>b a. d \<notin> set b \<Longrightarrow> P a \<Longrightarrow> P (b @ d # a)"
  shows "P s"
proof (induction s rule: length_induct)
  case (1 s)
  show ?case
  proof (cases "d \<in> set s")
    case True
    then obtain b a where "s = b @ d # a" and "d \<notin> set b"
      by (meson split_list_first)
    with 1 more show ?thesis by simp
  qed (rule last)
qed

lemma split_byte_not_Nil [simp]: "split_str s [d] \<noteq> []"
  by (induction s rule: split_byte_induct [where d = d])
    (simp_all add: split_byte_none split_byte_cons)

lemma split_byte_pieces: "p \<in> set (split_str s [d]) \<Longrightarrow> d \<notin> set p"
  by (induction s rule: split_byte_induct [where d = d])
    (auto simp: split_byte_none split_byte_cons)

lemma join_str_Cons: "ps \<noteq> [] \<Longrightarrow> join_str (p # ps) sep = p @ sep @ join_str ps sep"
  by (cases ps) simp_all

lemma join_split_byte: "join_str (split_str s [d]) [d] = s"
  by (induction s rule: split_byte_induct [where d = d])
    (simp_all add: split_byte_none split_byte_cons join_str_Cons)

lemma split_join_byte:
  "ps \<noteq> [] \<Longrightarrow> \<forall>p \<in> set ps. d \<notin> set p \<Longrightarrow> split_str (join_str ps [d]) [d] = ps"
  by (induction ps "[d]" rule: join_str.induct) (simp_all add: split_byte_none split_byte_cons)

section \<open>Prefixes and suffixes\<close>

lemma has_prefix_iff [go_string]: "has_prefix s p \<longleftrightarrow> (\<exists>u. s = p @ u)"
  unfolding has_prefix_def by (metis append_eq_conv_conj append_take_drop_id)

lemma trim_suffix_append [go_string]: "trim_suffix (s @ p) p = s"
  by (simp add: trim_suffix_def)

lemma trim_right_bytes_split:
  "\<exists>w. s = trim_right_bytes s cs @ w \<and> set w \<subseteq> set cs"
proof -
  have "s = trim_right_bytes s cs @ rev (takeWhile (\<lambda>c. c \<in> set cs) (rev s))"
    unfolding trim_right_bytes_def
    by (metis rev_append rev_rev_ident takeWhile_dropWhile_id)
  moreover have "set (takeWhile (\<lambda>c. c \<in> set cs) (rev s)) \<subseteq> set cs"
    by (auto dest: set_takeWhileD)
  ultimately show ?thesis by (intro exI conjI) (assumption, simp)
qed

lemma trim_right_bytes_last:
  "trim_right_bytes s cs \<noteq> [] \<Longrightarrow> last (trim_right_bytes s cs) \<notin> set cs"
  using hd_dropWhile [of "\<lambda>c. c \<in> set cs" "rev s"]
  by (simp add: trim_right_bytes_def last_rev)

section \<open>Case folding\<close>

text \<open>
  Two runes are equal under Unicode simple folding when \<open>SimpleFold\<close> leads from one to the
  other. Both in ASCII: the same letter. One in ASCII: only \<open>K\<close> with the Kelvin sign and
  \<open>S\<close> with the long s. Both outside ASCII: Unicode's table, the parameter \<open>orbit\<close>.
\<close>

definition fold_eq :: "(nat \<Rightarrow> nat \<Rightarrow> bool) \<Rightarrow> nat \<Rightarrow> nat \<Rightarrow> bool" where
  "fold_eq orbit a b =
     (a = b \<or>
      (let lo = min a b; hi = max a b in
       if hi < 128 then 65 \<le> lo \<and> lo \<le> 90 \<and> hi = lo + 32
       else if lo < 128 then
         (lo = 75 \<or> lo = 107) \<and> hi = 8490 \<or> (lo = 83 \<or> lo = 115) \<and> hi = 383
       else orbit lo hi))"

function equal_fold_runes :: "(nat \<Rightarrow> nat \<Rightarrow> bool) \<Rightarrow> string \<Rightarrow> string \<Rightarrow> bool" where
  "equal_fold_runes orbit s t =
     (if s = [] \<or> t = [] then s = [] \<and> t = []
      else fold_eq orbit (fst (decode_rune s)) (fst (decode_rune t)) \<and>
           equal_fold_runes orbit (drop (snd (decode_rune s)) s) (drop (snd (decode_rune t)) t))"
  by pat_completeness auto
termination
  by (relation "measure (\<lambda>(orbit, s, t). length s)") (auto simp: decode_rune_pos drop_less_length)

declare equal_fold_runes.simps [simp del]

text \<open>\<open>strings.EqualFold\<close>: bytes while both are ASCII, then runes.\<close>

fun equal_fold :: "(nat \<Rightarrow> nat \<Rightarrow> bool) \<Rightarrow> string \<Rightarrow> string \<Rightarrow> bool" where
  "equal_fold orbit (a # s) (b # t) =
     (if 128 \<le> (of_char a :: nat) \<or> 128 \<le> (of_char b :: nat)
      then equal_fold_runes orbit (a # s) (b # t)
      else fold_eq orbit (of_char a) (of_char b) \<and> equal_fold orbit s t)"
| "equal_fold orbit s t = (s = [] \<and> t = [])"

text \<open>ASCII lower case, the reference for folding ASCII strings.\<close>

definition to_lower :: "char \<Rightarrow> char" where
  "to_lower c = (let b = of_char c :: nat in if 65 \<le> b \<and> b \<le> 90 then char_of (b + 32) else c)"

lemma of_char_to_lower:
  "of_char (to_lower c) =
     (let b = of_char c :: nat in if 65 \<le> b \<and> b \<le> 90 then b + 32 else b)"
  by (simp add: to_lower_def Let_def)

lemma fold_eq_ascii:
  assumes "of_char a < (128 :: nat)" and "of_char b < (128 :: nat)"
  shows "fold_eq orbit (of_char a) (of_char b) \<longleftrightarrow> to_lower a = to_lower b"
proof -
  have "to_lower a = to_lower b \<longleftrightarrow> of_char (to_lower a) = (of_char (to_lower b) :: nat)"
    by (simp add: of_char_eq_iff)
  also have "\<dots> \<longleftrightarrow> fold_eq orbit (of_char a) (of_char b)"
    using assms by (auto simp: fold_eq_def of_char_to_lower Let_def)
  finally show ?thesis by simp
qed

text \<open>
  Against an ASCII string of the same byte length the comparison is bytewise and ignores
  letter case, whatever the Unicode tables say: a rune outside ASCII takes more than its one
  byte, so the other side is exhausted too late, or decodes to \<open>RuneError\<close>, which no ASCII
  letter folds to.
\<close>

lemma equal_fold_runes_width:
  "equal_fold_runes orbit s t \<Longrightarrow> is_ascii t \<Longrightarrow>
     length t \<le> length s \<and> (\<not> is_ascii s \<longrightarrow> length t < length s)"
proof (induction orbit s t rule: equal_fold_runes.induct)
  case (1 orbit s t)
  show ?case
  proof (cases "s = [] \<or> t = []")
    case True
    with "1.prems" show ?thesis
      by (simp add: equal_fold_runes.simps [of orbit s t])
  next
    case False
    then obtain a s' b t' where st: "s = a # s'" "t = b # t'"
      by (meson neq_Nil_conv)
    define n where "n = snd (decode_rune s)"
    have b: "of_char b < (128 :: nat)" and t': "is_ascii t'"
      using "1.prems"(2) st by simp_all
    have eq: "fold_eq orbit (fst (decode_rune s)) (of_char b)"
      and rest: "equal_fold_runes orbit (drop n s) t'"
      using "1.prems"(1) b st
      by (simp_all add: equal_fold_runes.simps [of orbit "a # s'" "b # t'"] n_def)
    have IH: "length t' \<le> length (drop n s) \<and>
        (\<not> is_ascii (drop n s) \<longrightarrow> length t' < length (drop n s))"
      using "1.IH" False rest t' b st by (simp add: n_def)
    have n: "0 < n" "n \<le> length s"
      using False decode_rune_pos decode_rune_le by (auto simp: n_def)
    show ?thesis
    proof (cases "of_char a < (128 :: nat)")
      case True
      then have "n = 1"
        by (simp add: n_def st)
      with IH True st show ?thesis by simp
    next
      case False
      then have "fst (decode_rune s) \<noteq> rune_error"
        using eq b by (auto simp: fold_eq_def rune_error_def Let_def split: if_splits)
      then have "n \<noteq> 1"
        using False decode_bytes_one_byte [of "of_char a" "bytes s'"]
        by (auto simp add: n_def st decode_rune_bytes simp del: decode_bytes.simps)
      with IH n st show ?thesis by auto
    qed
  qed
qed

lemma equal_fold_iff_lower:
  "length s = length t \<Longrightarrow> is_ascii t \<Longrightarrow>
     equal_fold orbit s t \<longleftrightarrow> map to_lower s = map to_lower t"
proof (induction orbit s t rule: equal_fold.induct)
  case (1 orbit a s b t)
  show ?case
  proof (cases "of_char a < (128 :: nat)")
    case True
    with 1 show ?thesis by (simp add: fold_eq_ascii)
  next
    case False
    then have "\<not> equal_fold orbit (a # s) (b # t)"
      using equal_fold_runes_width [of orbit "a # s" "b # t"] "1.prems" by auto
    moreover have "to_lower a \<noteq> to_lower b"
    proof
      assume "to_lower a = to_lower b"
      then have "of_char (to_lower a) = (of_char (to_lower b) :: nat)" by simp
      with False "1.prems"(2) show False
        by (auto simp: of_char_to_lower Let_def split: if_splits)
    qed
    ultimately show ?thesis by simp
  qed
qed auto

section \<open>Hexadecimal digits\<close>

definition unhex :: "char \<Rightarrow> nat option" where
  "unhex c =
     (let b = of_char c :: nat in
      if 48 \<le> b \<and> b \<le> 57 then Some (b - 48)
      else if 97 \<le> b \<and> b \<le> 102 then Some (b - 87)
      else if 65 \<le> b \<and> b \<le> 70 then Some (b - 55)
      else None)"

end
