(* ===== verification/Go_Net.thy ===== *)
theory Go_Net
  imports Go_Strings
begin

text \<open>
  The boundary to the network and to the request: HTTP responses as the client sees them, a
  size-limited read of a body, header maps with canonical keys, and durations. What a remote
  endpoint answers is never defined here: it is an argument of the operations that ask.
\<close>

section \<open>Requests and responses\<close>

text \<open>
  The outcome of building and performing one GET: the URL cannot be turned into a request, the
  round trip fails, or there is a response. A body is the bytes it delivers and whether it then
  ends in a read error instead of EOF.
\<close>

record http_response =
  StatusCode :: nat
  body_bytes :: string
  body_fails :: bool

datatype get_outcome =
    CannotBuild
  | TransportError
  | Response http_response

definition StatusOK :: nat where
  "StatusOK = 200"

text \<open>
  \<open>io.ReadAll (io.LimitReader body limit)\<close>: at most \<open>limit\<close> bytes; a read error counts
  only when it comes before the limit does.
\<close>

definition read_limited :: "nat \<Rightarrow> http_response \<Rightarrow> string option" where
  "read_limited limit resp =
     (if body_fails resp \<and> length (body_bytes resp) < limit then None
      else Some (take limit (body_bytes resp)))"

lemma read_limited_length: "read_limited limit resp = Some b \<Longrightarrow> length b \<le> limit"
  by (auto simp: read_limited_def split: if_splits)

section \<open>Headers\<close>

text \<open>
  The \<open>Headers\<close> interface is one method, \<open>Get\<close>: a header value, or \<open>\"\"\<close> if absent.
\<close>

type_synonym headers = "string \<Rightarrow> string"

text \<open>
  \<open>net/http.Header\<close> stores values under canonical keys. \<open>Get\<close> canonicalises the name it
  is asked for: the first letter and every letter after a hyphen in upper case, the others in
  lower case, and a name with a byte outside the token characters as it is.
\<close>

type_synonym http_header = "string \<Rightarrow> string list option"

definition is_token_byte :: "char \<Rightarrow> bool" where
  "is_token_byte c \<longleftrightarrow>
     (let b = of_char c :: nat in
      65 \<le> b \<and> b \<le> 90 \<or> 97 \<le> b \<and> b \<le> 122 \<or> 48 \<le> b \<and> b \<le> 57 \<or>
      c \<in> set ''!#$%&*+-.^_`|~'' \<or> b = 39)"

definition to_upper :: "char \<Rightarrow> char" where
  "to_upper c = (let b = of_char c :: nat in if 97 \<le> b \<and> b \<le> 122 then char_of (b - 32) else c)"

fun canonical_from :: "bool \<Rightarrow> string \<Rightarrow> string" where
  "canonical_from up [] = []"
| "canonical_from up (c # s) =
     (if up then to_upper c else to_lower c) # canonical_from (c = CHR ''-'') s"

definition CanonicalHeaderKey :: "string \<Rightarrow> string" where
  "CanonicalHeaderKey s = (if list_all is_token_byte s then canonical_from True s else s)"

definition http_header_get :: "http_header \<Rightarrow> string \<Rightarrow> string" where
  "http_header_get h name =
     (case h (CanonicalHeaderKey name) of Some (v # _) \<Rightarrow> v | _ \<Rightarrow> [])"

lemma of_char_to_upper:
  "of_char (to_upper c) =
     (let b = of_char c :: nat in if 97 \<le> b \<and> b \<le> 122 then b - 32 else b)"
  using nat_of_char_less_256 [of c] by (simp add: to_upper_def Let_def del: nat_of_char_less_256)

text \<open>Names that differ only in letter case have the same canonical key.\<close>

lemma to_upper_lower: "to_lower c = to_lower d \<Longrightarrow> to_upper c = to_upper d"
proof -
  assume "to_lower c = to_lower d"
  then have "of_char (to_lower c) = (of_char (to_lower d) :: nat)" by simp
  then have "of_char (to_upper c) = (of_char (to_upper d) :: nat)"
    by (auto simp: of_char_to_lower of_char_to_upper Let_def split: if_splits)
  then show ?thesis by (simp add: of_char_eq_iff)
qed

lemma to_lower_hyphen: "to_lower c = to_lower d \<Longrightarrow> c = CHR ''-'' \<longleftrightarrow> d = CHR ''-''"
proof -
  assume "to_lower c = to_lower d"
  then have eq: "of_char (to_lower c) = (of_char (to_lower d) :: nat)" by simp
  have "e = CHR ''-'' \<longleftrightarrow> of_char e = (of_char CHR ''-'' :: nat)" for e :: char
    by (simp only: of_char_eq_iff)
  then have hyphen: "e = CHR ''-'' \<longleftrightarrow> of_char e = (45 :: nat)" for e :: char
    by simp
  show ?thesis
    using eq unfolding hyphen by (auto simp: of_char_to_lower Let_def split: if_splits)
qed

lemma is_token_byte_lower: "to_lower c = to_lower d \<Longrightarrow> is_token_byte c \<longleftrightarrow> is_token_byte d"
proof -
  assume eq: "to_lower c = to_lower d"
  show ?thesis
  proof (cases "c = d")
    case False
    have "of_char (to_lower c) = (of_char (to_lower d) :: nat)"
      using eq by simp
    moreover have "of_char c \<noteq> (of_char d :: nat)"
      using False by (simp add: of_char_eq_iff)
    ultimately show ?thesis
      by (auto simp: is_token_byte_def of_char_to_lower Let_def split: if_splits)
  qed simp
qed

lemma canonical_from_lower:
  "map to_lower s = map to_lower t \<Longrightarrow> canonical_from up s = canonical_from up t"
proof (induction up s arbitrary: t rule: canonical_from.induct)
  case (2 up c s)
  then obtain d t' where t: "t = d # t'" "to_lower c = to_lower d" "map to_lower s = map to_lower t'"
    by (auto simp: Cons_eq_map_conv)
  then show ?case
    using 2 to_upper_lower [OF t(2)] to_lower_hyphen [OF t(2)] by simp
qed simp

lemma list_all_token_lower:
  "map to_lower s = map to_lower t \<Longrightarrow> list_all is_token_byte s = list_all is_token_byte t"
proof (induction s arbitrary: t)
  case (Cons c s)
  then obtain d t' where "t = d # t'" "to_lower c = to_lower d" "map to_lower s = map to_lower t'"
    by (auto simp: Cons_eq_map_conv)
  with Cons.IH [of t'] is_token_byte_lower [of c d] show ?case by simp
qed simp

lemma http_header_get_case:
  assumes "map to_lower name = map to_lower name'" and "list_all is_token_byte name"
  shows "http_header_get h name = http_header_get h name'"
proof -
  have "CanonicalHeaderKey name = CanonicalHeaderKey name'"
    using assms canonical_from_lower [OF assms(1)] list_all_token_lower [OF assms(1)]
    by (simp add: CanonicalHeaderKey_def)
  then show ?thesis by (simp add: http_header_get_def)
qed

section \<open>Durations\<close>

text \<open>
  A \<open>time.Duration\<close> is a 64-bit count of nanoseconds, and \<open>Time.Sub\<close> saturates: times are
  integers here, durations the clamped difference.
\<close>

definition Hour :: int where
  "Hour = 3600 * 1000000000"

definition max_duration :: int where
  "max_duration = 2 ^ 63 - 1"

definition min_duration :: int where
  "min_duration = - (2 ^ 63)"

definition time_sub :: "int \<Rightarrow> int \<Rightarrow> int" where
  "time_sub t u = max min_duration (min max_duration (t - u))"

lemma time_sub_less: "d \<le> max_duration \<Longrightarrow> min_duration < d \<Longrightarrow> time_sub t u < d \<longleftrightarrow> t - u < d"
  by (auto simp: time_sub_def)

lemma time_sub_hour: "time_sub t u < Hour \<longleftrightarrow> t - u < Hour"
  by (intro time_sub_less) (simp_all add: Hour_def max_duration_def min_duration_def)

end
