(* ===== verification/Identity.thy ===== *)
theory Identity
  imports Go_Net
begin

text \<open>
  \<open>gatewayauth.go\<close>: the identity of a caller, its roles, the context it is parked on, the
  \<open>Authenticator\<close> interface with its two sentinel errors, and the disabled authenticator for
  local development. The interface is the locale \<open>authenticator\<close>: its laws are what the
  comments of the interface promise, and every adapter lemma is proved from them.
\<close>

section \<open>Claims and identities\<close>

text \<open>
  The dynamic value of an \<open>any\<close>: the shapes a decoded JWT or a hand-built token holds. A
  float64 is its bit pattern, a time its nanoseconds.
\<close>

datatype any =
    ANil
  | AString string
  | AStrings "string slice"
  | AArray "any slice"
  | ABool bool
  | ANumber nat
  | AObject "(string \<times> any) list"
  | ATime int

text \<open>\<open>Claims\<close> is a Go map, nil or from claim names to values.\<close>

record identity =
  Subject :: string
  Name :: string
  Email :: string
  Roles :: "string slice"
  Token :: string
  Claims :: "(string \<Rightarrow> any option) option"

definition zero_identity :: identity where
  "zero_identity =
     \<lparr>Subject = [], Name = [], Email = [], Roles = None, Token = [], Claims = None\<rparr>"

definition HasRole :: "identity \<Rightarrow> string \<Rightarrow> bool" where
  "HasRole i role = list_ex (\<lambda>r. r = role) (elems (Roles i))"

definition HasAnyRole :: "identity \<Rightarrow> string list \<Rightarrow> bool" where
  "HasAnyRole i roles = list_ex (HasRole i) roles"

lemma HasRole_iff [gate]: "HasRole i role \<longleftrightarrow> role \<in> set (elems (Roles i))"
  by (auto simp: HasRole_def list_ex_iff)

text \<open>\<open>HasAnyRole\<close> holds exactly when the caller's roles and the asked roles
  intersect; no role at all satisfies nothing, and more asked roles never lose a match.\<close>

lemma HasAnyRole_inter: "HasAnyRole i roles \<longleftrightarrow> set (elems (Roles i)) \<inter> set roles \<noteq> {}"
  by (auto simp: HasAnyRole_def list_ex_iff HasRole_iff)

lemma HasAnyRole_iff [gate]: "HasAnyRole i roles \<longleftrightarrow> (\<exists>r \<in> set roles. HasRole i r)"
  by (simp add: HasAnyRole_def list_ex_iff)

lemma HasAnyRole_Nil [simp]: "\<not> HasAnyRole i []"
  by (simp add: HasAnyRole_def)

lemma HasAnyRole_nil_roles [simp]: "Roles i = None \<Longrightarrow> \<not> HasAnyRole i roles"
  by (simp add: HasAnyRole_iff HasRole_iff)

section \<open>Contexts\<close>

text \<open>
  A context is the chain of its \<open>WithValue\<close> pairs, the innermost first. \<open>ContextKey\<close> is
  an exported type, so a value of another type may sit under it too: \<open>FromContext\<close> asserts
  the type.
\<close>

datatype ctx_key = ContextKey | OtherKey string

datatype ctx_value = CIdentity identity | COther string

type_synonym go_context = "(ctx_key \<times> ctx_value) list"

definition ctx_Value :: "go_context \<Rightarrow> ctx_key \<Rightarrow> ctx_value option" where
  "ctx_Value ctx k = map_of ctx k"

definition WithIdentity :: "go_context \<Rightarrow> identity \<Rightarrow> go_context" where
  "WithIdentity ctx i = (ContextKey, CIdentity i) # ctx"

text \<open>\<open>None\<close> stands for Go's \<open>(Identity{}, false)\<close>.\<close>

definition as_identity :: "ctx_value option \<Rightarrow> identity option" where
  "as_identity v = (case v of Some (CIdentity i) \<Rightarrow> Some i | _ \<Rightarrow> None)"

definition FromContext :: "go_context \<Rightarrow> identity option" where
  "FromContext ctx = as_identity (ctx_Value ctx ContextKey)"

text \<open>What \<open>WithIdentity\<close> attaches, \<open>FromContext\<close> returns, whatever was attached
  before; no other key of the context changes.\<close>

lemma FromContext_WithIdentity:
  "FromContext (WithIdentity ctx i) = Some i \<and>
   ctx_Value (WithIdentity ctx i) (OtherKey k) = ctx_Value ctx (OtherKey k)"
  by (simp add: FromContext_def WithIdentity_def ctx_Value_def as_identity_def)

lemma FromContext_With [simp]: "FromContext (WithIdentity ctx i) = Some i"
  by (simp add: FromContext_def WithIdentity_def ctx_Value_def as_identity_def)

lemma FromContext_Nil [simp]: "FromContext [] = None"
  by (simp add: FromContext_def ctx_Value_def as_identity_def)

section \<open>The Authenticator interface\<close>

text \<open>
  The two sentinel errors; an implementation outside the package could return any other error.
\<close>

datatype auth_error = ErrNoCredential | ErrInvalidToken | OtherError string

text \<open>
  An authenticator is its two methods. \<open>Authenticate\<close> reads the request's headers and may
  change the state \<open>'s\<close> its value points to (caches, logs, requests it sends); the
  \<open>context.Context\<close> argument only cancels network calls, whose outcomes are arguments of
  the implementations.
\<close>

record 's authenticator =
  Authenticate :: "headers \<Rightarrow> 's \<Rightarrow> (auth_error, identity) result \<times> 's"
  Enabled :: bool

text \<open>
  The promise of the interface: a failure is one of the two sentinels, and the state keeps the
  implementation's invariant.
\<close>

locale authenticator =
  fixes auth :: "'s authenticator"
    and inv :: "'s \<Rightarrow> bool"
  assumes sentinel:
      "fst (Authenticate auth h s) = Inl e \<Longrightarrow> e = ErrNoCredential \<or> e = ErrInvalidToken"
    and keeps_inv: "inv s \<Longrightarrow> inv (snd (Authenticate auth h s))"
begin

lemma authenticate_cases [case_names none invalid ok]:
  assumes "fst (Authenticate auth h s) = Inl ErrNoCredential \<Longrightarrow> P"
    and "fst (Authenticate auth h s) = Inl ErrInvalidToken \<Longrightarrow> P"
    and "\<And>i. fst (Authenticate auth h s) = Inr i \<Longrightarrow> P"
  shows P
  using assms sentinel by (cases "fst (Authenticate auth h s)") blast+

lemma no_other_error: "fst (Authenticate auth h s) \<noteq> Inl (OtherError m)"
  using sentinel by blast

end

text \<open>An authenticator that keeps no state at all.\<close>

locale stateless_authenticator = authenticator auth inv
  for auth :: "'s authenticator" and inv :: "'s \<Rightarrow> bool" +
  assumes stateless: "snd (Authenticate auth h s) = s"
begin

lemma authenticate_eq: "Authenticate auth h s = (fst (Authenticate auth h s), s)"
  using stateless by (metis prod.collapse)

end

section \<open>The disabled authenticator\<close>

definition NewDisabled :: "string slice \<Rightarrow> 's authenticator" where
  "NewDisabled roles =
     (let identity = \<lparr>Subject = ''local'', Name = ''local operator'',
                      Email = ''local@localhost'', Roles = roles, Token = [], Claims = None\<rparr>
      in \<lparr>Authenticate = (\<lambda>h s. (Inr identity, s)), Enabled = False\<rparr>)"

interpretation disabled: stateless_authenticator "NewDisabled roles" "\<lambda>_. True" for roles
  by unfold_locales (simp_all add: NewDisabled_def Let_def)

text \<open>The disabled authenticator admits every request as the same local identity with
  exactly the given roles, and reports that it verifies nothing.\<close>

lemma NewDisabled_admits:
  "\<exists>i. \<forall>h s. Authenticate (NewDisabled roles) h s = (Inr i, s) \<and>
     Subject i = ''local'' \<and> Roles i = roles \<and> \<not> Enabled (NewDisabled roles)"
  by (simp add: NewDisabled_def Let_def)

end
