(* ===== verification/Source.thy ===== *)
theory Source
  imports Identity
begin

text \<open>
  \<open>source.go\<close>: the header names, the token sources and the chain of them, the splitting of
  the groups header, and the credential forwarded to a downstream call. The interface
  \<open>TokenSource\<close> is open, so the datatype has a constructor for a source defined elsewhere;
  the contract that the sources of this package keep is the locale \<open>token_source\<close>.
\<close>

section \<open>Header names\<close>

definition HeaderAccessToken :: string where
  "HeaderAccessToken = ''X-Auth-Request-Access-Token''"

definition HeaderUser :: string where
  "HeaderUser = ''X-Auth-Request-User''"

definition HeaderEmail :: string where
  "HeaderEmail = ''X-Auth-Request-Email''"

definition HeaderGroups :: string where
  "HeaderGroups = ''X-Auth-Request-Groups''"

definition HeaderAuthorization :: string where
  "HeaderAuthorization = ''Authorization''"

lemmas header_names =
  HeaderAccessToken_def HeaderUser_def HeaderEmail_def HeaderGroups_def HeaderAuthorization_def

section \<open>Token sources\<close>

text \<open>
  \<open>HeaderSource name scheme\<close> and \<open>ChainSource\<close> are the package's sources. A result
  \<open>(raw, true)\<close> is \<open>Some raw\<close>, a result with \<open>false\<close> is \<open>None\<close>; \<open>orbit\<close> is the
  Unicode folding table of \<^const>\<open>equal_fold\<close>.
\<close>

datatype TokenSource =
    HeaderSource string string
  | ChainSource "TokenSource list"
  | OtherSource "headers \<Rightarrow> string option"

definition HeaderSource_Token ::
    "(nat \<Rightarrow> nat \<Rightarrow> bool) \<Rightarrow> string \<Rightarrow> string \<Rightarrow> headers \<Rightarrow> string option" where
  "HeaderSource_Token orbit name scheme h =
     (let value = trim_space (h name) in
      if value = [] then None
      else if scheme = [] then Some value
      else
        let prefix = scheme @ '' '' in
        if length value < length prefix \<or>
           \<not> equal_fold orbit (take (length prefix) value) prefix
        then None
        else
          let token = trim_space (drop (length prefix) value) in
          if token \<noteq> [] then Some token else None)"

fun source_token :: "(nat \<Rightarrow> nat \<Rightarrow> bool) \<Rightarrow> TokenSource \<Rightarrow> headers \<Rightarrow> string option"
  and chain_token :: "(nat \<Rightarrow> nat \<Rightarrow> bool) \<Rightarrow> TokenSource list \<Rightarrow> headers \<Rightarrow> string option" where
  "source_token orbit (HeaderSource name scheme) h = HeaderSource_Token orbit name scheme h"
| "source_token orbit (ChainSource c) h = chain_token orbit c h"
| "source_token orbit (OtherSource f) h = f h"
| "chain_token orbit [] h = None"
| "chain_token orbit (s # c) h =
     (case source_token orbit s h of Some raw \<Rightarrow> Some raw | None \<Rightarrow> chain_token orbit c h)"

definition OAuth2ProxyAccessToken :: TokenSource where
  "OAuth2ProxyAccessToken = HeaderSource HeaderAccessToken []"

definition AuthorizationBearer :: TokenSource where
  "AuthorizationBearer = HeaderSource HeaderAuthorization ''Bearer''"

definition DefaultSource :: TokenSource where
  "DefaultSource = ChainSource [OAuth2ProxyAccessToken, AuthorizationBearer]"

section \<open>Groups and forwarding\<close>

definition splitAndTrim :: "string \<Rightarrow> string \<Rightarrow> string slice" where
  "splitAndTrim s sep =
     (let out = filter (\<lambda>t. t \<noteq> []) (map trim_space (split_str s sep))
      in if length out = 0 then None else Some out)"

definition ForwardAuthorization :: "headers \<Rightarrow> string" where
  "ForwardAuthorization h =
     (let a = trim_space (h HeaderAuthorization) in
      if a \<noteq> [] then a
      else let t = trim_space (h HeaderAccessToken) in
        if t \<noteq> [] then ''Bearer '' @ t else [])"

definition HeaderGetter_Get :: "(string \<Rightarrow> string) \<Rightarrow> headers" where
  "HeaderGetter_Get g = (\<lambda>name. g name)"

section \<open>The contract of a source\<close>

text \<open>A token handed on is never empty and carries no space at either end.\<close>

locale token_source =
  fixes token :: "headers \<Rightarrow> string option"
  assumes credential: "token h = Some t \<Longrightarrow> t \<noteq> [] \<and> trimmed t"
begin

lemma no_empty_token: "token h \<noteq> Some []"
  using credential by blast

lemma token_trim: "token h = Some t \<Longrightarrow> trim_space t = t"
  using credential by (simp add: trim_space_id)

end

text \<open>A chain of sources that each keep the contract keeps it.\<close>

locale token_sources =
  fixes orbit :: "nat \<Rightarrow> nat \<Rightarrow> bool" and sources :: "TokenSource list"
  assumes each: "s \<in> set sources \<Longrightarrow> token_source (source_token orbit s)"

lemma chain_token_skip:
  "\<forall>p \<in> set pre. source_token orbit p h = None \<Longrightarrow>
     chain_token orbit (pre @ c) h = chain_token orbit c h"
  by (induction pre) simp_all

lemma chain_token_SomeD:
  "chain_token orbit c h = Some t \<Longrightarrow>
     \<exists>pre s post. c = pre @ s # post \<and> (\<forall>p \<in> set pre. source_token orbit p h = None) \<and>
        source_token orbit s h = Some t"
proof (induction c)
  case (Cons s c)
  show ?case
  proof (cases "source_token orbit s h")
    case None
    with Cons obtain pre u post where "c = pre @ u # post"
      and "\<forall>p \<in> set pre. source_token orbit p h = None" and "source_token orbit u h = Some t"
      by auto
    with None show ?thesis
      by - (rule exI [of _ "s # pre"], rule exI [of _ u], auto)
  next
    case (Some u)
    with Cons.prems show ?thesis
      by - (rule exI [of _ "[]"], rule exI [of _ s], auto)
  qed
qed simp

lemma chain_token_None_iff:
  "chain_token orbit c h = None \<longleftrightarrow> (\<forall>s \<in> set c. source_token orbit s h = None)"
  by (induction c) (auto split: option.splits)

sublocale token_sources \<subseteq> chain: token_source "chain_token orbit sources"
proof
  fix h t
  assume "chain_token orbit sources h = Some t"
  then obtain s where "s \<in> set sources" and "source_token orbit s h = Some t"
    by (fastforce dest!: chain_token_SomeD)
  then show "t \<noteq> [] \<and> trimmed t"
    using each token_source.credential by blast
qed

interpretation header: token_source "source_token orbit (HeaderSource name scheme)"
  for orbit name scheme
  by unfold_locales
    (auto simp: HeaderSource_Token_def Let_def trimmed_trim_space split: if_splits)

interpretation default: token_sources orbit "[OAuth2ProxyAccessToken, AuthorizationBearer]"
  for orbit
proof (rule token_sources.intro)
  fix s
  assume "s \<in> set [OAuth2ProxyAccessToken, AuthorizationBearer]"
  then obtain name scheme where "s = HeaderSource name scheme"
    by (auto simp: OAuth2ProxyAccessToken_def AuthorizationBearer_def)
  then show "token_source (source_token orbit s)"
    using header.token_source_axioms by blast
qed

section \<open>Reading a header\<close>

text \<open>A header source without a scheme hands on the trimmed header value; every source
  hands on a non-empty token without a space at either end, cut out of the header it names.\<close>

lemma HeaderSource_Token_sound:
  assumes "source_token orbit (HeaderSource name scheme) h = Some t"
  shows "t \<noteq> [] \<and> trim_space t = t \<and> (\<exists>a b. h name = a @ t @ b) \<and>
     (scheme = [] \<longrightarrow> t = trim_space (h name))"
proof -
  obtain a b where ab: "h name = a @ trim_space (h name) @ b"
    using trim_space_infix by blast
  have "\<exists>a b. h name = a @ t @ b"
  proof (cases "scheme = []")
    case True
    with assms ab show ?thesis
      by (auto simp: HeaderSource_Token_def Let_def split: if_splits)
  next
    case False
    define v where "v = trim_space (h name)"
    define k where "k = Suc (length scheme)"
    from False assms have t: "t = trim_space (drop k v)"
      by (auto simp: HeaderSource_Token_def Let_def v_def k_def split: if_splits)
    obtain c d where cd: "drop k v = c @ t @ d"
      unfolding t using trim_space_infix by blast
    have "h name = a @ v @ b"
      using ab by (simp only: v_def)
    also have "v = take k v @ c @ t @ d"
      using cd by (metis append_take_drop_id)
    finally have "h name = (a @ take k v @ c) @ t @ (d @ b)"
      by simp
    then show ?thesis by blast
  qed
  moreover have "t \<noteq> [] \<and> trim_space t = t"
    using header.credential [OF assms] header.token_trim [OF assms] by blast
  moreover have "scheme = [] \<longrightarrow> t = trim_space (h name)"
    using assms by (simp add: HeaderSource_Token_def Let_def split: if_splits)
  ultimately show ?thesis by blast
qed

lemma HeaderSource_Token_sound_witness:
  "\<exists>t. source_token (\<lambda>_ _. False) OAuth2ProxyAccessToken (\<lambda>_. ''  abc.def '') = Some t \<and>
     t \<noteq> [] \<and> trim_space t = t"
proof -
  have "trim_space (''  '' @ ''abc.def'' @ '' '') = ''abc.def''"
    by (intro trim_space_padded trimmed_visible) (simp_all add: visible_ascii_def is_space_def)
  then have "source_token (\<lambda>_ _. False) (HeaderSource HeaderAccessToken [])
      (\<lambda>_. ''  abc.def '') = Some ''abc.def''"
    by (simp add: HeaderSource_Token_def)
  from HeaderSource_Token_sound [OF this] this show ?thesis
    unfolding OAuth2ProxyAccessToken_def by blast
qed

text \<open>A scheme in ASCII, as every registered scheme is, is matched up to letter case only.\<close>

lemma to_lower_blank: "to_lower c = to_lower CHR '' '' \<longleftrightarrow> c = CHR '' ''"
proof -
  have "to_lower c = to_lower CHR '' '' \<longleftrightarrow> of_char (to_lower c) = (of_char (to_lower CHR '' '') :: nat)"
    by (simp only: of_char_eq_iff)
  also have "\<dots> \<longleftrightarrow> of_char c = (of_char CHR '' '' :: nat)"
    by (auto simp: of_char_to_lower Let_def)
  finally show ?thesis
    by (simp only: of_char_eq_iff)
qed

text \<open>C36: with an ASCII scheme a token is found exactly when the trimmed value is the scheme in
  any letter case, one space and something non-blank; the result does not depend on the
  Unicode folding tables.\<close>

theorem HeaderSource_Token_scheme:
  assumes "scheme \<noteq> []" and "is_ascii scheme"
  shows "source_token orbit (HeaderSource name scheme) h = Some t \<longleftrightarrow>
    (\<exists>sch rest. trim_space (h name) = sch @ '' '' @ rest \<and>
       map to_lower sch = map to_lower scheme \<and> t = trim_space rest \<and> t \<noteq> [])"
    (is "?L \<longleftrightarrow> ?R")
proof
  let ?v = "trim_space (h name)"
  assume ?L
  with assms(1) have len: "Suc (length scheme) \<le> length ?v"
    and eq: "equal_fold orbit (take (Suc (length scheme)) ?v) (scheme @ '' '')"
    and t: "t = trim_space (drop (Suc (length scheme)) ?v)" "t \<noteq> []"
    by (auto simp: HeaderSource_Token_def Let_def not_less split: if_splits)
  from eq have low: "map to_lower (take (Suc (length scheme)) ?v) = map to_lower (scheme @ '' '')"
    using assms(2) len by (subst (asm) equal_fold_iff_lower) simp_all
  have split: "take (Suc (length scheme)) ?v = take (length scheme) ?v @ [?v ! length scheme]"
    using len by (intro take_Suc_conv_app_nth) simp
  from low have "map to_lower (take (length scheme) ?v) = map to_lower scheme"
    and "?v ! length scheme = CHR '' ''"
    by (simp_all add: split to_lower_blank)
  moreover have "?v = take (length scheme) ?v @ [?v ! length scheme] @ drop (Suc (length scheme)) ?v"
    using append_take_drop_id [of "Suc (length scheme)" ?v] unfolding split by simp
  ultimately show ?R
    using t by metis
next
  assume ?R
  then obtain sch rest where v: "trim_space (h name) = sch @ '' '' @ rest"
    and low: "map to_lower sch = map to_lower scheme" and t: "t = trim_space rest" "t \<noteq> []"
    by blast
  have len: "length sch = length scheme"
    using low by (metis length_map)
  have "equal_fold orbit (sch @ '' '') (scheme @ '' '')"
    using low len assms(2) by (subst equal_fold_iff_lower) simp_all
  with v t len assms(1) show ?L
    by (simp add: HeaderSource_Token_def)
qed

theorem HeaderSource_Token_scheme_witness:
  "source_token (\<lambda>_ _. False) AuthorizationBearer (\<lambda>_. ''Basic dXNlcg'') = None"
proof (rule ccontr)
  have trim: "trim_space ''Basic dXNlcg'' = ''Basic dXNlcg''" by (simp add: go_eval)
  assume "\<not> ?thesis"
  then obtain t where "source_token (\<lambda>_ _. False) (HeaderSource HeaderAuthorization ''Bearer'')
      (\<lambda>_. ''Basic dXNlcg'') = Some t"
    by (auto simp: AuthorizationBearer_def)
  then obtain sch rest where v: "''Basic dXNlcg'' = sch @ '' '' @ rest"
    and low: "map to_lower sch = map to_lower ''Bearer''"
    using HeaderSource_Token_scheme [of "''Bearer''" "\<lambda>_ _. False" HeaderAuthorization] trim by auto
  have "length sch = 6"
    using map_eq_imp_length_eq [OF low] by simp
  then have "take 7 ''Basic dXNlcg'' = sch @ '' ''"
    unfolding v by simp
  with low show False by (auto simp: to_lower_def)
qed

lemma trimmed_scheme_token:
  assumes "map to_lower sch = map to_lower ''Bearer''" and "visible_ascii t" and "t \<noteq> []"
  shows "trimmed (sch @ '' '' @ p @ t)"
proof -
  obtain c cs where sch: "sch = c # cs" and "to_lower c = to_lower CHR ''B''"
    using assms(1) by (cases sch) auto
  then have "of_char (to_lower c) = (of_char (to_lower CHR ''B'') :: nat)" by simp
  then have "66 = (of_char c :: nat) \<or> 98 = (of_char c :: nat)"
    by (auto simp: of_char_to_lower Let_def split: if_splits)
  then have first: "\<not> is_space (fst (decode_rune (sch @ '' '' @ p @ t)))"
    by (auto simp: sch is_space_def)
  have "33 \<le> (of_char (last t) :: nat) \<and> of_char (last t) < (127 :: nat)"
    using assms(2,3) last_in_set [of t] unfolding visible_ascii_def by blast
  then have "\<not> is_space (fst (decode_last_rune (sch @ '' '' @ p @ t)))"
    using assms(3) visible_not_space [of "last t"]
    by (simp add: decode_last_rune_def)
  with first show ?thesis
    by (simp add: trimmed_def)
qed

text \<open>A bearer token of visible ASCII characters is read back exactly, whatever the letter
  case of the scheme and however much white space surrounds it.\<close>

lemma AuthorizationBearer_roundtrip:
  assumes "map to_lower sch = map to_lower ''Bearer''" and "visible_ascii t" and "t \<noteq> []"
    and "ascii_blank a" and "ascii_blank p" and "ascii_blank b"
    and "h HeaderAuthorization = a @ (sch @ '' '' @ p @ t) @ b"
  shows "source_token orbit AuthorizationBearer h = Some t"
proof -
  have "trim_space (h HeaderAuthorization) = sch @ '' '' @ p @ t"
    unfolding assms(7)
    by (rule trim_space_padded [OF trimmed_scheme_token [OF assms(1,2,3)] assms(4,6)])
  moreover have "trim_space (p @ t) = t"
    using trim_space_padded [OF trimmed_visible [OF assms(2)] assms(5), of "[]"] by simp
  moreover have len: "length sch = 6"
    using map_eq_imp_length_eq [OF assms(1)] by simp
  moreover have "equal_fold orbit (sch @ '' '') ''Bearer ''"
    using assms(1) len by (subst equal_fold_iff_lower) (simp_all add: is_ascii_def)
  ultimately show ?thesis
    using assms(3)
    by (simp add: AuthorizationBearer_def HeaderSource_Token_def)
qed

lemma AuthorizationBearer_roundtrip_witness:
  "source_token (\<lambda>_ _. False) AuthorizationBearer (\<lambda>_. ''  bEaReR   abc.def.ghi '') = Some ''abc.def.ghi''"
proof (rule AuthorizationBearer_roundtrip [of "''bEaReR''" _ "''  ''" "''  ''" "'' ''"])
  show "map to_lower ''bEaReR'' = map to_lower ''Bearer''" by code_simp
qed (simp_all add: visible_ascii_def is_space_def)

section \<open>Chains\<close>

text \<open>A chain hands on the token of the first source that has one, and has none exactly
  when no source has one.\<close>

lemma ChainSource_first:
  "(source_token orbit (ChainSource c) h = None \<longleftrightarrow> (\<forall>s \<in> set c. source_token orbit s h = None)) \<and>
   (source_token orbit (ChainSource c) h = Some t \<longleftrightarrow>
     (\<exists>pre s post. c = pre @ s # post \<and> (\<forall>p \<in> set pre. source_token orbit p h = None) \<and>
        source_token orbit s h = Some t))"
proof (intro conjI iffI)
  assume "source_token orbit (ChainSource c) h = Some t"
  then show "\<exists>pre s post. c = pre @ s # post \<and> (\<forall>p \<in> set pre. source_token orbit p h = None) \<and>
      source_token orbit s h = Some t"
    by (intro chain_token_SomeD) simp
qed (auto simp: chain_token_None_iff chain_token_skip)

lemma ChainSource_first_witness:
  "source_token (\<lambda>_ _. False) DefaultSource (\<lambda>n. if n = HeaderAccessToken then ''tok'' else ''Bearer x'') =
     Some ''tok''"
proof -
  let ?h = "\<lambda>n. if n = HeaderAccessToken then ''tok'' else ''Bearer x''"
  have "trim_space ''tok'' = ''tok''" by (simp add: go_eval)
  then have "source_token (\<lambda>_ _. False) OAuth2ProxyAccessToken ?h = Some ''tok''"
    by (simp add: OAuth2ProxyAccessToken_def HeaderSource_Token_def)
  then have "\<exists>pre s post. [OAuth2ProxyAccessToken, AuthorizationBearer] = pre @ s # post \<and>
      (\<forall>p \<in> set pre. source_token (\<lambda>_ _. False) p ?h = None) \<and> source_token (\<lambda>_ _. False) s ?h = Some ''tok''"
    by (intro exI [of _ "[]"]) simp
  then show ?thesis
    unfolding DefaultSource_def by (rule ChainSource_first [THEN conjunct2, THEN iffD2])
qed

lemma DefaultSource_token:
  "source_token orbit DefaultSource h =
     (if trim_space (h HeaderAccessToken) \<noteq> [] then Some (trim_space (h HeaderAccessToken))
      else source_token orbit AuthorizationBearer h)"
  by (simp add: DefaultSource_def OAuth2ProxyAccessToken_def HeaderSource_Token_def Let_def
      split: option.split)

section \<open>Forwarding the credential\<close>

lemma bearer_of_forwarded:
  assumes "visible_ascii t" and "t \<noteq> []" and "h HeaderAuthorization = ''Bearer '' @ t"
  shows "source_token orbit AuthorizationBearer h = Some t"
proof -
  have "trimmed (''Bearer'' @ '' '' @ [] @ t)"
    using assms(1,2) by (intro trimmed_scheme_token) simp_all
  then have "trim_space (''Bearer '' @ t) = ''Bearer '' @ t"
    by (simp add: trim_space_id)
  moreover have "trim_space t = t"
    using assms(1) by (intro trim_space_id trimmed_visible)
  moreover have "equal_fold orbit ''Bearer '' ''Bearer ''"
    by (subst equal_fold_iff_lower) (simp_all add: is_ascii_def)
  ultimately show ?thesis
    using assms(2,3) by (simp add: AuthorizationBearer_def HeaderSource_Token_def)
qed

text \<open>When the request carries the gateway's header only, the forwarded Authorization value
  gives a downstream service the very token this service reads.\<close>

lemma ForwardAuthorization_gateway:
  assumes "trim_space (h HeaderAuthorization) = []" and "trim_space (h HeaderAccessToken) = t"
    and "visible_ascii t" and "t \<noteq> []" and "h' HeaderAuthorization = ForwardAuthorization h"
  shows "source_token orbit DefaultSource h = Some t \<and>
     source_token orbit AuthorizationBearer h' = Some t"
proof -
  have "h' HeaderAuthorization = ''Bearer '' @ t"
    using assms by (simp add: ForwardAuthorization_def Let_def)
  with assms show ?thesis
    by (simp add: DefaultSource_token bearer_of_forwarded)
qed

lemma ForwardAuthorization_gateway_witness:
  "source_token (\<lambda>_ _. False) DefaultSource ((\<lambda>_. [])(HeaderAccessToken := '' gw '')) = Some ''gw'' \<and>
   source_token (\<lambda>_ _. False) AuthorizationBearer ((\<lambda>_. [])(HeaderAuthorization := ''Bearer gw'')) =
     Some ''gw''"
  by (rule ForwardAuthorization_gateway)
    (simp_all add: go_eval header_names ForwardAuthorization_def visible_ascii_def)

text \<open>With both headers set the two precedences differ: the service authenticates the token
  of the gateway's header while the forwarded credential is the Authorization header's, so
  downstream sees the same caller only if the two tokens are equal.\<close>

lemma ForwardAuthorization_precedence:
  assumes "visible_ascii t" and "t \<noteq> []" and "visible_ascii u" and "u \<noteq> []"
    and "h HeaderAccessToken = t" and "h HeaderAuthorization = ''Bearer '' @ u"
    and "h' HeaderAuthorization = ForwardAuthorization h"
  shows "source_token orbit DefaultSource h = Some t \<and>
     source_token orbit AuthorizationBearer h' = Some u"
proof -
  have t: "trim_space t = t"
    using assms(1) by (intro trim_space_id trimmed_visible)
  have "trimmed (''Bearer'' @ '' '' @ [] @ u)"
    using assms(3,4) by (intro trimmed_scheme_token) simp_all
  then have "h' HeaderAuthorization = ''Bearer '' @ u"
    using assms(6,7) by (simp add: ForwardAuthorization_def trim_space_id)
  with t assms show ?thesis
    by (simp add: DefaultSource_token bearer_of_forwarded)
qed

lemma ForwardAuthorization_precedence_witness:
  "source_token (\<lambda>_ _. False) DefaultSource
       ((\<lambda>_. [])(HeaderAccessToken := ''gw'', HeaderAuthorization := ''Bearer api'')) = Some ''gw'' \<and>
   source_token (\<lambda>_ _. False) AuthorizationBearer ((\<lambda>_. [])(HeaderAuthorization := ''Bearer api'')) =
     Some ''api''"
  by (rule ForwardAuthorization_precedence)
    (simp_all add: go_eval header_names ForwardAuthorization_def visible_ascii_def)

section \<open>The groups header\<close>

lemma splitAndTrim_elems:
  "elems (splitAndTrim s sep) = filter (\<lambda>t. t \<noteq> []) (map trim_space (split_str s sep))"
  by (simp add: splitAndTrim_def Let_def)

text \<open>Every group is trimmed, not empty and free of commas; the slice is nil exactly when
  every piece is blank, and never an empty slice.\<close>

lemma splitAndTrim_entries:
  "(\<forall>g \<in> set (elems (splitAndTrim s '','')). g \<noteq> [] \<and> trim_space g = g \<and> CHR '','' \<notin> set g) \<and>
   (splitAndTrim s '','' = None \<longleftrightarrow> (\<forall>p \<in> set (split_str s '',''). trim_space p = [])) \<and>
   splitAndTrim s '','' \<noteq> Some []"
proof (intro conjI ballI)
  fix g
  assume "g \<in> set (elems (splitAndTrim s '',''))"
  then obtain p where p: "p \<in> set (split_str s '','')" and g: "g = trim_space p" "g \<noteq> []"
    by (auto simp: splitAndTrim_elems)
  then show "g \<noteq> []" and "trim_space g = g"
    by simp_all
  obtain a b where "p = a @ g @ b"
    using trim_space_infix g by blast
  then show "CHR '','' \<notin> set g"
    using split_byte_pieces [OF p] by auto
qed (auto simp: splitAndTrim_def Let_def filter_empty_conv)

lemma splitAndTrim_entries_witness:
  "CHR '','' \<notin> set ''b''"
proof -
  have "trim_space '' b'' = ''b''" by (simp add: go_eval)
  then have "''b'' \<in> set (elems (splitAndTrim ''a, b'' '',''))"
    using split_byte_cons [of "CHR '',''" "''a''" "'' b''"] split_byte_none [of "CHR '',''" "'' b''"]
    by (simp add: splitAndTrim_elems)
  with splitAndTrim_entries [of "''a, b''"] show ?thesis by blast
qed

text \<open>A groups header written as a comma-separated list of names, each padded with any white
  space, is read back as exactly those names in order.\<close>

lemma splitAndTrim_roundtrip:
  assumes "gs \<noteq> []"
    and "\<forall>(a, g, b) \<in> set gs. ascii_blank a \<and> ascii_blank b \<and> trimmed g \<and> g \<noteq> [] \<and>
           CHR '','' \<notin> set (a @ g @ b)"
  shows "splitAndTrim (join_str (map (\<lambda>(a, g, b). a @ g @ b) gs) '','') '','' =
     Some (map (\<lambda>(a, g, b). g) gs)"
proof -
  have "split_str (join_str (map (\<lambda>(a, g, b). a @ g @ b) gs) '','') '','' =
      map (\<lambda>(a, g, b). a @ g @ b) gs"
    using assms by (intro split_join_byte) auto
  moreover have "map trim_space (map (\<lambda>(a, g, b). a @ g @ b) gs) = map (\<lambda>(a, g, b). g) gs"
    using assms(2) by (auto simp: trim_space_padded)
  moreover have "filter (\<lambda>t. t \<noteq> []) (map (\<lambda>(a, g, b). g) gs) = map (\<lambda>(a, g, b). g) gs"
    using assms(2) by (auto simp: filter_id_conv)
  ultimately have "filter (\<lambda>t. t \<noteq> []) (map trim_space
      (split_str (join_str (map (\<lambda>(a, g, b). a @ g @ b) gs) '','') '','')) = map (\<lambda>(a, g, b). g) gs"
    by (simp only:)
  then show ?thesis
    using assms(1) by (simp add: splitAndTrim_def Let_def)
qed

lemma splitAndTrim_roundtrip_witness:
  "splitAndTrim ''ops, viewers '' '','' = Some [''ops'', ''viewers'']"
  using splitAndTrim_roundtrip [of "[([], ''ops'', []), ('' '', ''viewers'', '' '')]"]
  by (simp add: is_space_def trimmed_visible visible_ascii_def)

end
