(* ===== verification/Claims.thy ===== *)
theory Claims
  imports Source
begin

text \<open>
  \<open>claims.go\<close>: from a verified token to an identity. The token belongs to the JWT library; the
  record \<open>jwt_token\<close> is the view of it through the accessors of the library's interface, and no
  definition says how the library fills it.
\<close>

section \<open>The token interface\<close>

text \<open>
  \<open>Subject()\<close>, \<open>Keys()\<close> and \<open>Field(name)\<close> are what this package calls; the issuer, the
  audience and the expiry are what the library's validation speaks about. \<open>None\<close> is an absent
  claim.
\<close>

record jwt_token =
  tok_Subject :: "string option"
  tok_Keys :: "string list"
  tok_Field :: "string \<Rightarrow> any option"
  tok_Issuer :: "string option"
  tok_Audience :: "string list"
  tok_Expiration :: "int option"

section \<open>The mapper\<close>

record ClaimsMapper =
  NameClaim :: string
  EmailClaim :: string
  RolesClaim :: string

definition withDefaults :: "ClaimsMapper \<Rightarrow> ClaimsMapper" where
  "withDefaults m =
     (let m = (if NameClaim m = [] then m\<lparr>NameClaim := ''name''\<rparr> else m);
          m = (if EmailClaim m = [] then m\<lparr>EmailClaim := ''email''\<rparr> else m)
      in if RolesClaim m = [] then m\<lparr>RolesClaim := ''groups''\<rparr> else m)"

definition stringClaim :: "jwt_token \<Rightarrow> string \<Rightarrow> string" where
  "stringClaim token name =
     (case tok_Field token name of
        None \<Rightarrow> []
      | Some raw \<Rightarrow> (case raw of AString value \<Rightarrow> value | _ \<Rightarrow> []))"

text \<open>The loop over a decoded JSON array keeps the strings, in order.\<close>

fun strings_of :: "any list \<Rightarrow> string list" where
  "strings_of [] = []"
| "strings_of (item # rest) =
     (case item of AString s \<Rightarrow> s # strings_of rest | _ \<Rightarrow> strings_of rest)"

definition stringsFrom :: "any \<Rightarrow> string slice" where
  "stringsFrom raw =
     (case raw of
        AString value \<Rightarrow> Some [value]
      | AStrings value \<Rightarrow> value
      | AArray value \<Rightarrow> Some (strings_of (elems value))
      | _ \<Rightarrow> None)"

definition claimValues :: "jwt_token \<Rightarrow> string \<Rightarrow> string slice" where
  "claimValues token name =
     (case tok_Field token name of None \<Rightarrow> None | Some raw \<Rightarrow> stringsFrom raw)"

fun add_claims :: "jwt_token \<Rightarrow> string list \<Rightarrow> (string \<Rightarrow> any option) \<Rightarrow> (string \<Rightarrow> any option)" where
  "add_claims token [] out = out"
| "add_claims token (key # keys) out =
     (case tok_Field token key of
        Some value \<Rightarrow> add_claims token keys (out(key \<mapsto> value))
      | None \<Rightarrow> add_claims token keys out)"

definition claimsMap :: "jwt_token \<Rightarrow> (string \<Rightarrow> any option) option" where
  "claimsMap token =
     (let keys = tok_Keys token in
      if length keys = 0 then None else Some (add_claims token keys (\<lambda>_. None)))"

definition subject_of :: "jwt_token \<Rightarrow> string" where
  "subject_of token = (case tok_Subject token of Some s \<Rightarrow> s | None \<Rightarrow> [])"

definition mapper_identity :: "ClaimsMapper \<Rightarrow> jwt_token \<Rightarrow> string \<Rightarrow> identity" where
  "mapper_identity m token raw =
     (let m = withDefaults m in
      \<lparr>Subject = subject_of token,
       Name = stringClaim token (NameClaim m),
       Email = stringClaim token (EmailClaim m),
       Roles = claimValues token (RolesClaim m),
       Token = raw,
       Claims = claimsMap token\<rparr>)"

section \<open>Defaults\<close>

lemma withDefaults_sel [simp]:
  "NameClaim (withDefaults m) = (if NameClaim m = [] then ''name'' else NameClaim m)"
  "EmailClaim (withDefaults m) = (if EmailClaim m = [] then ''email'' else EmailClaim m)"
  "RolesClaim (withDefaults m) = (if RolesClaim m = [] then ''groups'' else RolesClaim m)"
  by (simp_all add: withDefaults_def Let_def)

text \<open>Defaulting fills exactly the empty names, keeps the explicit ones, and a second
  defaulting changes nothing.\<close>

lemma withDefaults_spec:
  "withDefaults m =
     \<lparr>NameClaim = (if NameClaim m = [] then ''name'' else NameClaim m),
      EmailClaim = (if EmailClaim m = [] then ''email'' else EmailClaim m),
      RolesClaim = (if RolesClaim m = [] then ''groups'' else RolesClaim m)\<rparr> \<and>
   withDefaults (withDefaults m) = withDefaults m"
  by (cases m) (simp add: withDefaults_def Let_def)

section \<open>Roles\<close>

lemma set_strings_of [simp]: "r \<in> set (strings_of xs) \<longleftrightarrow> AString r \<in> set xs"
  by (induction xs) (auto split: any.split)

lemma strings_of_map [simp]: "strings_of (map AString ss) = ss"
  by (induction ss) simp_all

lemma strings_of_filter: "map AString (strings_of xs) = filter (\<lambda>x. \<exists>s. x = AString s) xs"
  by (induction xs) (auto split: any.split)

text \<open>The role values a claim asserts, as a relation on its dynamic value.\<close>

inductive asserts_role :: "any \<Rightarrow> string \<Rightarrow> bool" where
  scalar: "asserts_role (AString r) r"
| slice: "r \<in> set rs \<Longrightarrow> asserts_role (AStrings (Some rs)) r"
| array: "AString r \<in> set xs \<Longrightarrow> asserts_role (AArray (Some xs)) r"

inductive_simps asserts_role_simps [simp]:
  "asserts_role (AString s) r"
  "asserts_role (AStrings rs) r"
  "asserts_role (AArray xs) r"
  "asserts_role ANil r"
  "asserts_role (ABool b) r"
  "asserts_role (ANumber n) r"
  "asserts_role (AObject ms) r"
  "asserts_role (ATime t) r"

lemma stringsFrom_asserts: "r \<in> set (elems (stringsFrom v)) \<longleftrightarrow> asserts_role v r"
  by (cases v) (auto simp: stringsFrom_def elems_def split: option.splits)

text \<open>C20: the caller holds a role exactly when the configured claim asserts it: as a string, in
  a string slice, or as a string element of a decoded array. No other shape grants anything.\<close>

theorem mapped_role_iff:
  "HasRole (mapper_identity m token raw) r \<longleftrightarrow>
     (\<exists>v. tok_Field token (RolesClaim (withDefaults m)) = Some v \<and> asserts_role v r)"
  by (simp add: HasRole_iff mapper_identity_def Let_def claimValues_def stringsFrom_asserts
      split: option.split)

text \<open>A decoded array keeps its strings in order and drops every other element, so the three
  shapes a provider may use for the same roles normalise to the same slice.\<close>

lemma stringsFrom_shapes:
  "stringsFrom (AArray (Some xs)) = Some (strings_of xs) \<and>
   map AString (strings_of xs) = filter (\<lambda>x. \<exists>s. x = AString s) xs \<and>
   stringsFrom (AArray (Some (map AString rs))) = stringsFrom (AStrings (Some rs)) \<and>
   stringsFrom (AString r) = stringsFrom (AArray (Some [AString r]))"
  by (simp add: stringsFrom_def strings_of_filter)

section \<open>The claims map\<close>

lemma add_claims_eq:
  "add_claims token keys out k =
     (if k \<in> set keys \<and> tok_Field token k \<noteq> None then tok_Field token k else out k)"
  by (induction keys arbitrary: out) (auto split: option.split)

text \<open>The claims map holds exactly the token's listed claims with the values the token
  reports; a token without keys has a nil map.\<close>

lemma claimsMap_complete:
  "(claimsMap token = None \<longleftrightarrow> tok_Keys token = []) \<and>
   (\<forall>m. claimsMap token = Some m \<longrightarrow>
      (\<forall>k. m k = (if k \<in> set (tok_Keys token) then tok_Field token k else None)))"
  by (auto simp: claimsMap_def Let_def add_claims_eq)

lemma claimsMap_complete_witness:
  "\<exists>m. claimsMap \<lparr>tok_Subject = None, tok_Keys = [''sub''],
     tok_Field = [''sub'' \<mapsto> AString ''u-1''], tok_Issuer = None, tok_Audience = [],
     tok_Expiration = None\<rparr> = Some m \<and> m ''sub'' = Some (AString ''u-1'')"
    (is "\<exists>m. claimsMap ?t = Some m \<and> _ m")
proof -
  obtain m where "claimsMap ?t = Some m"
    by (simp add: claimsMap_def)
  moreover from this have "m ''sub'' = Some (AString ''u-1'')"
    using claimsMap_complete [of ?t] by simp
  ultimately show ?thesis by blast
qed

lemma mapper_identity_sel [simp]:
  "Subject (mapper_identity m token raw) = subject_of token"
  "Token (mapper_identity m token raw) = raw"
  "Name (mapper_identity m token raw) = stringClaim token (NameClaim (withDefaults m))"
  "Email (mapper_identity m token raw) = stringClaim token (EmailClaim (withDefaults m))"
  "Roles (mapper_identity m token raw) = claimValues token (RolesClaim (withDefaults m))"
  "Claims (mapper_identity m token raw) = claimsMap token"
  by (simp_all add: mapper_identity_def Let_def)

end
