(* ===== verification/Go_Json.thy ===== *)
theory Go_Json
  imports Go_Net
begin

text \<open>
  What the repository uses of \<open>encoding/json\<close>: a \<open>Decoder\<close> reading the first JSON value of
  a body and storing it into a struct whose fields are strings. Strings are unquoted as Go does
  it (escapes, surrogate pairs, invalid UTF-8 coerced to U+FFFD), nesting is bounded as the
  scanner bounds it, and the value is followed by whatever the stream holds next.
\<close>

datatype json =
    JNull
  | JBool bool
  | JNum string
  | JStr string
  | JArr "json list"
  | JObj "(string \<times> json) list"

section \<open>Tokens\<close>

definition is_ws :: "char \<Rightarrow> bool" where
  "is_ws c \<longleftrightarrow> c = CHR '' '' \<or> c = CHR 0x09 \<or> c = CHR 0x0A \<or> c = CHR 0x0D"

definition skip_ws :: "string \<Rightarrow> string" where
  "skip_ws s = dropWhile is_ws s"

text \<open>The rest of the input behind white space and the byte \<open>c\<close>.\<close>

definition expect :: "char \<Rightarrow> string \<Rightarrow> string option" where
  "expect c s = (case skip_ws s of [] \<Rightarrow> None | d # t \<Rightarrow> if d = c then Some t else None)"

definition is_digit :: "char \<Rightarrow> bool" where
  "is_digit c \<longleftrightarrow> 48 \<le> (of_char c :: nat) \<and> of_char c \<le> (57 :: nat)"

definition digits1 :: "string \<Rightarrow> (string \<times> string) option" where
  "digits1 s =
     (if takeWhile is_digit s = [] then None
      else Some (takeWhile is_digit s, dropWhile is_digit s))"

text \<open>An optional sign, an integer without leading zeros, a fraction, an exponent.\<close>

definition number_int :: "string \<Rightarrow> (string \<times> string) option" where
  "number_int s =
     (case s of [] \<Rightarrow> None | c # t \<Rightarrow> if c = CHR ''0'' then Some ([c], t) else digits1 s)"

definition number_frac :: "string \<Rightarrow> (string \<times> string) option" where
  "number_frac s =
     (case s of [] \<Rightarrow> Some ([], []) | c # t \<Rightarrow>
        if c = CHR ''.'' then map_option (\<lambda>(d, u). (c # d, u)) (digits1 t) else Some ([], s))"

definition number_exp :: "string \<Rightarrow> (string \<times> string) option" where
  "number_exp s =
     (case s of [] \<Rightarrow> Some ([], []) | c # t \<Rightarrow>
        if c = CHR ''e'' \<or> c = CHR ''E'' then
          (case t of
             g # u \<Rightarrow>
               if g = CHR ''+'' \<or> g = CHR ''-''
               then map_option (\<lambda>(d, v). (c # g # d, v)) (digits1 u)
               else map_option (\<lambda>(d, v). (c # d, v)) (digits1 t)
           | [] \<Rightarrow> None)
        else Some ([], s))"

definition json_number :: "string \<Rightarrow> (string \<times> string) option" where
  "json_number s =
     (let (sign, s0) = (if take 1 s = ''-'' then (''-'', drop 1 s) else ([], s)) in
      Option.bind (number_int s0) (\<lambda>(i, s1).
      Option.bind (number_frac s1) (\<lambda>(f, s2).
      Option.bind (number_exp s2) (\<lambda>(e, s3).
      Some (sign @ i @ f @ e, s3)))))"

section \<open>Quoted strings\<close>

definition encode_rune :: "nat \<Rightarrow> string" where
  "encode_rune r =
     map char_of
       (if r < 128 then [r]
        else if r < 2048 then [192 + r div 64, 128 + r mod 64]
        else if r < 65536 then [224 + r div 4096, 128 + r div 64 mod 64, 128 + r mod 64]
        else [240 + r div 262144, 128 + r div 4096 mod 64, 128 + r div 64 mod 64, 128 + r mod 64])"

text \<open>\<open>getu4\<close>: the code unit of a leading \<open>\u\<close> escape.\<close>

definition getu4 :: "string \<Rightarrow> nat option" where
  "getu4 s =
     (case s of
        a # b # h1 # h2 # h3 # h4 # _ \<Rightarrow>
          if a = CHR 0x5C \<and> b = CHR ''u'' then
            (case (unhex h1, unhex h2, unhex h3, unhex h4) of
               (Some x1, Some x2, Some x3, Some x4) \<Rightarrow>
                 Some (((x1 * 16 + x2) * 16 + x3) * 16 + x4)
             | _ \<Rightarrow> None)
          else None
      | _ \<Rightarrow> None)"

definition is_surrogate :: "nat \<Rightarrow> bool" where
  "is_surrogate r \<longleftrightarrow> 55296 \<le> r \<and> r < 57344"

text \<open>The rune of a surrogate pair, \<open>None\<close> when the two units do not form one.\<close>

definition decode_pair :: "nat \<Rightarrow> nat option \<Rightarrow> nat option" where
  "decode_pair r1 u =
     (case u of None \<Rightarrow> None | Some r2 \<Rightarrow>
        if 55296 \<le> r1 \<and> r1 < 56320 \<and> 56320 \<le> r2 \<and> r2 < 57344
        then Some ((r1 - 55296) * 1024 + (r2 - 56320) + 65536) else None)"

definition simple_escape :: "char \<Rightarrow> char option" where
  "simple_escape c =
     map_of [(CHR 0x22, CHR 0x22), (CHR 0x5C, CHR 0x5C), (CHR ''/'', CHR ''/''),
             (CHR ''b'', CHR 0x08), (CHR ''f'', CHR 0x0C), (CHR ''n'', CHR 0x0A),
             (CHR ''r'', CHR 0x0D), (CHR ''t'', CHR 0x09)] c"

text \<open>
  One unquoting step on the input behind the opening quote: \<open>Some (Some (out, n))\<close> writes
  \<open>out\<close> and consumes \<open>n\<close> bytes, \<open>Some None\<close> is the closing quote, \<open>None\<close> an error.
\<close>

definition unquote_step :: "string \<Rightarrow> (string \<times> nat) option option" where
  "unquote_step s =
     (case s of [] \<Rightarrow> None | c # t \<Rightarrow>
        if c = CHR 0x22 then Some None
        else if c = CHR 0x5C then
          (case t of [] \<Rightarrow> None | e # _ \<Rightarrow>
             (case simple_escape e of
                Some d \<Rightarrow> Some (Some ([d], 2))
              | None \<Rightarrow>
                  (case getu4 s of None \<Rightarrow> None | Some r \<Rightarrow>
                     if is_surrogate r then
                       (case decode_pair r (getu4 (drop 6 s)) of
                          Some d \<Rightarrow> Some (Some (encode_rune d, 12))
                        | None \<Rightarrow> Some (Some (encode_rune rune_error, 6)))
                     else Some (Some (encode_rune r, 6)))))
        else if of_char c < (32 :: nat) then None
        else (let (r, n) = decode_rune s in Some (Some (encode_rune r, n))))"

lemma unquote_step_pos:
  assumes "unquote_step s = Some (Some (out, n))"
  shows "0 < n \<and> s \<noteq> []"
proof -
  from assms have "s \<noteq> []"
    by (auto simp: unquote_step_def)
  then have "0 < snd (decode_rune s)"
    by (rule decode_rune_pos)
  with assms show ?thesis
    by (auto simp: unquote_step_def split: list.splits if_splits option.splits prod.splits)
qed

function json_string :: "string \<Rightarrow> (string \<times> string) option" where
  "json_string s =
     (case unquote_step s of
        None \<Rightarrow> None
      | Some None \<Rightarrow> Some ([], drop 1 s)
      | Some (Some (out, n)) \<Rightarrow>
          map_option (\<lambda>(u, r). (out @ u, r)) (json_string (drop n s)))"
  by pat_completeness auto
termination
proof (relation "measure length", goal_cases)
  case (2 s p q out n)
  then have "unquote_step s = Some (Some (out, n))"
    by simp
  then have "0 < n \<and> s \<noteq> []"
    by (rule unquote_step_pos)
  then show ?case
    by (simp add: drop_less_length)
qed simp

declare json_string.simps [simp del]

section \<open>Values\<close>

definition max_nesting :: nat where
  "max_nesting = 10000"

text \<open>
  The recursive descent spends one unit of fuel per call; \<open>d\<close> counts the open arrays and
  objects.
\<close>

fun json_value :: "nat \<Rightarrow> nat \<Rightarrow> string \<Rightarrow> (json \<times> string) option"
  and json_elems :: "nat \<Rightarrow> nat \<Rightarrow> string \<Rightarrow> (json list \<times> string) option"
  and json_members :: "nat \<Rightarrow> nat \<Rightarrow> string \<Rightarrow> ((string \<times> json) list \<times> string) option" where
  "json_value 0 d s = None"
| "json_value (Suc f) d s =
     (case skip_ws s of [] \<Rightarrow> None | c # t \<Rightarrow>
        if c = CHR ''{'' then
          (if max_nesting \<le> d then None
           else case expect (CHR ''}'') t of
             Some u \<Rightarrow> Some (JObj [], u)
           | None \<Rightarrow> map_option (\<lambda>(ms, r). (JObj ms, r)) (json_members f (Suc d) t))
        else if c = CHR ''['' then
          (if max_nesting \<le> d then None
           else case expect (CHR '']'') t of
             Some u \<Rightarrow> Some (JArr [], u)
           | None \<Rightarrow> map_option (\<lambda>(xs, r). (JArr xs, r)) (json_elems f (Suc d) t))
        else if c = CHR 0x22 then map_option (\<lambda>(u, r). (JStr u, r)) (json_string t)
        else if has_prefix (c # t) ''true'' then Some (JBool True, drop 4 (c # t))
        else if has_prefix (c # t) ''false'' then Some (JBool False, drop 5 (c # t))
        else if has_prefix (c # t) ''null'' then Some (JNull, drop 4 (c # t))
        else map_option (\<lambda>(n, r). (JNum n, r)) (json_number (c # t)))"
| "json_elems 0 d s = None"
| "json_elems (Suc f) d s =
     (case json_value f d s of None \<Rightarrow> None | Some (x, t) \<Rightarrow>
        (case expect (CHR '','') t of
           Some u \<Rightarrow> map_option (\<lambda>(xs, r). (x # xs, r)) (json_elems f d u)
         | None \<Rightarrow> map_option (\<lambda>r. ([x], r)) (expect (CHR '']'') t)))"
| "json_members 0 d s = None"
| "json_members (Suc f) d s =
     (case Option.bind (expect (CHR 0x22) s) json_string of None \<Rightarrow> None | Some (k, t) \<Rightarrow>
        (case expect (CHR '':'') t of None \<Rightarrow> None | Some u \<Rightarrow>
           (case json_value f d u of None \<Rightarrow> None | Some (x, v) \<Rightarrow>
              (case expect (CHR '','') v of
                 Some w \<Rightarrow> map_option (\<lambda>(ms, r). ((k, x) # ms, r)) (json_members f d w)
               | None \<Rightarrow> map_option (\<lambda>r. ([(k, x)], r)) (expect (CHR ''}'') v)))))"

text \<open>\<open>json.NewDecoder(body).Decode\<close>, up to the value it reads.\<close>

definition json_fuel :: "string \<Rightarrow> nat" where
  "json_fuel s = Suc (2 * length s)"

definition json_decode :: "string \<Rightarrow> json option" where
  "json_decode s = map_option fst (json_value (json_fuel s) 0 s)"

section \<open>The fuel is enough\<close>

lemma skip_ws_length: "length (skip_ws s) \<le> length s"
  by (simp add: skip_ws_def length_dropWhile_le)

lemma expect_length: "expect c s = Some t \<Longrightarrow> length t < length s"
  using skip_ws_length [of s] by (auto simp: expect_def split: list.splits if_splits)

lemma digits1_length: "digits1 s = Some (d, t) \<Longrightarrow> length t < length s"
proof -
  assume "digits1 s = Some (d, t)"
  then have "takeWhile is_digit s \<noteq> []" and "t = dropWhile is_digit s"
    by (auto simp: digits1_def split: if_splits)
  then show ?thesis
    using takeWhile_dropWhile_id [of is_digit s]
    by (metis add_less_same_cancel2 length_append length_greater_0_conv less_add_same_cancel2)
qed

lemma number_int_length: "number_int s = Some (d, t) \<Longrightarrow> length t < length s"
  by (auto simp: number_int_def dest: digits1_length split: list.splits if_splits)

lemma number_frac_length: "number_frac s = Some (d, t) \<Longrightarrow> length t \<le> length s"
  by (auto simp: number_frac_def dest!: digits1_length split: list.splits if_splits)

lemma number_exp_length: "number_exp s = Some (d, t) \<Longrightarrow> length t \<le> length s"
  by (auto simp: number_exp_def dest!: digits1_length split: list.splits if_splits)

lemma json_number_length: "json_number s = Some (n, t) \<Longrightarrow> length t < length s"
  by (auto simp: json_number_def Let_def bind_eq_Some_conv split: if_splits
      dest!: number_int_length number_frac_length number_exp_length)

lemma json_string_length: "json_string s = Some (u, t) \<Longrightarrow> length t < length s"
proof (induction s arbitrary: u t rule: json_string.induct)
  case (1 s)
  show ?case
  proof (cases "unquote_step s")
    case None
    with "1.prems" show ?thesis by (simp add: json_string.simps [of s])
  next
    case (Some q)
    show ?thesis
    proof (cases q)
      case None
      with Some have "s \<noteq> []" by (auto simp: unquote_step_def)
      with "1.prems" Some None show ?thesis
        by (auto simp: json_string.simps [of s])
    next
      case (Some p)
      obtain out n where p: "p = (out, n)" by fastforce
      with \<open>unquote_step s = Some q\<close> Some have step: "unquote_step s = Some (Some (out, n))"
        by simp
      then obtain u' where "json_string (drop n s) = Some (u', t)"
        using "1.prems" by (auto simp: json_string.simps [of s])
      then have "length t < length (drop n s)"
        using "1.IH" \<open>unquote_step s = Some q\<close> Some p by blast
      then show ?thesis by simp
    qed
  qed
qed

lemma skip_ws_Cons_length: "skip_ws s = c # t \<Longrightarrow> length t < length s"
  using skip_ws_length [of s] by simp

lemma json_consumes:
  "json_value f d s = Some (v, t) \<Longrightarrow> length t < length s"
  "json_elems f d s = Some (xs, t) \<Longrightarrow> length t < length s"
  "json_members f d s = Some (ms, t) \<Longrightarrow> length t < length s"
proof (induction f d s and f d s and f d s arbitrary: v t and xs t and ms t
    rule: json_value_json_elems_json_members.induct)
  case (2 f d s)
  obtain c u where cu: "skip_ws s = c # u"
    using "2.prems" by (auto split: list.splits)
  then have u: "length u < length s"
    by (rule skip_ws_Cons_length)
  have "length t < Suc (length u)"
    using "2.prems" "2.IH" cu
    by (fastforce dest: expect_length json_string_length json_number_length
        split: if_splits option.splits)
  with u show ?case by simp
next
  case (4 f d s)
  from "4.prems" obtain x u where x: "json_value f d s = Some (x, u)"
    by (auto split: option.splits)
  then have "length u < length s"
    by (rule "4.IH")
  moreover have "length t < length u"
    using "4.prems" x "4.IH"(2) [OF x refl]
    by (fastforce dest: expect_length split: option.splits)
  ultimately show ?case by simp
next
  case (6 f d s)
  from "6.prems" obtain k q where k: "Option.bind (expect (CHR 0x22) s) json_string = Some (k, q)"
    by (auto split: option.splits)
  then have q: "length q < length s"
    by (auto simp: bind_eq_Some_conv dest!: expect_length json_string_length)
  from "6.prems" k obtain u where u: "expect (CHR '':'') q = Some u"
    by (auto split: option.splits)
  from "6.prems" k u obtain x v where x: "json_value f d u = Some (x, v)"
    by (auto split: option.splits)
  then have "length v < length u"
    using "6.IH"(1) k u by blast
  moreover have "length t < length v"
    using "6.prems" k u x "6.IH"(2) [OF k refl u x refl]
    by (fastforce dest: expect_length split: option.splits)
  ultimately show ?case
    using q expect_length [OF u] by simp
qed simp_all

text \<open>
  Any amount of fuel from \<open>json_fuel\<close> on gives the same answer: a failure of
  \<^const>\<open>json_decode\<close> is a syntax error of the input, never a shortage of fuel.
\<close>

lemma json_fuel_irrelevant:
  "(2 * length s + 1 \<le> f \<longrightarrow> 2 * length s + 1 \<le> g \<longrightarrow> json_value f d s = json_value g d s) \<and>
   (2 * length s + 2 \<le> f \<longrightarrow> 2 * length s + 2 \<le> g \<longrightarrow> json_elems f d s = json_elems g d s) \<and>
   (2 * length s + 1 \<le> f \<longrightarrow> 2 * length s + 1 \<le> g \<longrightarrow> json_members f d s = json_members g d s)"
proof (induction f arbitrary: g d s)
  case (Suc f)
  show ?case
  proof (cases g)
    case g: (Suc g')
    have value_IH: "json_value f d' u = json_value g' d' u"
      if "2 * length u + 1 \<le> f" "2 * length u + 1 \<le> g'" for d' u
      using Suc.IH that by blast
    have elems_IH: "json_elems f d' u = json_elems g' d' u"
      if "2 * length u + 2 \<le> f" "2 * length u + 2 \<le> g'" for d' u
      using Suc.IH that by blast
    have members_IH: "json_members f d' u = json_members g' d' u"
      if "2 * length u + 1 \<le> f" "2 * length u + 1 \<le> g'" for d' u
      using Suc.IH that by blast
    have "json_value (Suc f) d s = json_value (Suc g') d s"
      if "2 * length s + 1 \<le> Suc f" "2 * length s + 1 \<le> Suc g'"
    proof (cases "skip_ws s")
      case (Cons c t)
      then have "length t < length s" by (rule skip_ws_Cons_length)
      with that have "json_members f (Suc d) t = json_members g' (Suc d) t"
        and "json_elems f (Suc d) t = json_elems g' (Suc d) t"
        by (simp_all add: members_IH elems_IH)
      with Cons show ?thesis by (simp split: option.split)
    qed simp
    moreover have "json_elems (Suc f) d s = json_elems (Suc g') d s"
      if "2 * length s + 2 \<le> Suc f" "2 * length s + 2 \<le> Suc g'"
    proof (cases "json_value f d s")
      case None
      with that value_IH [of s d] show ?thesis by simp
    next
      case (Some p)
      obtain x t where p: "p = (x, t)" by fastforce
      with Some have t: "length t < length s"
        using json_consumes(1) by blast
      have "json_elems f d u = json_elems g' d u" if "expect (CHR '','') t = Some u" for u
        using expect_length [OF that] t \<open>2 * length s + 2 \<le> Suc f\<close> \<open>2 * length s + 2 \<le> Suc g'\<close>
        by (intro elems_IH) simp_all
      moreover have "json_value g' d s = Some (x, t)"
        using that value_IH [of s d] Some p by simp
      ultimately show ?thesis
        using Some p by (simp split: option.split)
    qed
    moreover have "json_members (Suc f) d s = json_members (Suc g') d s"
      if le: "2 * length s + 1 \<le> Suc f" "2 * length s + 1 \<le> Suc g'"
    proof -
      have V: "json_value f d u = json_value g' d u"
        if "Option.bind (expect (CHR 0x22) s) json_string = Some (k, t)"
          and "expect (CHR '':'') t = Some u" for k t u
        using that le
        by (intro value_IH) (auto simp: bind_eq_Some_conv dest!: expect_length json_string_length)
      have M: "json_members f d w = json_members g' d w"
        if "Option.bind (expect (CHR 0x22) s) json_string = Some (k, t)"
          and "expect (CHR '':'') t = Some u" and "json_value g' d u = Some (x, v)"
          and "expect (CHR '','') v = Some w" for k t u x v w
        using that le
        by (intro members_IH)
          (auto simp: bind_eq_Some_conv dest!: expect_length json_string_length json_consumes(1))
      show ?thesis
        by (auto split: option.split simp: V M)
    qed
    ultimately show ?thesis
      unfolding g by blast
  qed simp
qed simp

lemma json_decode_fuel:
  "json_fuel s \<le> f \<Longrightarrow> json_decode s = map_option fst (json_value f 0 s)"
  using json_fuel_irrelevant [of s "json_fuel s" f 0] by (simp add: json_decode_def json_fuel_def)

section \<open>Storing into a struct of strings\<close>

text \<open>
  Each incoming key selects the field of exactly that name, else the first field whose name it
  matches up to letter case; the last value for a field wins, \<open>null\<close> leaves it alone, and a
  value of another type makes \<open>Decode\<close> return an error. A field without a value is \<open>\"\"\<close>.
\<close>

definition match_field :: "string list \<Rightarrow> string \<Rightarrow> string option" where
  "match_field names key =
     (if key \<in> set names then Some key
      else find (\<lambda>n. equal_fold (\<lambda>_ _. False) key n) names)"

fun store_members :: "string list \<Rightarrow> (string \<times> json) list \<Rightarrow> (string \<Rightarrow> string) \<Rightarrow>
    (string \<Rightarrow> string) option" where
  "store_members names [] r = Some r"
| "store_members names ((k, v) # ms) r =
     (case match_field names k of
        None \<Rightarrow> store_members names ms r
      | Some n \<Rightarrow>
          (case v of
             JStr u \<Rightarrow> store_members names ms (r(n := u))
           | JNull \<Rightarrow> store_members names ms r
           | _ \<Rightarrow> None))"

definition decode_struct :: "string list \<Rightarrow> string \<Rightarrow> (string \<Rightarrow> string) option" where
  "decode_struct names body =
     (case json_decode body of
        Some JNull \<Rightarrow> Some (\<lambda>_. [])
      | Some (JObj ms) \<Rightarrow> store_members names ms (\<lambda>_. [])
      | _ \<Rightarrow> None)"

text \<open>Every field of a decoded struct is empty or a string the body holds under its name.\<close>

lemma match_field_Some:
  "match_field names k = Some n \<Longrightarrow> n \<in> set names \<and> (k = n \<or> equal_fold (\<lambda>_ _. False) k n)"
  by (auto simp: match_field_def find_Some_iff split: if_splits)

lemma store_members_field:
  "store_members names ms r = Some r' \<Longrightarrow>
     r' n = r n \<or> (\<exists>k. (k, JStr (r' n)) \<in> set ms \<and> match_field names k = Some n)"
proof (induction names ms r rule: store_members.induct)
  case (2 names k v ms r)
  show ?case
  proof (cases "match_field names k")
    case None
    with 2 show ?thesis by auto
  next
    case (Some m)
    with 2 show ?thesis
      by (cases v) (fastforce split: if_splits)+
  qed
qed simp

lemma decode_struct_field:
  assumes "decode_struct names body = Some r" and "r n \<noteq> []"
  obtains ms k where "json_decode body = Some (JObj ms)" and "(k, JStr (r n)) \<in> set ms"
    and "match_field names k = Some n"
  using assms
  by (auto simp: decode_struct_def split: option.splits json.splits dest!: store_members_field)

text \<open>
  \<open>Decode\<close> on the body of a response. An object ends with its brace, so what the body does behind
  it is never read; of a \<open>null\<close> the decoder reads one byte more to see that it is over, and
  a body that fails right there makes it return that error.
\<close>

definition decode_body :: "string list \<Rightarrow> http_response \<Rightarrow> (string \<Rightarrow> string) option" where
  "decode_body names resp =
     (if body_fails resp \<and> json_value (json_fuel (body_bytes resp)) 0 (body_bytes resp) = Some (JNull, [])
      then None else decode_struct names (body_bytes resp))"

lemma decode_body_struct: "decode_body names resp = Some r \<Longrightarrow> decode_struct names (body_bytes resp) = Some r"
  by (simp add: decode_body_def split: if_splits)

lemma decode_body_complete [simp]:
  "\<not> body_fails resp \<Longrightarrow> decode_body names resp = decode_struct names (body_bytes resp)"
  by (simp add: decode_body_def)

lemma decode_body_field:
  assumes "r n \<noteq> []"
  shows "decode_body names resp = Some r \<longleftrightarrow> decode_struct names (body_bytes resp) = Some r"
  using assms by (auto simp: decode_body_def decode_struct_def json_decode_def)

text \<open>A string between quotation marks, for concrete bodies.\<close>

definition quoted :: "string \<Rightarrow> string" where
  "quoted s = [CHR 0x22] @ s @ [CHR 0x22]"

end
