(* ===== verification/Userinfo.thy ===== *)
theory Userinfo
  imports Claims Go_Json
begin

text \<open>
  \<open>userinfo.go\<close>: display claims from the provider's userinfo endpoint, cached per subject for
  an hour. The cache is shared by concurrent requests under a mutex that is held for the lookup
  and for the store but not over the network call between them, so beside the sequential
  \<open>fill\<close> there is the step relation \<open>fill_step\<close> in which any number of calls interleave at
  exactly these points. The cache itself is an instance of the locale \<open>ttl_cache\<close>.
\<close>

section \<open>State\<close>

record userinfoEntry =
  ui_name :: string
  ui_email :: string
  ui_fetchedAt :: int

type_synonym ui_cache = "string \<Rightarrow> userinfoEntry option"

text \<open>What an operation does besides returning: requests to the endpoint and log lines.\<close>

datatype log_event =
    TokenRejected string
  | IdCookieRejected string
  | UserinfoRequestFailed
  | UserinfoRefused nat
  | UserinfoUndecodable

datatype effect =
    UserinfoGet string string
  | Log log_event

text \<open>The shared state: the cache, and the effects so far in the order they happened.\<close>

record ui_state =
  cache :: ui_cache
  trace :: "effect list"

definition emit :: "effect list \<Rightarrow> ui_state \<Rightarrow> ui_state" where
  "emit es st = st\<lparr>trace := trace st @ es\<rparr>"

definition userinfoTTL :: int where
  "userinfoTTL = Hour"

section \<open>Operations\<close>

text \<open>The endpoint: the URI and the Authorization value of a request determine its outcome.\<close>

type_synonym userinfo_net = "string \<Rightarrow> string \<Rightarrow> get_outcome"

definition userinfo_fields :: "string list" where
  "userinfo_fields = [''sub'', ''name'', ''email'']"

text \<open>The lookup under the lock, at the time \<open>now\<close> reads.\<close>

definition cached_entry :: "ui_cache \<Rightarrow> string \<Rightarrow> int \<Rightarrow> userinfoEntry option" where
  "cached_entry c subject now =
     (case c subject of
        Some e \<Rightarrow> if time_sub now (ui_fetchedAt e) < userinfoTTL then Some e else None
      | None \<Rightarrow> None)"

text \<open>The store under the lock.\<close>

definition store_entry :: "ui_cache \<Rightarrow> string \<Rightarrow> string \<times> string \<Rightarrow> int \<Rightarrow> ui_cache" where
  "store_entry c subject ne now =
     c(subject \<mapsto> \<lparr>ui_name = fst ne, ui_email = snd ne, ui_fetchedAt = now\<rparr>)"

text \<open>
  The network call between the two: no request can be built, a failure with its log line, or a
  decoded answer of some subject.
\<close>

datatype ui_answer =
    NoRequest
  | AskFailed log_event
  | Answer string string string

definition ask_userinfo :: "string \<Rightarrow> userinfo_net \<Rightarrow> string \<Rightarrow> ui_answer" where
  "ask_userinfo uri net accessToken =
     (case net uri (''Bearer '' @ accessToken) of
        CannotBuild \<Rightarrow> NoRequest
      | TransportError \<Rightarrow> AskFailed UserinfoRequestFailed
      | Response resp \<Rightarrow>
          if StatusCode resp \<noteq> StatusOK then AskFailed (UserinfoRefused (StatusCode resp))
          else case decode_body userinfo_fields resp of
            None \<Rightarrow> AskFailed UserinfoUndecodable
          | Some body \<Rightarrow> Answer (body ''sub'') (body ''name'') (body ''email''))"

definition set_display :: "identity \<Rightarrow> string \<Rightarrow> string \<Rightarrow> identity" where
  "set_display i name email = i\<lparr>Name := name, Email := email\<rparr>"

text \<open>
  \<open>fill\<close>: \<open>t_check\<close> and \<open>t_store\<close> are the two readings of the clock. The identity the Go
  code changes through its pointer is returned.
\<close>

definition fill ::
    "string \<Rightarrow> userinfo_net \<Rightarrow> int \<Rightarrow> int \<Rightarrow> string \<Rightarrow> identity \<Rightarrow> ui_state \<Rightarrow> identity \<times> ui_state" where
  "fill uri net t_check t_store accessToken i st =
     (case cached_entry (cache st) (Subject i) t_check of
        Some e \<Rightarrow> (set_display i (ui_name e) (ui_email e), st)
      | None \<Rightarrow>
          let asked = UserinfoGet uri (''Bearer '' @ accessToken) in
          case ask_userinfo uri net accessToken of
            NoRequest \<Rightarrow> (i, st)
          | AskFailed l \<Rightarrow> (i, emit [asked, Log l] st)
          | Answer sub name email \<Rightarrow>
              if sub \<noteq> Subject i then (i, emit [asked] st)
              else (set_display i name email,
                    emit [asked] (st\<lparr>cache := store_entry (cache st) (Subject i) (name, email) t_store\<rparr>)))"

section \<open>A cache with a time to live\<close>

locale ttl_cache =
  fixes lookup :: "'c \<Rightarrow> 'k \<Rightarrow> int \<Rightarrow> 'e option"
    and store :: "'c \<Rightarrow> 'k \<Rightarrow> 'v \<Rightarrow> int \<Rightarrow> 'c"
    and val :: "'e \<Rightarrow> 'v"
    and ttl :: int
  assumes fresh: "t' - t < ttl \<Longrightarrow> map_option val (lookup (store c k v t) k t') = Some v"
    and stale: "ttl \<le> t' - t \<Longrightarrow> lookup (store c k v t) k t' = None"
    and other: "k' \<noteq> k \<Longrightarrow> lookup (store c k v t) k' t' = lookup c k' t'"
begin

definition store_all :: "('k \<times> 'v \<times> int) list \<Rightarrow> 'c \<Rightarrow> 'c" where
  "store_all ops c = fold (\<lambda>(k, v, t) c. store c k v t) ops c"

text \<open>After any stores, a lookup finds the last one for its key while that is fresh.\<close>

lemma lookup_store_all:
  assumes "\<forall>op \<in> set later. fst op \<noteq> k"
  shows "map_option val (lookup (store_all (before @ (k, v, t) # later) c) k t') =
     (if t' - t < ttl then Some v else None)"
  using assms
proof (induction later rule: rev_induct)
  case Nil
  then show ?case
    by (simp add: store_all_def fresh stale)
next
  case (snoc op later)
  then show ?case
    by (cases op) (auto simp: store_all_def other)
qed

end

lemma cached_entry_store:
  "cached_entry (store_entry c k v t) k' t' =
     (if k' \<noteq> k then cached_entry c k' t'
      else if t' - t < userinfoTTL
      then Some \<lparr>ui_name = fst v, ui_email = snd v, ui_fetchedAt = t\<rparr> else None)"
  by (auto simp: cached_entry_def store_entry_def userinfoTTL_def time_sub_hour)

interpretation ui: ttl_cache cached_entry store_entry "\<lambda>e. (ui_name e, ui_email e)" userinfoTTL
  by unfold_locales (simp_all add: cached_entry_store)

section \<open>The sequential call\<close>

lemma set_display_frame [display, simp]:
  "Subject (set_display i n e) = Subject i"
  "Roles (set_display i n e) = Roles i"
  "Token (set_display i n e) = Token i"
  "Claims (set_display i n e) = Claims i"
  "Name (set_display i n e) = n"
  "Email (set_display i n e) = e"
  by (simp_all add: set_display_def)

text \<open>The fields an authorization decision reads, which no fallback may touch.\<close>

definition same_authorization :: "identity \<Rightarrow> identity \<Rightarrow> bool" where
  "same_authorization i j \<longleftrightarrow>
     Subject i = Subject j \<and> Roles i = Roles j \<and> Token i = Token j \<and> Claims i = Claims j"

lemma same_authorization_simps [simp, display]:
  "same_authorization i i"
  "same_authorization (set_display i n e) j \<longleftrightarrow> same_authorization i j"
  by (simp_all add: same_authorization_def)

lemma fill_frame [display]: "same_authorization (fst (fill uri net t1 t2 tok i st)) i"
  by (auto simp: fill_def Let_def split: option.split ui_answer.split)

text \<open>A call to \<open>fill\<close> changes nothing but the two display fields, and what it puts there is
  a cached answer younger than an hour for this very subject or the endpoint's present answer
  about this very subject.\<close>

lemma fill_sound:
  "case fill uri net t1 t2 tok i st of (j, st') \<Rightarrow>
     same_authorization j i \<and>
     (j = i \<or>
      (\<exists>e. cache st (Subject i) = Some e \<and> t1 - ui_fetchedAt e < Hour \<and>
         j = set_display i (ui_name e) (ui_email e) \<and> st' = st) \<or>
      (\<exists>n m. ask_userinfo uri net tok = Answer (Subject i) n m \<and> j = set_display i n m))"
  by (auto simp: fill_def Let_def cached_entry_def userinfoTTL_def time_sub_hour
      split: option.split ui_answer.split if_splits)

text \<open>An answer about somebody else is neither displayed nor cached.\<close>

lemma fill_foreign_answer:
  assumes "ask_userinfo uri net tok = Answer sub n m" and "sub \<noteq> Subject i"
    and "cached_entry (cache st) (Subject i) t1 = None"
  shows "fst (fill uri net t1 t2 tok i st) = i \<and>
     cache (snd (fill uri net t1 t2 tok i st)) = cache st"
  using assms by (simp add: fill_def Let_def emit_def)

text \<open>After an answer was stored, every call for that subject within the hour displays it
  and sends no request, whatever the endpoint would answer by then.\<close>

lemma fill_cached_hour:
  assumes "ask_userinfo uri net tok = Answer (Subject i) n m"
    and "cached_entry (cache st) (Subject i) t1 = None"
    and "Subject j = Subject i" and "t - t2 < Hour"
  shows "fill uri net' t t' tok' j (snd (fill uri net t1 t2 tok i st)) =
     (set_display j n m, snd (fill uri net t1 t2 tok i st))"
  using assms by (simp add: fill_def Let_def emit_def cached_entry_store userinfoTTL_def)

subsection \<open>An endpoint\<close>

definition example_userinfo :: string where
  "example_userinfo =
     ''{'' @ quoted ''sub'' @ '':'' @ quoted ''u'' @ '','' @ quoted ''name'' @ '':'' @ quoted ''A'' @ ''}''"

definition example_net :: userinfo_net where
  "example_net uri auth =
     Response \<lparr>StatusCode = 200, body_bytes = example_userinfo, body_fails = False\<rparr>"

lemma example_userinfo_decoded:
  "json_decode example_userinfo = Some (JObj [(''sub'', JStr ''u''), (''name'', JStr ''A'')])"
  by code_simp

lemma example_answer: "ask_userinfo uri example_net tok = Answer ''u'' ''A'' []"
  by (simp add: ask_userinfo_def example_net_def StatusOK_def decode_struct_def
      example_userinfo_decoded match_field_def userinfo_fields_def)

definition caller :: "string \<Rightarrow> identity" where
  "caller subject = zero_identity\<lparr>Subject := subject\<rparr>"

lemma caller_sel [simp]: "Subject (caller s) = s"
  by (simp add: caller_def)

lemma fill_foreign_answer_witness:
  "fst (fill ''https://i/u'' example_net 0 1 ''t'' (caller ''v'') \<lparr>cache = (\<lambda>_. None), trace = []\<rparr>) =
     caller ''v''"
  using fill_foreign_answer [OF example_answer, of "caller ''v''"
      "\<lparr>cache = (\<lambda>_. None), trace = []\<rparr>" 0]
  by (simp add: cached_entry_def)

lemma fill_cached_hour_witness:
  "fst (fill ''https://i/u'' (\<lambda>_ _. TransportError) 60 61 ''t'' (caller ''u'')
     (snd (fill ''https://i/u'' example_net 0 1 ''t'' (caller ''u'') \<lparr>cache = (\<lambda>_. None), trace = []\<rparr>))) =
   set_display (caller ''u'') ''A'' []"
  by (subst fill_cached_hour [where n = "''A''" and m = "[]"])
    (simp_all add: example_answer cached_entry_def Hour_def)

section \<open>Concurrent calls\<close>

text \<open>
  Where a call stands: before the lookup, between the two critical sections, about to store its
  own subject's answer, or returned. \<open>Returned i j\<close> was called with \<open>i\<close> and left \<open>j\<close>.
\<close>

datatype fill_pc =
    Looking identity string
  | Asking identity string
  | Storing identity string string
  | Returned identity identity

text \<open>
  The system: the shared cache, the calls in flight, and as a history variable every answer the
  endpoint has given: the token it was asked with, the subject it answered for, name and email.
\<close>

record fill_sys =
  sys_cache :: ui_cache
  sys_calls :: "nat \<Rightarrow> fill_pc option"
  sys_answers :: "(string \<times> string \<times> string \<times> string) set"

abbreviation goto :: "fill_sys \<Rightarrow> nat \<Rightarrow> fill_pc \<Rightarrow> fill_sys" where
  "goto s k pc \<equiv> s\<lparr>sys_calls := (sys_calls s)(k \<mapsto> pc)\<rparr>"

definition answered :: "string \<Rightarrow> string \<Rightarrow> string \<Rightarrow> string \<Rightarrow> fill_sys \<Rightarrow> fill_sys" where
  "answered tok sub n m s = s\<lparr>sys_answers := insert (tok, sub, n, m) (sys_answers s)\<rparr>"

text \<open>
  A step names what it meets of the outside: the endpoint \<open>net\<close> as it is at this step, and the
  time \<open>t\<close> a reading of the clock gives in it. Both may differ from step to step.
\<close>

inductive fill_step :: "string \<Rightarrow> userinfo_net \<Rightarrow> int \<Rightarrow> fill_sys \<Rightarrow> fill_sys \<Rightarrow> bool" for uri net t where
  enter: "sys_calls s k = None \<Longrightarrow> fill_step uri net t s (goto s k (Looking i tok))"
| hit: "sys_calls s k = Some (Looking i tok) \<Longrightarrow>
     cached_entry (sys_cache s) (Subject i) t = Some e \<Longrightarrow>
     fill_step uri net t s (goto s k (Returned i (set_display i (ui_name e) (ui_email e))))"
| miss: "sys_calls s k = Some (Looking i tok) \<Longrightarrow>
     cached_entry (sys_cache s) (Subject i) t = None \<Longrightarrow>
     fill_step uri net t s (goto s k (Asking i tok))"
| no_request: "sys_calls s k = Some (Asking i tok) \<Longrightarrow> ask_userinfo uri net tok = NoRequest \<Longrightarrow>
     fill_step uri net t s (goto s k (Returned i i))"
| ask_failed: "sys_calls s k = Some (Asking i tok) \<Longrightarrow> ask_userinfo uri net tok = AskFailed l \<Longrightarrow>
     fill_step uri net t s (goto s k (Returned i i))"
| foreign: "sys_calls s k = Some (Asking i tok) \<Longrightarrow> ask_userinfo uri net tok = Answer sub n m \<Longrightarrow>
     sub \<noteq> Subject i \<Longrightarrow>
     fill_step uri net t s (goto (answered tok sub n m s) k (Returned i i))"
| own: "sys_calls s k = Some (Asking i tok) \<Longrightarrow> ask_userinfo uri net tok = Answer sub n m \<Longrightarrow>
     sub = Subject i \<Longrightarrow>
     fill_step uri net t s (goto (answered tok sub n m s) k (Storing i n m))"
| store: "sys_calls s k = Some (Storing i n m) \<Longrightarrow>
     fill_step uri net t s (goto (s\<lparr>sys_cache := store_entry (sys_cache s) (Subject i) (n, m) t\<rparr>) k
       (Returned i (set_display i n m)))"

definition fill_init :: fill_sys where
  "fill_init = \<lparr>sys_cache = (\<lambda>_. None), sys_calls = (\<lambda>_. None), sys_answers = {}\<rparr>"

inductive fill_reachable :: "string \<Rightarrow> fill_sys \<Rightarrow> bool" for uri where
  init: "fill_reachable uri fill_init"
| step: "fill_reachable uri s \<Longrightarrow> fill_step uri net t s s' \<Longrightarrow> fill_reachable uri s'"

text \<open>Any number of steps, whatever each meets.\<close>

abbreviation fill_steps :: "string \<Rightarrow> fill_sys \<Rightarrow> fill_sys \<Rightarrow> bool" where
  "fill_steps uri \<equiv> (\<lambda>s s'. \<exists>net t. fill_step uri net t s s')\<^sup>*\<^sup>*"

text \<open>What the endpoint said about a subject, and the invariant of the interleaved system.\<close>

definition said_of :: "fill_sys \<Rightarrow> string \<Rightarrow> string \<Rightarrow> string \<Rightarrow> bool" where
  "said_of s subject n m \<longleftrightarrow> (\<exists>tok. (tok, subject, n, m) \<in> sys_answers s)"

fun call_ok :: "fill_sys \<Rightarrow> fill_pc \<Rightarrow> bool" where
  "call_ok s (Looking i tok) = True"
| "call_ok s (Asking i tok) = True"
| "call_ok s (Storing i n m) = said_of s (Subject i) n m"
| "call_ok s (Returned i j) =
     (same_authorization j i \<and> (j = i \<or> said_of s (Subject i) (Name j) (Email j)))"

definition fill_inv :: "fill_sys \<Rightarrow> bool" where
  "fill_inv s \<longleftrightarrow>
     (\<forall>subject e. sys_cache s subject = Some e \<longrightarrow> said_of s subject (ui_name e) (ui_email e)) \<and>
     (\<forall>k pc. sys_calls s k = Some pc \<longrightarrow> call_ok s pc)"

lemma said_of_answered [simp]:
  "said_of (answered tok sub n m s) subject n' m' \<longleftrightarrow>
     said_of s subject n' m' \<or> (subject = sub \<and> n' = n \<and> m' = m)"
  by (auto simp: said_of_def answered_def)

lemma said_of_frame [simp]:
  "said_of (s\<lparr>sys_calls := c\<rparr>) = said_of s"
  "said_of (s\<lparr>sys_cache := d\<rparr>) = said_of s"
  by (simp_all add: said_of_def fun_eq_iff)

lemma answered_sel [simp]:
  "sys_cache (answered tok sub n m s) = sys_cache s"
  "sys_calls (answered tok sub n m s) = sys_calls s"
  by (simp_all add: answered_def)

lemma call_ok_mono:
  "call_ok s pc \<Longrightarrow> (\<And>a b c. said_of s a b c \<Longrightarrow> said_of s' a b c) \<Longrightarrow> call_ok s' pc"
  by (cases pc) auto

lemma fill_inv_goto:
  assumes "fill_inv s" and "\<And>a b c. said_of s a b c \<Longrightarrow> said_of s' a b c"
    and "sys_calls s' = sys_calls s"
    and "\<And>subject e. sys_cache s' subject = Some e \<Longrightarrow> said_of s' subject (ui_name e) (ui_email e)"
    and "call_ok s' pc"
  shows "fill_inv (goto s' k pc)"
proof -
  have ok: "call_ok (goto s' k pc) pc' \<longleftrightarrow> call_ok s' pc'" for pc'
    by (cases pc') simp_all
  have "call_ok s' pc'" if "sys_calls s k' = Some pc'" for k' pc'
    using assms(1,2) that call_ok_mono unfolding fill_inv_def by blast
  with assms(3-5) show ?thesis
    unfolding fill_inv_def ok by auto
qed

lemma fill_step_inv: "fill_step uri net t s s' \<Longrightarrow> fill_inv s \<Longrightarrow> fill_inv s'"
proof (induction rule: fill_step.induct)
  case (hit s k i tok e)
  then have "said_of s (Subject i) (ui_name e) (ui_email e)"
    by (auto simp: fill_inv_def cached_entry_def split: option.splits if_splits)
  with hit show ?case
    by (intro fill_inv_goto [of s]) (auto simp: fill_inv_def)
next
  case (store s k i n m)
  then have said: "said_of s (Subject i) n m"
    by (fastforce simp: fill_inv_def)
  with store show ?case
    by (intro fill_inv_goto [of s]) (auto simp: fill_inv_def store_entry_def split: if_splits)
qed (intro fill_inv_goto; auto simp: fill_inv_def)+

lemma fill_reachable_inv: "fill_reachable uri s \<Longrightarrow> fill_inv s"
proof (induction rule: fill_reachable.induct)
  case init
  show ?case by (simp add: fill_inv_def fill_init_def)
next
  case (step s net t s')
  then show ?case by (blast intro: fill_step_inv)
qed

text \<open>However calls interleave, a call returns its identity as it was or with a name and an
  email the endpoint gave in an answer about that very subject; and everything in the cache is
  such an answer.\<close>

lemma fill_concurrent_safety:
  assumes "fill_reachable uri s"
  shows "(sys_calls s k = Some (Returned i j) \<longrightarrow>
       same_authorization j i \<and> (j = i \<or> said_of s (Subject i) (Name j) (Email j))) \<and>
     (sys_cache s subject = Some e \<longrightarrow> said_of s subject (ui_name e) (ui_email e))"
  using fill_reachable_inv [OF assms] unfolding fill_inv_def by fastforce

subsection \<open>The sequential call is one interleaving\<close>

lemma fill_reachable_run:
  "fill_steps uri s s' \<Longrightarrow> fill_reachable uri s \<Longrightarrow> fill_reachable uri s'"
  by (induction rule: rtranclp_induct) (auto intro: fill_reachable.step)

lemma goto_sel [simp]:
  "sys_calls (goto s k pc) = (sys_calls s)(k \<mapsto> pc)"
  "sys_cache (goto s k pc) = sys_cache s"
  by simp_all

text \<open>A step of call \<open>k\<close>, which leaves every other call where it stands.\<close>

definition fill_move :: "string \<Rightarrow> nat \<Rightarrow> fill_sys \<Rightarrow> fill_sys \<Rightarrow> bool" where
  "fill_move uri k s s' \<longleftrightarrow>
     (\<exists>net t. fill_step uri net t s s') \<and> (\<exists>pc. sys_calls s' = (sys_calls s)(k \<mapsto> pc))"

lemma fill_moveI:
  "fill_step uri net t s (goto s' k pc) \<Longrightarrow> sys_calls s' = sys_calls s \<Longrightarrow> fill_move uri k s (goto s' k pc)"
  by (auto simp: fill_move_def)

lemma fill_move_run: "(fill_move uri k)\<^sup>*\<^sup>* s s' \<Longrightarrow> fill_steps uri s s'"
  by (erule rtranclp_mono [THEN predicate2D, rotated]) (auto simp: fill_move_def)

lemma fill_ask_run:
  assumes "sys_calls s k = Some (Asking i tok)" and "sys_cache s = cache st"
    and "cached_entry (cache st) (Subject i) t1 = None"
  shows "\<exists>s'. (fill_move uri k)\<^sup>*\<^sup>* s s' \<and>
     sys_calls s' = (sys_calls s)(k \<mapsto> Returned i (fst (fill uri net t1 t2 tok i st))) \<and>
     sys_cache s' = cache (snd (fill uri net t1 t2 tok i st))"
proof (cases "ask_userinfo uri net tok")
  case NoRequest
  with assms(2,3) show ?thesis
    by (intro exI [of _ "goto s k (Returned i i)"])
      (auto simp: fill_def Let_def intro: fill_moveI fill_step.no_request [OF assms(1) NoRequest])
next
  case (AskFailed l)
  with assms(2,3) show ?thesis
    by (intro exI [of _ "goto s k (Returned i i)"])
      (auto simp: fill_def Let_def emit_def intro: fill_moveI fill_step.ask_failed [OF assms(1) AskFailed])
next
  case (Answer sub n m)
  show ?thesis
  proof (cases "sub = Subject i")
    case False
    with assms(2,3) Answer show ?thesis
      by (intro exI [of _ "goto (answered tok sub n m s) k (Returned i i)"])
        (auto simp: fill_def Let_def emit_def
          intro: fill_moveI [OF fill_step.foreign [OF assms(1) Answer False], simplified])
  next
    case True
    let ?s1 = "goto (answered tok sub n m s) k (Storing i n m)"
    let ?s2 = "goto (?s1\<lparr>sys_cache := store_entry (sys_cache ?s1) (Subject i) (n, m) t2\<rparr>) k
      (Returned i (set_display i n m))"
    have "fill_move uri k s ?s1"
      by (rule fill_moveI [OF fill_step.own [OF assms(1) Answer True]]) simp
    moreover have "fill_move uri k ?s1 ?s2"
      by (rule fill_moveI [OF fill_step.store]) simp_all
    ultimately have "(fill_move uri k)\<^sup>*\<^sup>* s ?s2" by simp
    with True assms(2,3) Answer show ?thesis
      by (intro exI [of _ ?s2]) (simp add: fill_def Let_def emit_def)
  qed
qed

lemma fill_look_run:
  assumes "sys_calls s k = Some (Looking i tok)" and "sys_cache s = cache st"
  shows "\<exists>s'. (fill_move uri k)\<^sup>*\<^sup>* s s' \<and>
     sys_calls s' = (sys_calls s)(k \<mapsto> Returned i (fst (fill uri net t1 t2 tok i st))) \<and>
     sys_cache s' = cache (snd (fill uri net t1 t2 tok i st))"
proof (cases "cached_entry (cache st) (Subject i) t1")
  case (Some e)
  let ?s2 = "goto s k (Returned i (set_display i (ui_name e) (ui_email e)))"
  have "fill_move uri k s ?s2"
    using Some assms by (intro fill_moveI [OF fill_step.hit]) auto
  with Some assms(2) show ?thesis
    by (intro exI [of _ ?s2]) (auto simp: fill_def)
next
  case None
  let ?s2 = "goto s k (Asking i tok)"
  have "fill_move uri k s ?s2"
    using None assms by (intro fill_moveI [OF fill_step.miss]) auto
  moreover obtain s' where "(fill_move uri k)\<^sup>*\<^sup>* ?s2 s'"
    and "sys_calls s' = (sys_calls ?s2)(k \<mapsto> Returned i (fst (fill uri net t1 t2 tok i st)))"
    and "sys_cache s' = cache (snd (fill uri net t1 t2 tok i st))"
    using fill_ask_run [of ?s2 k i tok st t1 uri net t2] None assms(2) by auto
  ultimately show ?thesis
    by (intro exI [of _ s']) auto
qed

text \<open>The sequential \<open>fill\<close> is one run of the interleaved system: a call that nobody
  interrupts returns the identity and leaves the cache that \<open>fill\<close> computes, and no other call
  moves.\<close>

lemma fill_refines:
  assumes "sys_calls s k = None" and "sys_cache s = cache st"
  shows "\<exists>s'. fill_steps uri s s' \<and>
     sys_calls s' = (sys_calls s)(k \<mapsto> Returned i (fst (fill uri net t1 t2 tok i st))) \<and>
     sys_cache s' = cache (snd (fill uri net t1 t2 tok i st))"
proof -
  let ?s1 = "goto s k (Looking i tok)"
  have enter: "fill_step uri net t1 s ?s1"
    by (rule fill_step.enter [OF assms(1)])
  obtain s' where "(fill_move uri k)\<^sup>*\<^sup>* ?s1 s'"
    and "sys_calls s' = (sys_calls ?s1)(k \<mapsto> Returned i (fst (fill uri net t1 t2 tok i st)))"
    and "sys_cache s' = cache (snd (fill uri net t1 t2 tok i st))"
    using fill_look_run [of ?s1 k i tok st uri net t1 t2] assms(2) by auto
  with enter show ?thesis
    by (intro exI [of _ s']) (auto intro: converse_rtranclp_into_rtranclp fill_move_run)
qed

lemma example_fill:
  "fst (fill ''https://i/u'' example_net 0 1 ''t'' (caller ''u'') \<lparr>cache = (\<lambda>_. None), trace = []\<rparr>) =
     set_display (caller ''u'') ''A'' []"
  by (simp add: fill_def cached_entry_def example_answer)

lemma fill_refines_witness:
  "\<exists>s'. fill_steps ''https://i/u'' fill_init s' \<and>
     sys_calls s' 7 = Some (Returned (caller ''u'') (set_display (caller ''u'') ''A'' []))"
  using fill_refines [of fill_init 7 "\<lparr>cache = (\<lambda>_. None), trace = []\<rparr>" "''https://i/u''"
      "caller ''u''" example_net 0 1 "''t''"]
  by (auto simp: fill_init_def example_fill)

text \<open>A reachable state in which a call has displayed the endpoint's answer.\<close>

lemma example_reachable:
  "\<exists>s. fill_reachable ''https://i/u'' s \<and>
     sys_calls s 7 = Some (Returned (caller ''u'') (set_display (caller ''u'') ''A'' []))"
proof -
  let ?i = "caller ''u''"
  let ?st = "\<lparr>cache = (\<lambda>_. None), trace = []\<rparr>"
  define s1 where "s1 = goto fill_init 7 (Looking ?i ''t'')"
  define s2 where "s2 = goto s1 7 (Asking ?i ''t'')"
  have "fill_step ''https://i/u'' example_net 0 fill_init s1"
    unfolding s1_def by (rule fill_step.enter) (simp add: fill_init_def)
  moreover have "fill_step ''https://i/u'' example_net 0 s1 s2"
    unfolding s2_def by (rule fill_step.miss [of _ _ ?i])
      (simp_all add: s1_def fill_init_def cached_entry_def)
  ultimately have "fill_reachable ''https://i/u'' s2"
    by (blast intro: fill_reachable.intros)
  moreover obtain s' where "(fill_move ''https://i/u'' 7)\<^sup>*\<^sup>* s2 s'"
    and "sys_calls s' = (sys_calls s2)(7 \<mapsto> Returned ?i (fst (fill ''https://i/u'' example_net 0 1 ''t'' ?i ?st)))"
    using fill_ask_run [of s2 7 ?i "''t''" ?st 0 "''https://i/u''" example_net 1]
    by (auto simp: s2_def s1_def fill_init_def cached_entry_def)
  ultimately show ?thesis
    by (intro exI [of _ s']) (auto simp: example_fill intro: fill_reachable_run fill_move_run)
qed

lemma fill_concurrent_safety_witness:
  "\<exists>s. fill_reachable ''https://i/u'' s \<and> said_of s ''u'' ''A'' []"
proof -
  obtain s where s: "fill_reachable ''https://i/u'' s"
    and call: "sys_calls s 7 = Some (Returned (caller ''u'') (set_display (caller ''u'') ''A'' []))"
    using example_reachable by blast
  have "set_display (caller ''u'') ''A'' [] \<noteq> caller ''u''"
    by (auto simp: caller_def zero_identity_def set_display_def)
  with fill_concurrent_safety [OF s, of 7 "caller ''u''"] call
  have "said_of s ''u'' ''A'' []" by fastforce
  with s show ?thesis by blast
qed

end
