(* ===== verification/Key_Set.thy ===== *)
theory Key_Set
  imports Go_Net
begin

text \<open>
  \<open>keyset.go\<close>: the issuer's public keys and their background refresh. Keys belong to the JWK
  library: \<open>'ks\<close> is its type of key sets, \<open>jwk_parse\<close> its parser and \<open>jwk_len\<close> the number
  of keys of a set. The background goroutine is a loop over the events its \<open>select\<close> receives;
  a refresh that fails keeps the previous keys, and the interface of such a cell is the locale
  \<open>refreshing_cell\<close>.
\<close>

section \<open>State and operations\<close>

datatype keyset_error =
    KeysBuild string
  | KeysFetch string
  | KeysStatus string nat
  | KeysRead string
  | KeysParse string
  | KeysEmpty string

record 'ks keySet =
  ks_url :: string
  ks_keys :: "'ks option"

definition keySetMaxBytes :: nat where
  "keySetMaxBytes = 1048576"

text \<open>\<open>Set\<close>: the current keys, nil before the first refresh succeeds.\<close>

definition keySet_Set :: "'ks keySet \<Rightarrow> 'ks option" where
  "keySet_Set k = ks_keys k"

definition refresh ::
    "(string \<Rightarrow> 'ks option) \<Rightarrow> ('ks \<Rightarrow> nat) \<Rightarrow> (string \<Rightarrow> get_outcome) \<Rightarrow> 'ks keySet \<Rightarrow>
     keyset_error option \<times> 'ks keySet" where
  "refresh jwk_parse jwk_len get k =
     (case get (ks_url k) of
        CannotBuild \<Rightarrow> (Some (KeysBuild (ks_url k)), k)
      | TransportError \<Rightarrow> (Some (KeysFetch (ks_url k)), k)
      | Response resp \<Rightarrow>
          if StatusCode resp \<noteq> StatusOK
          then (Some (KeysStatus (ks_url k) (StatusCode resp)), k)
          else case read_limited keySetMaxBytes resp of
            None \<Rightarrow> (Some (KeysRead (ks_url k)), k)
          | Some body \<Rightarrow>
              (case jwk_parse body of
                 None \<Rightarrow> (Some (KeysParse (ks_url k)), k)
               | Some ks \<Rightarrow>
                   if jwk_len ks = 0 then (Some (KeysEmpty (ks_url k)), k)
                   else (None, k\<lparr>ks_keys := Some ks\<rparr>)))"

definition newKeySet ::
    "(string \<Rightarrow> 'ks option) \<Rightarrow> ('ks \<Rightarrow> nat) \<Rightarrow> (string \<Rightarrow> get_outcome) \<Rightarrow> string \<Rightarrow>
     (keyset_error, 'ks keySet) result" where
  "newKeySet jwk_parse jwk_len get url =
     (let ks = \<lparr>ks_url = url, ks_keys = None\<rparr> in
      case refresh jwk_parse jwk_len get ks of
        (Some err, _) \<Rightarrow> Inl err
      | (None, ks) \<Rightarrow> Inr ks)"

text \<open>
  What the loop's \<open>select\<close> receives: a tick, with the network as the refresh finds it, or the
  end of the context. The loop logs a failed refresh and goes on; it returns at \<open>Done\<close>. The
  result is the final state, the warnings logged, and whether the loop has returned.
\<close>

datatype loop_event = Tick "string \<Rightarrow> get_outcome" | Done

fun refreshLoop ::
    "(string \<Rightarrow> 'ks option) \<Rightarrow> ('ks \<Rightarrow> nat) \<Rightarrow> loop_event list \<Rightarrow> 'ks keySet \<Rightarrow>
     'ks keySet \<times> keyset_error list \<times> bool" where
  "refreshLoop jwk_parse jwk_len [] k = (k, [], False)"
| "refreshLoop jwk_parse jwk_len (Done # es) k = (k, [], True)"
| "refreshLoop jwk_parse jwk_len (Tick get # es) k =
     (case refresh jwk_parse jwk_len get k of
        (Some err, k') \<Rightarrow>
          (case refreshLoop jwk_parse jwk_len es k' of (k'', warns, fin) \<Rightarrow> (k'', err # warns, fin))
      | (None, k') \<Rightarrow> refreshLoop jwk_parse jwk_len es k')"

section \<open>A cell that keeps its value over failures\<close>

text \<open>
  \<open>step\<close> tries to replace the value; a failure leaves the cell as it was, and a success
  stores a good value.
\<close>

locale refreshing_cell =
  fixes step :: "'n \<Rightarrow> 'c \<Rightarrow> 'e option \<times> 'c"
    and good :: "'c \<Rightarrow> bool"
  assumes failure_keeps: "fst (step n c) \<noteq> None \<Longrightarrow> snd (step n c) = c"
    and success_good: "fst (step n c) = None \<Longrightarrow> good (snd (step n c))"
begin

text \<open>The cells reachable from one cell by any number of steps, with their outcomes.\<close>

inductive reaches :: "'c \<Rightarrow> 'c \<Rightarrow> bool" for c where
  start: "reaches c c"
| step: "reaches c d \<Longrightarrow> reaches c (snd (step n d))"

lemma good_step: "good c \<Longrightarrow> good (snd (step n c))"
  using failure_keeps success_good by metis

lemma good_reaches: "reaches c d \<Longrightarrow> good c \<Longrightarrow> good d"
  by (induction rule: reaches.induct) (auto intro: good_step)

end

section \<open>Refreshing\<close>

definition has_keys :: "('ks \<Rightarrow> nat) \<Rightarrow> 'ks keySet \<Rightarrow> bool" where
  "has_keys jwk_len k \<longleftrightarrow> (\<exists>ks. keySet_Set k = Some ks \<and> 0 < jwk_len ks)"

lemmas refresh_splits = get_outcome.splits option.splits if_splits

interpretation keys: refreshing_cell "refresh jwk_parse jwk_len" "has_keys jwk_len"
  for jwk_parse :: "string \<Rightarrow> 'ks option" and jwk_len
  by unfold_locales
    (auto simp: refresh_def has_keys_def keySet_Set_def split: refresh_splits)

lemma refresh_url: "refresh jwk_parse jwk_len get k = (e, k') \<Longrightarrow> ks_url k' = ks_url k"
  by (auto simp: refresh_def split: refresh_splits)

text \<open>C37: a refresh succeeds exactly on a 200 answer whose body, cut at 2^20 bytes and read
  without an error before that, parses to a non-empty key set, which it then adopts; every
  failure leaves the key set as it was.\<close>

theorem refresh_spec:
  "(fst (refresh jwk_parse jwk_len get k) = None \<longleftrightarrow>
     (\<exists>resp ks. get (ks_url k) = Response resp \<and> StatusCode resp = 200 \<and>
        (body_fails resp \<longrightarrow> 1048576 \<le> length (body_bytes resp)) \<and>
        jwk_parse (take 1048576 (body_bytes resp)) = Some ks \<and> 0 < jwk_len ks \<and>
        snd (refresh jwk_parse jwk_len get k) = k\<lparr>ks_keys := Some ks\<rparr>)) \<and>
   (fst (refresh jwk_parse jwk_len get k) \<noteq> None \<longrightarrow> snd (refresh jwk_parse jwk_len get k) = k)"
  by (auto simp: refresh_def read_limited_def keySetMaxBytes_def StatusOK_def not_less
      split: refresh_splits)

theorem refresh_spec_witness:
  "snd (refresh (\<lambda>_. Some ''k'') length (\<lambda>_. TransportError) \<lparr>ks_url = ''u'', ks_keys = Some ''old''\<rparr>) =
     \<lparr>ks_url = ''u'', ks_keys = Some ''old''\<rparr>"
  by (rule refresh_spec [THEN conjunct2, THEN mp]) (simp add: refresh_def)

section \<open>Startup\<close>

text \<open>A key set is handed out only with at least one key in it; when the first fetch fails
  the constructor fails with that error and there is no key set.\<close>

lemma newKeySet_spec:
  "case newKeySet jwk_parse jwk_len get url of
     Inl err \<Rightarrow> fst (refresh jwk_parse jwk_len get \<lparr>ks_url = url, ks_keys = None\<rparr>) = Some err
   | Inr k \<Rightarrow> ks_url k = url \<and> has_keys jwk_len k \<and>
       (None, k) = refresh jwk_parse jwk_len get \<lparr>ks_url = url, ks_keys = None\<rparr>"
  using keys.success_good [of jwk_parse jwk_len get "\<lparr>ks_url = url, ks_keys = None\<rparr>"]
  by (auto simp: newKeySet_def split: prod.split option.split dest: refresh_url)

lemma newKeySet_ok:
  "newKeySet jwk_parse jwk_len get url = Inr k \<longleftrightarrow>
     (\<exists>resp body ks. get url = Response resp \<and> StatusCode resp = 200 \<and> read_limited 1048576 resp = Some body \<and>
        jwk_parse body = Some ks \<and> 0 < jwk_len ks \<and> k = \<lparr>ks_url = url, ks_keys = Some ks\<rparr>)"
  by (auto simp: newKeySet_def refresh_def keySetMaxBytes_def StatusOK_def Let_def split: refresh_splits)

lemma newKeySet_good:
  "newKeySet jwk_parse jwk_len get url = Inr k \<Longrightarrow> has_keys jwk_len k"
  using keys.success_good [of jwk_parse jwk_len get "\<lparr>ks_url = url, ks_keys = None\<rparr>"]
  by (auto simp: newKeySet_def split: prod.splits option.splits)

section \<open>The background loop\<close>

lemma refreshLoop_reaches: "keys.reaches jwk_parse jwk_len k (fst (refreshLoop jwk_parse jwk_len es k))"
proof -
  have "keys.reaches jwk_parse jwk_len c (fst (refreshLoop jwk_parse jwk_len es k))"
    if "keys.reaches jwk_parse jwk_len c k" for c
    using that
  proof (induction jwk_parse jwk_len es k rule: refreshLoop.induct)
    case (3 jwk_parse jwk_len get es k)
    show ?case
      using 3 keys.step [OF "3.prems", of get]
      by (cases "refresh jwk_parse jwk_len get k") (auto split: option.split prod.split)
  qed simp_all
  then show ?thesis
    by (simp add: keys.start)
qed

text \<open>C19: once the constructor has returned, the key set is never empty again, whatever the
  endpoint answers to any number of background refreshes.\<close>

theorem refreshLoop_keeps_keys:
  assumes "newKeySet jwk_parse jwk_len get url = Inr k"
  shows "has_keys jwk_len (fst (refreshLoop jwk_parse jwk_len es k))"
  using keys.good_reaches [OF refreshLoop_reaches newKeySet_good [OF assms]] .

theorem refreshLoop_keeps_keys_witness:
  "has_keys length (fst (refreshLoop Some length
     [Tick (\<lambda>_. TransportError), Tick (\<lambda>_. Response \<lparr>StatusCode = 500, body_bytes = [], body_fails = False\<rparr>)]
     \<lparr>ks_url = ''u'', ks_keys = Some ''k''\<rparr>))"
  by (rule refreshLoop_keeps_keys
      [of _ _ "\<lambda>_. Response \<lparr>StatusCode = 200, body_bytes = ''k'', body_fails = False\<rparr>" "''u''"])
    (simp add: newKeySet_def refresh_def StatusOK_def read_limited_def keySetMaxBytes_def)

text \<open>
  The reference for the loop: the set one answer offers, if it offers one, and the last set
  offered by the ticks before the context ended.
\<close>

definition offered :: "(string \<Rightarrow> 'ks option) \<Rightarrow> ('ks \<Rightarrow> nat) \<Rightarrow> get_outcome \<Rightarrow> 'ks option" where
  "offered jwk_parse jwk_len out =
     (case out of
        Response resp \<Rightarrow>
          if StatusCode resp = StatusOK then
            Option.bind (read_limited keySetMaxBytes resp)
              (\<lambda>b. Option.bind (jwk_parse b) (\<lambda>ks. if jwk_len ks = 0 then None else Some ks))
          else None
      | _ \<Rightarrow> None)"

definition is_tick :: "loop_event \<Rightarrow> bool" where
  "is_tick e \<longleftrightarrow> e \<noteq> Done"

fun tick_get :: "loop_event \<Rightarrow> string \<Rightarrow> get_outcome" where
  "tick_get (Tick get) = get"
| "tick_get Done = (\<lambda>_. CannotBuild)"

definition offers ::
    "(string \<Rightarrow> 'ks option) \<Rightarrow> ('ks \<Rightarrow> nat) \<Rightarrow> string \<Rightarrow> loop_event list \<Rightarrow> 'ks option list" where
  "offers jwk_parse jwk_len url es =
     map (\<lambda>e. offered jwk_parse jwk_len (tick_get e url)) (takeWhile is_tick es)"

lemma refresh_offered:
  "refresh jwk_parse jwk_len get k =
     (case offered jwk_parse jwk_len (get (ks_url k)) of
        Some ks \<Rightarrow> (None, k\<lparr>ks_keys := Some ks\<rparr>)
      | None \<Rightarrow> (fst (refresh jwk_parse jwk_len get k), k))"
  by (auto simp: refresh_def offered_def split: get_outcome.splits option.splits)

lemma refresh_fails_iff:
  "fst (refresh jwk_parse jwk_len get k) = None \<longleftrightarrow>
     offered jwk_parse jwk_len (get (ks_url k)) \<noteq> None"
  by (auto simp: refresh_def offered_def split: get_outcome.splits option.splits)

lemma refreshLoop_url: "ks_url (fst (refreshLoop jwk_parse jwk_len es k)) = ks_url k"
  by (induction jwk_parse jwk_len es k rule: refreshLoop.induct)
    (auto dest: refresh_url split: prod.splits option.splits)

lemma refreshLoop_snoc:
  "Done \<notin> set es \<Longrightarrow> fst (refreshLoop jwk_parse jwk_len (es @ [Tick get]) k) =
     snd (refresh jwk_parse jwk_len get (fst (refreshLoop jwk_parse jwk_len es k)))"
  by (induction jwk_parse jwk_len es k rule: refreshLoop.induct)
    (auto split: prod.splits option.splits)

lemma refreshLoop_adopts:
  assumes "Done \<notin> set es" and "offered jwk_parse jwk_len (get (ks_url k)) = Some ks"
  shows "keySet_Set (fst (refreshLoop jwk_parse jwk_len (es @ [Tick get]) k)) = Some ks"
  using assms refresh_offered [of jwk_parse jwk_len get "fst (refreshLoop jwk_parse jwk_len es k)"]
  by (simp add: refreshLoop_snoc refreshLoop_url keySet_Set_def)

text \<open>After the loop has received any events, the current set is the last one any answer
  offered before the context ended, or the initial one if none was; one warning is logged for
  each answer that offered none.\<close>

lemma refreshLoop_last_offer:
  "case refreshLoop jwk_parse jwk_len es k of (k', warns, fin) \<Rightarrow>
     keySet_Set k' = fold (\<lambda>off cur. if off = None then cur else off)
                       (offers jwk_parse jwk_len (ks_url k) es) (keySet_Set k) \<and>
     length warns = length (filter (\<lambda>off. off = None) (offers jwk_parse jwk_len (ks_url k) es)) \<and>
     (fin \<longleftrightarrow> Done \<in> set es)"
proof (induction jwk_parse jwk_len es k rule: refreshLoop.induct)
  case (3 jwk_parse jwk_len get es k)
  show ?case
  proof (cases "offered jwk_parse jwk_len (get (ks_url k))")
    case None
    then obtain err where err: "refresh jwk_parse jwk_len get k = (Some err, k)"
      using refresh_offered [of jwk_parse jwk_len get k]
        refresh_fails_iff [of jwk_parse jwk_len get k] by fastforce
    with "3.IH" None show ?thesis
      by (auto simp: offers_def is_tick_def split: prod.splits)
  next
    case (Some ks)
    then have ok: "refresh jwk_parse jwk_len get k = (None, k\<lparr>ks_keys := Some ks\<rparr>)"
      using refresh_offered [of jwk_parse jwk_len get k] by simp
    with "3.IH" Some show ?thesis
      by (auto simp: offers_def is_tick_def keySet_Set_def split: prod.splits)
  qed
qed (auto simp: offers_def is_tick_def)

text \<open>The loop stops at the end of its context: nothing received later changes the keys or
  is logged, and the goroutine has returned.\<close>

lemma refreshLoop_stops:
  "refreshLoop jwk_parse jwk_len (es @ Done # es') k = refreshLoop jwk_parse jwk_len (es @ [Done]) k \<and>
   snd (snd (refreshLoop jwk_parse jwk_len (es @ Done # es') k))"
  by (induction jwk_parse jwk_len es k rule: refreshLoop.induct)
    (auto split: prod.splits option.splits)

section \<open>The read is bounded\<close>

text \<open>Of an answer longer than 2^20 bytes nothing past that bound is read: whatever follows,
  and whether the connection breaks there, the refresh does the same.\<close>

lemma refresh_bounded_read:
  assumes "get (ks_url k) = Response resp" and "1048576 \<le> length (body_bytes resp)"
  shows "refresh P L (get(ks_url k := Response (resp\<lparr>
       body_bytes := take 1048576 (body_bytes resp) @ rest, body_fails := fails\<rparr>))) k =
     refresh P L get k"
  using assms by (simp add: refresh_def read_limited_def keySetMaxBytes_def)

lemma refresh_bounded_read_witness:
  "refresh (\<lambda>b. Some b) length (\<lambda>_. Response \<lparr>StatusCode = 200,
       body_bytes = replicate 1048576 CHR ''k'' @ ''rest'', body_fails = True\<rparr>)
     \<lparr>ks_url = ''u'', ks_keys = None\<rparr> =
   (None, \<lparr>ks_url = ''u'', ks_keys = Some (replicate 1048576 CHR ''k'')\<rparr>)"
proof -
  let ?resp = "\<lparr>StatusCode = 200, body_bytes = replicate 1048576 CHR ''k'', body_fails = False\<rparr>"
  let ?k = "\<lparr>ks_url = ''u'', ks_keys = None :: string option\<rparr>"
  have "refresh (\<lambda>b. Some b) length ((\<lambda>_. Response ?resp)(ks_url ?k := Response (?resp\<lparr>
       body_bytes := take 1048576 (body_bytes ?resp) @ ''rest'', body_fails := True\<rparr>))) ?k =
     refresh (\<lambda>b. Some b) length (\<lambda>_. Response ?resp) ?k"
    by (rule refresh_bounded_read) simp_all
  then show ?thesis
    by (simp add: refresh_def read_limited_def keySetMaxBytes_def StatusOK_def)
qed

end
