(* ===== verification/Verify.thy ===== *)
theory Verify
  imports Userinfo Key_Set
begin

text \<open>
  \<open>verify.go\<close>: the verifying authenticator, its display-claim fallbacks, and the header-trust
  authenticator. The JWT and JWK libraries and the Unicode folding table are the record
  \<open>library\<close>; what the code relies on of \<open>jwt.ParseString\<close> is the predicate
  \<open>jwt_contract\<close>. Both authenticators are interpretations of the locale \<open>authenticator\<close>.
\<close>

section \<open>Outside code and outside events\<close>

text \<open>The options \<open>parse\<close> hands to the library; a nil key set is \<open>None\<close>.\<close>

datatype 'ks parse_option =
    WithKeySet "'ks option"
  | WithValidate bool
  | WithIssuer string
  | WithAudience string

text \<open>
  The third-party functions the package calls. \<open>ParseString\<close> reads the clock, so its time is
  an argument; it returns a token or an error text.
\<close>

record 'ks library =
  lib_orbit :: "nat \<Rightarrow> nat \<Rightarrow> bool"
  lib_ParseString :: "'ks parse_option list \<Rightarrow> int \<Rightarrow> string \<Rightarrow> (string, jwt_token) result"
  lib_jwk_Parse :: "string \<Rightarrow> 'ks option"
  lib_jwk_Len :: "'ks \<Rightarrow> nat"

text \<open>
  What \<open>jwt.ParseString\<close> documents: a token is returned only if its signature verifies under
  the given key set and, with validation on, its expiry has not passed (by more than the second to
  which times may be truncated) and its issuer and audience are the demanded ones. \<open>signed ks raw token\<close> says that
  \<open>raw\<close> carries the claims of \<open>token\<close> under a signature by a key of \<open>ks\<close>.
\<close>

definition option_holds ::
    "('ks \<Rightarrow> string \<Rightarrow> jwt_token \<Rightarrow> bool) \<Rightarrow> int \<Rightarrow> string \<Rightarrow> jwt_token \<Rightarrow> 'ks parse_option \<Rightarrow> bool" where
  "option_holds signed now raw token opt =
     (case opt of
        WithKeySet ks \<Rightarrow> (case ks of Some k \<Rightarrow> signed k raw token | None \<Rightarrow> True)
      | WithValidate b \<Rightarrow>
          (case tok_Expiration token of Some t \<Rightarrow> b \<longrightarrow> now < t + 1000000000 | None \<Rightarrow> True)
      | WithIssuer iss \<Rightarrow> tok_Issuer token = Some iss
      | WithAudience aud \<Rightarrow> aud \<in> set (tok_Audience token))"

definition jwt_contract :: "'ks library \<Rightarrow> ('ks \<Rightarrow> string \<Rightarrow> jwt_token \<Rightarrow> bool) \<Rightarrow> bool" where
  "jwt_contract lib signed \<longleftrightarrow>
     (\<forall>opts now raw token. lib_ParseString lib opts now raw = Inr token \<longrightarrow>
        (\<forall>opt \<in> set opts. option_holds signed now raw token opt))"

text \<open>
  What happens outside during one call of \<open>Authenticate\<close>: the readings of the clock (for the
  access token, for the cookie, for the lookup and the store of the userinfo cache), what the
  key refresh loop receives between the two verifications, and the userinfo endpoint.
\<close>

record world =
  now_parse :: int
  now_cookie :: int
  now_check :: int
  now_store :: int
  between :: "loop_event list"
  endpoint :: userinfo_net

section \<open>State and operations\<close>

record verifier =
  v_source :: TokenSource
  v_mapper :: ClaimsMapper
  v_issuer :: string
  v_audience :: string
  v_userinfo :: "string option"
  v_displayCookie :: string

text \<open>
  What the verifier's pointers share between requests: the key set the refresh loop updates, and
  the userinfo cache with the effects so far.
\<close>

record 'ks gate_state =
  g_keys :: "'ks keySet"
  g_ui :: ui_state

definition v_parse ::
    "'ks library \<Rightarrow> verifier \<Rightarrow> 'ks option \<Rightarrow> int \<Rightarrow> string \<Rightarrow> (string, jwt_token) result" where
  "v_parse lib v ks now raw =
     (let opts = [WithKeySet ks, WithValidate True, WithIssuer (v_issuer v)];
          opts = (if v_audience v \<noteq> [] then opts @ [WithAudience (v_audience v)] else opts)
      in case lib_ParseString lib opts now raw of
           Inl err \<Rightarrow> Inl (''parse token: '' @ err)
         | Inr token \<Rightarrow> Inr token)"

text \<open>The loop over the parts of a Cookie header.\<close>

fun find_cookie :: "string list \<Rightarrow> string \<Rightarrow> string" where
  "find_cookie [] name = []"
| "find_cookie (part # parts) name =
     (case cut ''='' (trim_space part) of
        Some (k, val) \<Rightarrow> if k = name then val else find_cookie parts name
      | None \<Rightarrow> find_cookie parts name)"

definition cookieValue :: "string \<Rightarrow> string \<Rightarrow> string" where
  "cookieValue header name = find_cookie (split_str header '';'') name"

definition fillFromDisplayCookie ::
    "'ks library \<Rightarrow> verifier \<Rightarrow> 'ks option \<Rightarrow> int \<Rightarrow> headers \<Rightarrow> identity \<Rightarrow> ui_state \<Rightarrow>
     identity \<times> ui_state" where
  "fillFromDisplayCookie lib v ks now h i ui =
     (if v_displayCookie v = [] then (i, ui)
      else let raw = cookieValue (h ''Cookie'') (v_displayCookie v) in
        if raw = [] then (i, ui)
        else case v_parse lib v ks now raw of
          Inl err \<Rightarrow> (i, emit [Log (IdCookieRejected err)] ui)
        | Inr token \<Rightarrow>
            if subject_of token \<noteq> Subject i then (i, ui)
            else (i\<lparr>Name := stringClaim token ''name'', Email := stringClaim token ''email''\<rparr>, ui))"

definition fill_userinfo ::
    "verifier \<Rightarrow> world \<Rightarrow> string \<Rightarrow> identity \<Rightarrow> ui_state \<Rightarrow> identity \<times> ui_state" where
  "fill_userinfo v w raw i ui =
     (case v_userinfo v of
        None \<Rightarrow> (i, ui)
      | Some uri \<Rightarrow>
          if Name i = [] \<and> Email i = []
          then fill uri (endpoint w) (now_check w) (now_store w) raw i ui
          else (i, ui))"

text \<open>
  \<open>Authenticate\<close>. The second verification reads the key set again, after whatever refreshes
  have landed in between.
\<close>

definition verifier_Authenticate ::
    "'ks library \<Rightarrow> verifier \<Rightarrow> world \<Rightarrow> headers \<Rightarrow> 'ks gate_state \<Rightarrow>
     (auth_error, identity) result \<times> 'ks gate_state" where
  "verifier_Authenticate lib v w h st =
     (case source_token (lib_orbit lib) (v_source v) h of
        None \<Rightarrow> (Inl ErrNoCredential, st)
      | Some raw \<Rightarrow>
          (case v_parse lib v (keySet_Set (g_keys st)) (now_parse w) raw of
             Inl err \<Rightarrow>
               (Inl ErrInvalidToken, st\<lparr>g_ui := emit [Log (TokenRejected err)] (g_ui st)\<rparr>)
           | Inr token \<Rightarrow>
               let i = mapper_identity (v_mapper v) token raw;
                   keys = fst (refreshLoop (lib_jwk_Parse lib) (lib_jwk_Len lib) (between w) (g_keys st));
                   (i, ui) = (if Name i = [] \<and> Email i = []
                     then fillFromDisplayCookie lib v (keySet_Set keys) (now_cookie w) h i (g_ui st)
                     else (i, g_ui st));
                   (i, ui) = fill_userinfo v w raw i ui
               in (Inr i, \<lparr>g_keys = keys, g_ui = ui\<rparr>)))"

definition verifier_auth :: "'ks library \<Rightarrow> verifier \<Rightarrow> world \<Rightarrow> 'ks gate_state authenticator" where
  "verifier_auth lib v w = \<lparr>Authenticate = verifier_Authenticate lib v w, Enabled = True\<rparr>"

section \<open>Header trust\<close>

definition headerTrust_Authenticate :: "headers \<Rightarrow> (auth_error, identity) result" where
  "headerTrust_Authenticate h =
     (let subject = h HeaderUser; email = h HeaderEmail in
      if subject = [] \<and> email = [] then Inl ErrNoCredential
      else let name = (if subject = [] then email else subject) in
        Inr \<lparr>Subject = subject, Name = name, Email = email,
             Roles = splitAndTrim (h HeaderGroups) '','', Token = h HeaderAccessToken,
             Claims = None\<rparr>)"

definition headerTrust :: "'s authenticator" where
  "headerTrust =
     \<lparr>Authenticate = (\<lambda>h s. (headerTrust_Authenticate h, s)), Enabled = True\<rparr>"

interpretation header_trust: stateless_authenticator headerTrust "\<lambda>_. True"
  by unfold_locales
    (auto simp: headerTrust_def headerTrust_Authenticate_def Let_def split: if_splits)


section \<open>The two verifications\<close>

text \<open>What a verified token has proved, by the documented behaviour of the library.\<close>

definition token_proven ::
    "('ks \<Rightarrow> string \<Rightarrow> jwt_token \<Rightarrow> bool) \<Rightarrow> verifier \<Rightarrow> 'ks \<Rightarrow> int \<Rightarrow> string \<Rightarrow> jwt_token \<Rightarrow> bool" where
  "token_proven signed v k now raw token \<longleftrightarrow>
     signed k raw token \<and> tok_Issuer token = Some (v_issuer v) \<and>
     (v_audience v \<noteq> [] \<longrightarrow> v_audience v \<in> set (tok_Audience token)) \<and>
     (\<forall>t. tok_Expiration token = Some t \<longrightarrow> now < t + 1000000000)"

lemma v_parse_proven:
  assumes "jwt_contract lib signed" and "v_parse lib v (Some k) now raw = Inr token"
  shows "token_proven signed v k now raw token"
proof -
  define opts where "opts = [WithKeySet (Some k), WithValidate True, WithIssuer (v_issuer v)] @
    (if v_audience v \<noteq> [] then [WithAudience (v_audience v)] else [])"
  have "lib_ParseString lib opts now raw = Inr token"
    using assms(2) by (auto simp: v_parse_def opts_def Let_def split: sum.splits if_splits)
  then have "\<forall>opt \<in> set opts. option_holds signed now raw token opt"
    using assms(1) unfolding jwt_contract_def by blast
  then show ?thesis
    by (auto simp: opts_def token_proven_def option_holds_def split: option.splits if_splits)
qed

section \<open>The fallbacks\<close>

lemma fillFromDisplayCookie_frame [display]:
  "same_authorization (fst (fillFromDisplayCookie lib v ks now h i ui)) i"
  by (auto simp: fillFromDisplayCookie_def same_authorization_def Let_def split: sum.split)

lemma fillFromDisplayCookie_cache [display]:
  "cache (snd (fillFromDisplayCookie lib v ks now h i ui)) = cache ui"
  by (auto simp: fillFromDisplayCookie_def emit_def Let_def split: sum.split)

lemma fill_userinfo_frame [display]:
  "same_authorization (fst (fill_userinfo v w raw i ui)) i"
  by (auto simp: fill_userinfo_def display split: option.split)

lemma same_authorization_trans:
  "same_authorization i j \<Longrightarrow> same_authorization j k \<Longrightarrow> same_authorization i k"
  by (simp add: same_authorization_def)

text \<open>Both fallbacks together, as one operation on the mapped identity.\<close>

definition fill_display ::
    "'ks library \<Rightarrow> verifier \<Rightarrow> world \<Rightarrow> headers \<Rightarrow> string \<Rightarrow> 'ks option \<Rightarrow> identity \<Rightarrow> ui_state \<Rightarrow>
     identity \<times> ui_state" where
  "fill_display lib v w h raw ks i ui =
     (case (if Name i = [] \<and> Email i = []
            then fillFromDisplayCookie lib v ks (now_cookie w) h i ui else (i, ui)) of
        (i, ui) \<Rightarrow> fill_userinfo v w raw i ui)"

abbreviation refreshed :: "'ks library \<Rightarrow> world \<Rightarrow> 'ks keySet \<Rightarrow> 'ks keySet" where
  "refreshed lib w k \<equiv> fst (refreshLoop (lib_jwk_Parse lib) (lib_jwk_Len lib) (between w) k)"

lemma fill_display_frame: "same_authorization (fst (fill_display lib v w h raw ks i ui)) i"
proof (cases "Name i = [] \<and> Email i = []")
  case True
  then show ?thesis
    using same_authorization_trans [OF fill_userinfo_frame
        fillFromDisplayCookie_frame [of lib v ks "now_cookie w" h i ui]]
    by (simp add: fill_display_def split_beta)
qed (auto simp: fill_display_def fill_userinfo_frame)

lemma verifier_Authenticate_eq:
  "verifier_Authenticate lib v w h st =
     (case source_token (lib_orbit lib) (v_source v) h of
        None \<Rightarrow> (Inl ErrNoCredential, st)
      | Some raw \<Rightarrow>
          (case v_parse lib v (keySet_Set (g_keys st)) (now_parse w) raw of
             Inl err \<Rightarrow>
               (Inl ErrInvalidToken, st\<lparr>g_ui := emit [Log (TokenRejected err)] (g_ui st)\<rparr>)
           | Inr token \<Rightarrow>
               (case fill_display lib v w h raw (keySet_Set (refreshed lib w (g_keys st)))
                       (mapper_identity (v_mapper v) token raw) (g_ui st) of
                  (i, ui) \<Rightarrow> (Inr i, \<lparr>g_keys = refreshed lib w (g_keys st), g_ui = ui\<rparr>))))"
  by (simp add: verifier_Authenticate_def fill_display_def Let_def prod.case_distrib
      split: option.split sum.split prod.split)

lemma verifier_ok:
  assumes "verifier_Authenticate lib v w h st = (Inr i, st')"
  obtains raw token where "source_token (lib_orbit lib) (v_source v) h = Some raw"
    and "v_parse lib v (keySet_Set (g_keys st)) (now_parse w) raw = Inr token"
    and "(i, g_ui st') = fill_display lib v w h raw (keySet_Set (g_keys st'))
           (mapper_identity (v_mapper v) token raw) (g_ui st)"
    and "g_keys st' = refreshed lib w (g_keys st)"
  using assms by (auto simp: verifier_Authenticate_eq split: option.splits sum.splits prod.splits)

section \<open>The verifier is an authenticator\<close>

text \<open>
  The invariant of the shared state: the key set is not empty, and every cached display entry is
  in \<open>H\<close> or is an answer the endpoint gives now about that subject.
\<close>

definition endpoint_says :: "userinfo_net \<Rightarrow> string \<Rightarrow> string \<Rightarrow> string \<Rightarrow> bool" where
  "endpoint_says net subject n m \<longleftrightarrow> (\<exists>uri tok. ask_userinfo uri net tok = Answer subject n m)"

definition gate_inv ::
    "('ks \<Rightarrow> nat) \<Rightarrow> (string \<Rightarrow> string \<Rightarrow> string \<Rightarrow> bool) \<Rightarrow> 'ks gate_state \<Rightarrow> bool" where
  "gate_inv len H st \<longleftrightarrow> has_keys len (g_keys st) \<and>
     (\<forall>s e. cache (g_ui st) s = Some e \<longrightarrow> H s (ui_name e) (ui_email e))"

lemma emit_cache [simp]: "cache (emit es st) = cache st"
  by (simp add: emit_def)

lemma fill_cache:
  "cache (snd (fill uri net t1 t2 tok i st)) s = Some e \<Longrightarrow>
     cache st s = Some e \<or> endpoint_says net s (ui_name e) (ui_email e)"
  by (auto simp: fill_def Let_def store_entry_def endpoint_says_def
      split: option.splits ui_answer.splits if_splits)

lemma fill_display_cache:
  assumes "cache (snd (fill_display lib v w h raw ks i ui)) s = Some e"
  shows "cache ui s = Some e \<or> endpoint_says (endpoint w) s (ui_name e) (ui_email e)"
proof -
  obtain j ui' where *: "(if Name i = [] \<and> Email i = []
      then fillFromDisplayCookie lib v ks (now_cookie w) h i ui else (i, ui)) = (j, ui')"
    by fastforce
  then have "cache ui' = cache ui"
    using fillFromDisplayCookie_cache [of lib v ks "now_cookie w" h i ui] by (auto split: if_splits)
  with * assms show ?thesis
    by (auto simp: fill_display_def fill_userinfo_def split: option.splits if_splits
        dest: fill_cache)
qed

lemma verifier_keeps_inv:
  assumes "gate_inv (lib_jwk_Len lib) H st" and "\<And>s n m. endpoint_says (endpoint w) s n m \<Longrightarrow> H s n m"
  shows "gate_inv (lib_jwk_Len lib) H (snd (verifier_Authenticate lib v w h st))"
proof -
  have "has_keys (lib_jwk_Len lib) (refreshed lib w (g_keys st))"
    using keys.good_reaches [OF refreshLoop_reaches] assms(1) unfolding gate_inv_def by blast
  moreover have "H s (ui_name e) (ui_email e)"
    if "cache (snd (fill_display lib v w h raw ks i (g_ui st))) s = Some e" for raw ks i s e
    using fill_display_cache [OF that] assms unfolding gate_inv_def by blast
  ultimately show ?thesis
    using assms(1)
    by (auto simp: verifier_Authenticate_eq gate_inv_def split: option.split sum.split prod.split)
       (metis snd_conv)+
qed

interpretation verifying: authenticator "verifier_auth lib v w"
  "gate_inv (lib_jwk_Len lib) (\<lambda>s n m. H s n m \<or> endpoint_says (endpoint w) s n m)" for lib v w H
proof
  show "fst (Authenticate (verifier_auth lib v w) h s) = Inl e \<Longrightarrow>
      e = ErrNoCredential \<or> e = ErrInvalidToken" for h s e
    by (auto simp: verifier_auth_def verifier_Authenticate_eq
        split: option.splits sum.splits prod.splits)
qed (simp add: verifier_auth_def verifier_keeps_inv)

section \<open>Authentication\<close>

text \<open>What is proved about an identity that was returned.\<close>

definition identity_proven ::
    "('ks \<Rightarrow> string \<Rightarrow> jwt_token \<Rightarrow> bool) \<Rightarrow> 'ks library \<Rightarrow> verifier \<Rightarrow> 'ks \<Rightarrow> int \<Rightarrow> headers \<Rightarrow>
     identity \<Rightarrow> bool" where
  "identity_proven signed lib v k now h i \<longleftrightarrow>
     source_token (lib_orbit lib) (v_source v) h = Some (Token i) \<and>
     (\<exists>token. token_proven signed v k now (Token i) token \<and>
        same_authorization i (mapper_identity (v_mapper v) token (Token i)))"

lemma verifier_proven:
  assumes "jwt_contract lib signed" and "has_keys (lib_jwk_Len lib) (g_keys st)"
    and "Authenticate (verifier_auth lib v w) h st = (Inr i, st')"
  shows "\<exists>k. keySet_Set (g_keys st) = Some k \<and> 0 < lib_jwk_Len lib k \<and>
     identity_proven signed lib v k (now_parse w) h i"
proof -
  from assms(2) obtain k where k: "keySet_Set (g_keys st) = Some k" "0 < lib_jwk_Len lib k"
    by (auto simp: has_keys_def)
  from assms(3) have "verifier_Authenticate lib v w h st = (Inr i, st')"
    by (simp add: verifier_auth_def)
  then obtain raw token where raw: "source_token (lib_orbit lib) (v_source v) h = Some raw"
    and parse: "v_parse lib v (Some k) (now_parse w) raw = Inr token"
    and fill: "(i, g_ui st') = fill_display lib v w h raw (keySet_Set (g_keys st'))
           (mapper_identity (v_mapper v) token raw) (g_ui st)"
    by (rule verifier_ok) (simp add: k)
  from fill have "same_authorization i (mapper_identity (v_mapper v) token raw)"
    by (metis fill_display_frame fst_conv)
  with k raw v_parse_proven [OF assms(1) parse] show ?thesis
    by (auto simp: same_authorization_def identity_proven_def)
qed

text \<open>C6: an identity is returned only for the source's token, verified: signed under the current
  non-empty key set, of the configured issuer and (when one is configured) audience, unexpired;
  and its subject, roles, raw token and claims are that token's, whatever the display fallbacks
  did.\<close>

theorem Authenticate_sound:
  assumes "jwt_contract lib signed" and "has_keys (lib_jwk_Len lib) (g_keys st)"
    and "Authenticate (verifier_auth lib v w) h st = (Inr i, st')"
  shows "\<exists>k token. keySet_Set (g_keys st) = Some k \<and> 0 < lib_jwk_Len lib k \<and>
     source_token (lib_orbit lib) (v_source v) h = Some (Token i) \<and>
     token_proven signed v k (now_parse w) (Token i) token \<and>
     Subject i = subject_of token \<and> Claims i = claimsMap token \<and>
     Roles i = claimValues token (RolesClaim (withDefaults (v_mapper v)))"
  using verifier_proven [OF assms] by (auto simp: identity_proven_def same_authorization_def)

text \<open>C15: every rejection, and nothing else: no token from the source is \<open>ErrNoCredential\<close>, a
  token the library refuses is \<open>ErrInvalidToken\<close>; failures of the display fallbacks never
  reject, and no other error exists.\<close>

theorem Authenticate_errors:
  "(fst (Authenticate (verifier_auth lib v w) h st) = Inl e \<longleftrightarrow>
     (case source_token (lib_orbit lib) (v_source v) h of
        None \<Rightarrow> e = ErrNoCredential
      | Some raw \<Rightarrow> e = ErrInvalidToken \<and>
          (\<exists>why. v_parse lib v (keySet_Set (g_keys st)) (now_parse w) raw = Inl why)))"
  by (auto simp: verifier_auth_def verifier_Authenticate_eq
      split: option.split sum.split prod.split)

text \<open>A library that does not say why it refuses a token.\<close>

definition forget_reasons :: "'ks library \<Rightarrow> 'ks library" where
  "forget_reasons lib = lib\<lparr>lib_ParseString := (\<lambda>opts now raw.
     case lib_ParseString lib opts now raw of Inl _ \<Rightarrow> Inl [] | Inr token \<Rightarrow> Inr token)\<rparr>"

lemma forget_reasons_sel [simp]:
  "lib_orbit (forget_reasons lib) = lib_orbit lib"
  "lib_jwk_Parse (forget_reasons lib) = lib_jwk_Parse lib"
  "lib_jwk_Len (forget_reasons lib) = lib_jwk_Len lib"
  by (simp_all add: forget_reasons_def)

lemma v_parse_forget:
  "v_parse (forget_reasons lib) v ks now raw =
     (case v_parse lib v ks now raw of Inl _ \<Rightarrow> Inl ''parse token: '' | Inr token \<Rightarrow> Inr token)"
  by (auto simp: v_parse_def forget_reasons_def Let_def split: sum.split)

text \<open>Two states of the fallbacks that agree up to the log, and operations that respect that.\<close>

definition same_cache :: "identity \<times> ui_state \<Rightarrow> identity \<times> ui_state \<Rightarrow> bool" where
  "same_cache p q \<longleftrightarrow> fst p = fst q \<and> cache (snd p) = cache (snd q)"

lemma fill_same_cache:
  "cache ui = cache ui' \<Longrightarrow> same_cache (fill uri net t1 t2 tok i ui) (fill uri net t1 t2 tok i ui')"
  by (auto simp: fill_def same_cache_def Let_def split: option.split ui_answer.split)

lemma cookie_forget:
  "same_cache (fillFromDisplayCookie (forget_reasons lib) v ks now h i ui)
     (fillFromDisplayCookie lib v ks now h i ui)"
  by (auto simp: same_cache_def fillFromDisplayCookie_def v_parse_forget Let_def split: sum.split)

lemma fill_userinfo_same_cache:
  "same_cache p q \<Longrightarrow> same_cache (case p of (i, ui) \<Rightarrow> fill_userinfo v w raw i ui)
     (case q of (i, ui) \<Rightarrow> fill_userinfo v w raw i ui)"
  using fill_same_cache [of "snd p" "snd q"]
  by (cases p; cases q) (auto simp: fill_userinfo_def same_cache_def split: option.split)

lemma fill_display_forget:
  "same_cache (fill_display (forget_reasons lib) v w h raw ks i ui) (fill_display lib v w h raw ks i ui)"
  unfolding fill_display_def
  by (rule fill_userinfo_same_cache) (simp add: cookie_forget, simp add: same_cache_def)

lemma fill_display_forgetD:
  "fill_display (forget_reasons lib) v w h raw ks i ui = (j, ui1) \<Longrightarrow>
     fill_display lib v w h raw ks i ui = (k, ui2) \<Longrightarrow> j = k \<and> cache ui1 = cache ui2"
  using fill_display_forget [of lib v w h raw ks i ui] by (simp add: same_cache_def)

text \<open>C31: the reason of a rejection stays in the log: with a library that forgets its error texts
  every request gets the same result and leaves the same keys and cache.\<close>

theorem rejection_reason_private:
  "fst (Authenticate (verifier_auth (forget_reasons lib) v w) h st) =
     fst (Authenticate (verifier_auth lib v w) h st) \<and>
   g_keys (snd (Authenticate (verifier_auth (forget_reasons lib) v w) h st)) =
     g_keys (snd (Authenticate (verifier_auth lib v w) h st)) \<and>
   cache (g_ui (snd (Authenticate (verifier_auth (forget_reasons lib) v w) h st))) =
     cache (g_ui (snd (Authenticate (verifier_auth lib v w) h st)))"
  by (auto simp: verifier_auth_def verifier_Authenticate_eq v_parse_forget
      split: option.split sum.split prod.split dest: fill_display_forgetD)

section \<open>Display data\<close>

text \<open>Where displayed values come from: the cookie's token or the userinfo endpoint.\<close>

definition cookie_says ::
    "'ks library \<Rightarrow> verifier \<Rightarrow> 'ks option \<Rightarrow> int \<Rightarrow> headers \<Rightarrow> string \<Rightarrow> string \<Rightarrow> string \<Rightarrow> bool" where
  "cookie_says lib v ks now h subject n m \<longleftrightarrow>
     v_displayCookie v \<noteq> [] \<and>
     (\<exists>c. v_parse lib v ks now (cookieValue (h ''Cookie'') (v_displayCookie v)) = Inr c \<and>
        subject_of c = subject \<and> n = stringClaim c ''name'' \<and> m = stringClaim c ''email'')"

definition userinfo_says ::
    "verifier \<Rightarrow> world \<Rightarrow> string \<Rightarrow> ui_state \<Rightarrow> string \<Rightarrow> string \<Rightarrow> string \<Rightarrow> bool" where
  "userinfo_says v w raw ui subject n m \<longleftrightarrow>
     (\<exists>uri. v_userinfo v = Some uri \<and>
        ((\<exists>t. cache ui subject = Some \<lparr>ui_name = n, ui_email = m, ui_fetchedAt = t\<rparr> \<and>
            now_check w - t < Hour) \<or>
         ask_userinfo uri (endpoint w) raw = Answer subject n m))"

lemma set_display_twice [simp]: "set_display (set_display i a b) n m = set_display i n m"
  by (simp add: set_display_def)

lemma fillFromDisplayCookie_says:
  "case fillFromDisplayCookie lib v ks now h i ui of (j, ui') \<Rightarrow>
     cache ui' = cache ui \<and>
     (j = i \<or> (\<exists>n m. j = set_display i n m \<and> cookie_says lib v ks now h (Subject i) n m))"
  by (auto simp: fillFromDisplayCookie_def cookie_says_def set_display_def Let_def split: sum.split)

lemma fill_userinfo_says:
  "case fill_userinfo v w raw i ui of (j, ui') \<Rightarrow>
     j = i \<or> (\<exists>n m. j = set_display i n m \<and> userinfo_says v w raw ui (Subject i) n m)"
proof (cases "fill_userinfo v w raw i ui = (i, ui)")
  case False
  then obtain uri where uri: "v_userinfo v = Some uri"
    and fill: "fill_userinfo v w raw i ui = fill uri (endpoint w) (now_check w) (now_store w) raw i ui"
    by (auto simp: fill_userinfo_def split: option.splits if_splits)
  show ?thesis
  proof (cases "cached_entry (cache ui) (Subject i) (now_check w)")
    case None
    with uri show ?thesis
      by (auto simp: fill fill_def Let_def userinfo_says_def split: ui_answer.split)
  next
    case (Some e)
    then have "cache ui (Subject i) = Some e" "now_check w - ui_fetchedAt e < Hour"
      by (auto simp: cached_entry_def userinfoTTL_def time_sub_hour split: option.splits if_splits)
    then have "userinfo_says v w raw ui (Subject i) (ui_name e) (ui_email e)"
      using uri by (cases e) (auto simp: userinfo_says_def)
    with Some show ?thesis
      by (auto simp: fill fill_def)
  qed
qed simp

lemma fill_display_says:
  assumes "(j, ui') = fill_display lib v w h raw ks i ui"
  shows "j = i \<or> (Name i = [] \<and> Email i = [] \<and>
     (\<exists>n m. j = set_display i n m \<and>
        (cookie_says lib v ks (now_cookie w) h (Subject i) n m \<or>
         userinfo_says v w raw ui (Subject i) n m)))"
proof (cases "Name i = [] \<and> Email i = []")
  case True
  obtain k ui1 where k: "fillFromDisplayCookie lib v ks (now_cookie w) h i ui = (k, ui1)"
    by fastforce
  with True assms have j: "fill_userinfo v w raw k ui1 = (j, ui')"
    by (simp add: fill_display_def)
  from fillFromDisplayCookie_says [where lib = lib and v = v and ks = ks and h = h and i = i
      and ui = ui and now = "now_cookie w"] k
  have c: "cache ui1 = cache ui"
    "k = i \<or> (\<exists>n m. k = set_display i n m \<and> cookie_says lib v ks (now_cookie w) h (Subject i) n m)"
    by auto
  from fill_userinfo_says [where v = v and w = w and raw = raw and i = k and ui = ui1] j
  have "j = k \<or> (\<exists>n m. j = set_display k n m \<and> userinfo_says v w raw ui (Subject k) n m)"
    by (simp add: userinfo_says_def c(1))
  with c(2) True show ?thesis by auto
next
  case False
  with assms have "j = i"
    by (auto simp: fill_display_def fill_userinfo_def split: option.splits)
  then show ?thesis ..
qed

text \<open>C14: the displayed name and email are the access token's, and only if it has neither, those
  of a cookie token that passes the same verification against the current keys for the same
  subject, or those of a userinfo answer about the same subject, given now or less than an hour
  ago.\<close>

theorem display_provenance:
  assumes "Authenticate (verifier_auth lib v w) h st = (Inr i, st')"
  shows "\<exists>token. v_parse lib v (keySet_Set (g_keys st)) (now_parse w) (Token i) = Inr token \<and>
     (let m = mapper_identity (v_mapper v) token (Token i) in
        i = m \<or>
        (Name m = [] \<and> Email m = [] \<and>
         (cookie_says lib v (keySet_Set (g_keys st')) (now_cookie w) h (Subject i) (Name i) (Email i) \<or>
          userinfo_says v w (Token i) (g_ui st) (Subject i) (Name i) (Email i))))"
proof -
  from assms have "verifier_Authenticate lib v w h st = (Inr i, st')"
    by (simp add: verifier_auth_def)
  then obtain raw token
    where parse: "v_parse lib v (keySet_Set (g_keys st)) (now_parse w) raw = Inr token"
      and fill: "(i, g_ui st') = fill_display lib v w h raw (keySet_Set (g_keys st'))
           (mapper_identity (v_mapper v) token raw) (g_ui st)"
    by (rule verifier_ok)
  from fill have "Token i = raw"
    using fill_display_frame [of lib v w h raw] by (metis fst_conv mapper_identity_sel(2) same_authorization_def)
  moreover from fill_display_says [OF fill] obtain m where m: "m = mapper_identity (v_mapper v) token raw"
    and "i = m \<or> (Name m = [] \<and> Email m = [] \<and> (\<exists>n e. i = set_display m n e \<and>
        (cookie_says lib v (keySet_Set (g_keys st')) (now_cookie w) h (Subject m) n e \<or>
         userinfo_says v w raw (g_ui st) (Subject m) n e)))"
    by blast
  then have "i = m \<or> (Name m = [] \<and> Email m = [] \<and>
      (cookie_says lib v (keySet_Set (g_keys st')) (now_cookie w) h (Subject i) (Name i) (Email i) \<or>
       userinfo_says v w raw (g_ui st) (Subject i) (Name i) (Email i)))"
    by (elim disjE conjE exE) (simp_all del: mapper_identity_sel)
  ultimately show ?thesis
    using parse unfolding Let_def m by blast
qed


section \<open>Effects\<close>

definition asked :: "effect list \<Rightarrow> (string \<times> string) list" where
  "asked es = [(u, a). UserinfoGet u a \<leftarrow> es]"

lemma asked_simps [simp]:
  "asked [] = []"
  "asked (UserinfoGet u a # es) = (u, a) # asked es"
  "asked (Log l # es) = asked es"
  "asked (es @ es') = asked es @ asked es'"
  by (simp_all add: asked_def)

lemma emit_trace [simp]: "trace (emit es st) = trace st @ es"
  by (simp add: emit_def)

lemma cookie_trace:
  "\<exists>es. trace (snd (fillFromDisplayCookie lib v ks now h i ui)) = trace ui @ es \<and> asked es = []"
  by (auto simp: fillFromDisplayCookie_def Let_def split: sum.split)

lemma fill_trace:
  "\<exists>es. trace (snd (fill uri net t1 t2 tok i ui)) = trace ui @ es \<and>
     (asked es = [] \<or> asked es = [(uri, ''Bearer '' @ tok)])"
  by (auto simp: fill_def Let_def split: option.split ui_answer.split)

lemma fill_userinfo_trace:
  "\<exists>es. trace (snd (fill_userinfo v w raw i ui)) = trace ui @ es \<and>
     (asked es = [] \<or> (\<exists>uri. v_userinfo v = Some uri \<and> asked es = [(uri, ''Bearer '' @ raw)]))"
  using fill_trace [of _ "endpoint w" "now_check w" "now_store w" raw i ui]
  by (auto simp: fill_userinfo_def split: option.split)

lemma fill_display_trace:
  "\<exists>es. trace (snd (fill_display lib v w h raw ks i ui)) = trace ui @ es \<and>
     (asked es = [] \<or> (\<exists>uri. v_userinfo v = Some uri \<and> asked es = [(uri, ''Bearer '' @ raw)]))"
proof -
  obtain j ui1 where j: "(if Name i = [] \<and> Email i = []
      then fillFromDisplayCookie lib v ks (now_cookie w) h i ui else (i, ui)) = (j, ui1)"
    by fastforce
  then obtain es where "trace ui1 = trace ui @ es" "asked es = []"
    using cookie_trace [of lib v ks "now_cookie w" h i ui] by (auto split: if_splits)
  with fill_userinfo_trace [of v w raw j ui1] show ?thesis
    unfolding fill_display_def j by auto
qed

text \<open>C21: a call sends at most one request, to the userinfo endpoint, and only with the very
  token it has verified: a rejected credential never leaves the process.\<close>

theorem only_verified_token_sent:
  "case Authenticate (verifier_auth lib v w) h st of (r, st') \<Rightarrow>
     \<exists>es. trace (g_ui st') = trace (g_ui st) @ es \<and>
       asked es \<in> {[]} \<union> {[(uri, ''Bearer '' @ Token i)] | uri i.
         v_userinfo v = Some uri \<and> r = Inr i \<and>
         (\<exists>token. v_parse lib v (keySet_Set (g_keys st)) (now_parse w) (Token i) = Inr token)}"
proof (cases "verifier_Authenticate lib v w h st")
  case (Pair r st')
  show ?thesis
  proof (cases r)
    case (Inl e)
    with Pair show ?thesis
      by (auto simp: verifier_auth_def verifier_Authenticate_eq
          split: option.splits sum.splits prod.splits)
  next
    case (Inr i)
    from Pair [unfolded Inr] obtain raw token
      where parse: "v_parse lib v (keySet_Set (g_keys st)) (now_parse w) raw = Inr token"
        and fill: "(i, g_ui st') = fill_display lib v w h raw (keySet_Set (g_keys st'))
             (mapper_identity (v_mapper v) token raw) (g_ui st)"
      by (rule verifier_ok)
    obtain es where es: "trace (g_ui st') = trace (g_ui st) @ es"
      and or: "asked es = [] \<or> (\<exists>uri. v_userinfo v = Some uri \<and> asked es = [(uri, ''Bearer '' @ raw)])"
      using fill_display_trace by (metis fill snd_conv)
    from fill have "Token i = raw"
      using fill_display_frame [of lib v w h raw]
      by (metis fst_conv mapper_identity_sel(2) same_authorization_def)
    with es or parse Pair Inr show ?thesis
      by (auto simp: verifier_auth_def)
  qed
qed

lemma fill_display_skip:
  "Name i \<noteq> [] \<or> Email i \<noteq> [] \<Longrightarrow> fill_display lib v w h raw ks i ui = (i, ui)"
  by (auto simp: fill_display_def fill_userinfo_def split: option.split)

text \<open>When the verified token carries a name or an email, it alone is displayed: neither the
  cookie nor the userinfo endpoint is consulted, and nothing is logged, cached or sent.\<close>

lemma display_fallbacks_skipped:
  assumes "source_token (lib_orbit lib) (v_source v) h = Some raw"
    and "v_parse lib v (keySet_Set (g_keys st)) (now_parse w) raw = Inr token"
    and "Name (mapper_identity (v_mapper v) token raw) \<noteq> [] \<or>
         Email (mapper_identity (v_mapper v) token raw) \<noteq> []"
  shows "Authenticate (verifier_auth lib v w) h st =
     (Inr (mapper_identity (v_mapper v) token raw), st\<lparr>g_keys := refreshed lib w (g_keys st)\<rparr>)"
  by (simp add: verifier_auth_def verifier_Authenticate_eq assms(1,2) fill_display_skip [OF assms(3)])

section \<open>Cookies\<close>

abbreviation cookie_pair :: "string \<times> string \<Rightarrow> string" where
  "cookie_pair p \<equiv> fst p @ ''='' @ snd p"

definition cookie_ok :: "string \<times> string \<Rightarrow> bool" where
  "cookie_ok p \<longleftrightarrow> visible_ascii (fst p) \<and> visible_ascii (snd p) \<and>
     CHR '';'' \<notin> set (fst p @ snd p) \<and> CHR ''='' \<notin> set (fst p)"

lemma find_cookie_pair:
  assumes "cookie_ok p" and "ascii_blank a"
  shows "find_cookie ((a @ cookie_pair p) # parts) name =
     (if fst p = name then snd p else find_cookie parts name)"
proof -
  have "visible_ascii (cookie_pair p)"
    using assms(1) by (auto simp: cookie_ok_def visible_ascii_def)
  then have "trim_space (a @ cookie_pair p) = cookie_pair p"
    using trim_space_padded [OF trimmed_visible assms(2), of "cookie_pair p" "[]"] by simp
  moreover have "cut ''='' (cookie_pair p) = Some (fst p, snd p)"
    using assms(1) cut_byte_append [of "CHR ''=''" "fst p" "snd p"] by (simp add: cookie_ok_def)
  ultimately show ?thesis by (simp add: split_beta)
qed

lemma find_cookie_pairs:
  "list_all cookie_ok ps \<Longrightarrow> ascii_blank a \<Longrightarrow> CHR '';'' \<notin> set a \<Longrightarrow>
     find_cookie (split_str (a @ join_str (map cookie_pair ps) ''; '') '';'') name =
     (case map_of ps name of Some val \<Rightarrow> val | None \<Rightarrow> [])"
proof (induction ps arbitrary: a)
  case Nil
  then have "trim_space a = []"
    using trim_space_padded [of "[]" a "[]"] by (simp add: trimmed_visible visible_ascii_def)
  with Nil show ?case
    by (simp add: split_byte_none cut_byte)
next
  case (Cons p ps)
  then have p: "cookie_ok p" and no: "CHR '';'' \<notin> set (a @ cookie_pair p)"
    by (simp_all add: cookie_ok_def)
  show ?case
  proof (cases "ps = []")
    case True
    with find_cookie_pair [OF p Cons.prems(2)] no show ?thesis
      by (simp add: split_byte_none)
  next
    case False
    then have "a @ join_str (map cookie_pair (p # ps)) ''; '' =
        (a @ cookie_pair p) @ CHR '';'' # ('' '' @ join_str (map cookie_pair ps) ''; '')"
      by (simp add: join_str_Cons)
    then have "split_str (a @ join_str (map cookie_pair (p # ps)) ''; '') '';'' =
        (a @ cookie_pair p) # split_str ('' '' @ join_str (map cookie_pair ps) ''; '') '';''"
      using split_byte_cons [OF no] by (simp only:)
    then show ?thesis
      using find_cookie_pair [OF p Cons.prems(2)] Cons.IH [of "'' ''"] Cons.prems(1)
      by (simp add: is_space_def)
  qed
qed

text \<open>C39: from a Cookie header as a browser writes it, pairs joined by a semicolon and a space,
  exactly the first cookie of the name is read, with its whole value, and nothing when no
  cookie has the name.\<close>

theorem cookieValue_roundtrip:
  assumes "list_all cookie_ok ps"
  shows "cookieValue (join_str (map cookie_pair ps) ''; '') name =
     (case map_of ps name of Some val \<Rightarrow> val | None \<Rightarrow> [])"
  using find_cookie_pairs [OF assms, of "[]"] by (simp add: cookieValue_def)

theorem cookieValue_roundtrip_witness:
  "cookieValue ''a=1; IdToken=x.y=; IdToken=z'' ''IdToken'' = ''x.y=''"
  using cookieValue_roundtrip
    [of "[(''a'', ''1''), (''IdToken'', ''x.y=''), (''IdToken'', ''z'')]" "''IdToken''"]
  by (simp add: cookie_ok_def visible_ascii_def)

section \<open>Header trust\<close>

text \<open>Header trust rejects exactly a request with neither a user nor an email header;
  otherwise the headers are the identity, a user name missing is replaced by the email for
  display only, and the roles are the trimmed non-empty entries of the groups header.\<close>

lemma headerTrust_spec:
  "(case fst (Authenticate headerTrust h s) of
      Inl e \<Rightarrow> h HeaderUser = [] \<and> h HeaderEmail = [] \<and> e = ErrNoCredential
    | Inr i \<Rightarrow> \<not> (h HeaderUser = [] \<and> h HeaderEmail = []) \<and>
        Subject i = h HeaderUser \<and> Email i = h HeaderEmail \<and> Token i = h HeaderAccessToken \<and>
        Name i = (if h HeaderUser = [] then h HeaderEmail else h HeaderUser) \<and> Name i \<noteq> [] \<and>
        (\<forall>r. HasRole i r \<longleftrightarrow> r \<noteq> [] \<and> r \<in> trim_space ` set (split_str (h HeaderGroups) '','')))"
  by (auto simp: headerTrust_def headerTrust_Authenticate_def Let_def HasRole_iff
      splitAndTrim_elems)


section \<open>A library, a verifier and its requests\<close>

text \<open>
  A concrete library for the examples: the tokens it knows, a key set as a list of key names,
  and the documented checks on every option.
\<close>

definition example_token :: "string option \<Rightarrow> (string \<times> any) list \<Rightarrow> jwt_token" where
  "example_token sub cs =
     \<lparr>tok_Subject = sub, tok_Keys = map fst cs, tok_Field = map_of cs,
      tok_Issuer = Some ''https://i'', tok_Audience = [''api''],
      tok_Expiration = Some (60 * 1000000000)\<rparr>"

definition access_token :: "string option \<Rightarrow> jwt_token" where
  "access_token sub = example_token sub 
     ((case sub of Some s \<Rightarrow> [(''sub'', AString s)] | None \<Rightarrow> []) @
      [(''groups'', AArray (Some [AString ''op'', ABool True]))])"

definition id_token :: "string option \<Rightarrow> jwt_token" where
  "id_token sub = example_token sub [(''name'', AString ''Ada'')]"

definition example_tokens :: "string \<Rightarrow> jwt_token option" where
  "example_tokens =
     [''tok'' \<mapsto> access_token (Some ''u''), ''idt'' \<mapsto> id_token (Some ''u''),
      ''anon'' \<mapsto> access_token None, ''anonid'' \<mapsto> id_token None]"

definition example_signed :: "string list \<Rightarrow> string \<Rightarrow> jwt_token \<Rightarrow> bool" where
  "example_signed ks raw token \<longleftrightarrow> ''k'' \<in> set ks \<and> example_tokens raw = Some token"

definition example_lib :: "string list library" where
  "example_lib =
     \<lparr>lib_orbit = (\<lambda>_ _. False),
      lib_ParseString = (\<lambda>opts now raw.
        case example_tokens raw of
          None \<Rightarrow> Inl ''malformed''
        | Some token \<Rightarrow>
            if list_all (option_holds example_signed now raw token) opts
            then Inr token else Inl ''refused''),
      lib_jwk_Parse = (\<lambda>body. Some [body]),
      lib_jwk_Len = length\<rparr>"

lemma example_contract: "jwt_contract example_lib example_signed"
  by (auto simp: jwt_contract_def example_lib_def list_all_iff split: option.splits if_splits)

definition example_verifier :: verifier where
  "example_verifier =
     \<lparr>v_source = DefaultSource, v_mapper = \<lparr>NameClaim = [], EmailClaim = [], RolesClaim = []\<rparr>,
      v_issuer = ''https://i'', v_audience = ''api'', v_userinfo = None,
      v_displayCookie = ''IdToken''\<rparr>"

lemma example_verifier_sel [simp]:
  "v_source example_verifier = DefaultSource"
  "v_issuer example_verifier = ''https://i''"
  "v_audience example_verifier = ''api''"
  "v_userinfo example_verifier = None"
  "v_displayCookie example_verifier = ''IdToken''"
  by (simp_all add: example_verifier_def)

definition example_headers :: "string \<Rightarrow> string \<Rightarrow> headers" where
  "example_headers token cookie name =
     (if name = HeaderAccessToken then token else if name = ''Cookie'' then cookie else [])"

definition example_world :: world where
  "example_world = \<lparr>now_parse = 0, now_cookie = 1, now_check = 2, now_store = 3,
     between = [], endpoint = example_net\<rparr>"

definition example_state :: "string list gate_state" where
  "example_state = \<lparr>g_keys = \<lparr>ks_url = ''https://i/k'', ks_keys = Some [''k'']\<rparr>,
     g_ui = \<lparr>cache = (\<lambda>_. None), trace = []\<rparr>\<rparr>"

lemma example_source:
  "source_token orbit DefaultSource (example_headers ''tok'' c) = Some ''tok''"
  "source_token orbit DefaultSource (example_headers ''anon'' c) = Some ''anon''"
  by (simp_all add: DefaultSource_token example_headers_def go_eval)

lemma example_parse:
  "example_tokens raw = Some token \<Longrightarrow> tok_Issuer token = Some ''https://i'' \<Longrightarrow>
     tok_Audience token = [''api''] \<Longrightarrow> tok_Expiration token = Some (60 * 1000000000) \<Longrightarrow>
     now < 61 * 1000000000 \<Longrightarrow>
     v_parse example_lib example_verifier (Some [''k'']) now raw = Inr token"
  by (simp add: v_parse_def example_lib_def option_holds_def example_signed_def
      Let_def)

lemma example_parse_tokens:
  assumes "now < 61 * 1000000000"
  shows "v_parse example_lib example_verifier (Some [''k'']) now ''tok'' = Inr (access_token (Some ''u''))"
    and "v_parse example_lib example_verifier (Some [''k'']) now ''idt'' = Inr (id_token (Some ''u''))"
    and "v_parse example_lib example_verifier (Some [''k'']) now ''anon'' = Inr (access_token None)"
    and "v_parse example_lib example_verifier (Some [''k'']) now ''anonid'' = Inr (id_token None)"
  using assms
  by (auto intro!: example_parse simp: example_tokens_def access_token_def id_token_def
      example_token_def)

lemmas example_run = verifier_auth_def verifier_Authenticate_eq example_source
  example_parse_tokens example_state_def example_world_def

lemma example_keys [simp]: "has_keys (lib_jwk_Len example_lib) (g_keys example_state)"
  by (simp add: has_keys_def example_lib_def example_state_def keySet_Set_def)

lemma example_mapped:
  "mapper_identity (v_mapper example_verifier) (access_token sub) raw =
     \<lparr>Subject = (case sub of Some s \<Rightarrow> s | None \<Rightarrow> []), Name = [], Email = [], Roles = Some [''op''],
      Token = raw, Claims = claimsMap (access_token sub)\<rparr>"
  by (cases sub) (simp_all add: mapper_identity_def Let_def example_verifier_def access_token_def example_token_def
      withDefaults_def subject_of_def stringClaim_def claimValues_def stringsFrom_def)

lemma example_cookie:
  "cookieValue ''IdToken=idt'' ''IdToken'' = ''idt''"
  "cookieValue ''IdToken=anonid'' ''IdToken'' = ''anonid''"
  using find_cookie_pairs [of "[(''IdToken'', ''idt'')]" "[]" "''IdToken''"]
    find_cookie_pairs [of "[(''IdToken'', ''anonid'')]" "[]" "''IdToken''"]
  by (simp_all add: cookieValue_def cookie_ok_def visible_ascii_def)

definition example_result :: identity where
  "example_result = \<lparr>Subject = ''u'', Name = ''Ada'', Email = [], Roles = Some [''op''],
     Token = ''tok'', Claims = claimsMap (access_token (Some ''u''))\<rparr>"

lemma example_authenticate:
  "Authenticate (verifier_auth example_lib example_verifier example_world)
     (example_headers ''tok'' ''IdToken=idt'') example_state = (Inr example_result, example_state)"
proof -
  have "stringClaim (id_token (Some ''u'')) ''name'' = ''Ada''"
    "stringClaim (id_token (Some ''u'')) ''email'' = []" "subject_of (id_token (Some ''u'')) = ''u''"
    by (simp_all add: id_token_def example_token_def stringClaim_def subject_of_def)
  then show ?thesis
    by (simp add: example_run example_mapped keySet_Set_def fill_display_def fill_userinfo_def
        fillFromDisplayCookie_def example_headers_def example_cookie header_names example_result_def
        Let_def)
qed

theorem Authenticate_sound_witness:
  "\<exists>token. example_signed [''k''] ''tok'' token \<and> subject_of token = ''u''"
proof -
  have "keySet_Set (g_keys example_state) = Some [''k'']"
    by (simp add: example_state_def keySet_Set_def)
  with Authenticate_sound [OF example_contract example_keys example_authenticate] show ?thesis
    by (auto simp: token_proven_def example_result_def)
qed

theorem display_provenance_witness:
  "cookie_says example_lib example_verifier (Some [''k'']) 1
       (example_headers ''tok'' ''IdToken=idt'') ''u'' ''Ada'' [] \<or>
   userinfo_says example_verifier example_world ''tok'' (g_ui example_state) ''u'' ''Ada'' []"
proof -
  have "keySet_Set (g_keys example_state) = Some [''k'']" "now_cookie example_world = 1"
    "now_parse example_world = 0"
    by (simp_all add: example_state_def example_world_def keySet_Set_def)
  with display_provenance [OF example_authenticate] show ?thesis
    by (auto simp: Let_def example_result_def example_parse_tokens example_mapped
        simp del: mapper_identity_sel)
qed

lemma display_fallbacks_skipped_witness:
  "\<exists>i. Authenticate (verifier_auth example_lib
      (example_verifier\<lparr>v_mapper := \<lparr>NameClaim = ''sub'', EmailClaim = [], RolesClaim = []\<rparr>\<rparr>)
      example_world) (example_headers ''tok'' []) example_state = (Inr i, example_state) \<and>
    Name i = ''u''"
proof -
  let ?v = "example_verifier\<lparr>v_mapper := \<lparr>NameClaim = ''sub'', EmailClaim = [], RolesClaim = []\<rparr>\<rparr>"
  have parse: "v_parse example_lib ?v ks now raw = v_parse example_lib example_verifier ks now raw"
    for ks now raw
    by (simp add: v_parse_def cong: if_cong)
  have st: "keySet_Set (g_keys example_state) = Some [''k'']" "now_parse example_world = 0"
    "example_state\<lparr>g_keys := refreshed example_lib example_world (g_keys example_state)\<rparr> = example_state"
    by (simp_all add: example_state_def example_world_def keySet_Set_def)
  have name: "Name (mapper_identity (v_mapper ?v) (access_token (Some ''u'')) ''tok'') = ''u''"
    by (simp add: access_token_def example_token_def stringClaim_def)
  then have "Authenticate (verifier_auth example_lib ?v example_world)
      (example_headers ''tok'' []) example_state =
    (Inr (mapper_identity (v_mapper ?v) (access_token (Some ''u'')) ''tok''),
     example_state\<lparr>g_keys := refreshed example_lib example_world (g_keys example_state)\<rparr>)"
    by (intro display_fallbacks_skipped)
      (simp_all add: parse st example_parse_tokens example_source
        del: mapper_identity_sel)
  with name show ?thesis by (simp add: st del: mapper_identity_sel)
qed

section \<open>Subjects left out\<close>

text \<open>Two tokens without a subject count as the same subject: the name and email of a
  verified cookie token that names nobody are displayed for a verified access token that names
  nobody.\<close>

lemma cookie_subjectless:
  assumes "source_token (lib_orbit lib) (v_source v) h = Some raw"
    and "v_parse lib v (keySet_Set (g_keys st)) (now_parse w) raw = Inr token"
    and "tok_Subject token = None"
    and "Name (mapper_identity (v_mapper v) token raw) = []"
    and "Email (mapper_identity (v_mapper v) token raw) = []"
    and "v_displayCookie v \<noteq> []"
    and "cookieValue (h ''Cookie'') (v_displayCookie v) = cookie" and "cookie \<noteq> []"
    and "v_parse lib v (keySet_Set (refreshed lib w (g_keys st))) (now_cookie w) cookie = Inr c"
    and "tok_Subject c = None" and "stringClaim c ''name'' \<noteq> []"
  shows "\<exists>i st'. Authenticate (verifier_auth lib v w) h st = (Inr i, st') \<and>
     Name i = stringClaim c ''name'' \<and> Email i = stringClaim c ''email''"
proof -
  have "subject_of c = Subject (mapper_identity (v_mapper v) token raw)"
    using assms(3,10) by (simp add: subject_of_def)
  then have "fill_display lib v w h raw (keySet_Set (refreshed lib w (g_keys st)))
      (mapper_identity (v_mapper v) token raw) (g_ui st) =
    (set_display (mapper_identity (v_mapper v) token raw) (stringClaim c ''name'') (stringClaim c ''email''),
     g_ui st)"
    using assms(4-9,11)
    by (auto simp: fill_display_def fillFromDisplayCookie_def fill_userinfo_def set_display_def
        simp del: mapper_identity_sel split: option.split)
  with assms(1,2) show ?thesis
    by (auto simp: verifier_auth_def verifier_Authenticate_eq)
qed

lemma cookie_subjectless_witness:
  "\<exists>i st'. Authenticate (verifier_auth example_lib example_verifier example_world)
      (example_headers ''anon'' ''IdToken=anonid'') example_state = (Inr i, st') \<and> Name i = ''Ada''"
proof -
  have keys: "keySet_Set (g_keys example_state) = Some [''k'']"
    "keySet_Set (refreshed example_lib example_world (g_keys example_state)) = Some [''k'']"
    and now: "now_parse example_world = 0" "now_cookie example_world = 1"
    by (simp_all add: example_state_def example_world_def keySet_Set_def)
  have anon: "tok_Subject (access_token None) = None"
    by (simp add: access_token_def example_token_def)
  have cookie: "example_headers ''anon'' c ''Cookie'' = c" for c
    by (simp add: example_headers_def header_names)
  have id: "tok_Subject (id_token None) = None" "stringClaim (id_token None) ''name'' = ''Ada''"
    by (simp_all add: id_token_def example_token_def stringClaim_def)
  have "\<exists>i st'. Authenticate (verifier_auth example_lib example_verifier example_world)
      (example_headers ''anon'' ''IdToken=anonid'') example_state = (Inr i, st') \<and>
     Name i = stringClaim (id_token None) ''name'' \<and> Email i = stringClaim (id_token None) ''email''"
    by (rule cookie_subjectless [where raw = "''anon''" and token = "access_token None"
          and cookie = "''anonid''"])
      (simp_all add: keys now id anon example_mapped example_parse_tokens example_source
        example_cookie cookie del: mapper_identity_sel)
  then show ?thesis by (auto simp: id)
qed

end
