(* ===== verification/Discovery.thy ===== *)
theory Discovery
  imports Go_Json
begin

text \<open>
  \<open>discovery.go\<close>: reading the provider's OpenID configuration. The network is the argument
  \<open>get\<close>, the outcome of one GET of a URL; every error return of the function is a
  constructor, with the strings its message is built from.
\<close>

section \<open>Operations\<close>

datatype discovery_error =
    DiscoveryBuild string
  | DiscoveryFetch string
  | DiscoveryStatus string nat
  | DiscoveryDecode string
  | IssuerMismatch string string string
  | NoJWKSURI string

record endpoints =
  JWKSURI :: string
  UserinfoURI :: string

definition document_fields :: "string list" where
  "document_fields = [''issuer'', ''jwks_uri'', ''userinfo_endpoint'']"

definition well_known :: "string \<Rightarrow> string" where
  "well_known issuer = trim_suffix issuer ''/'' @ ''/.well-known/openid-configuration''"

definition discover ::
    "(string \<Rightarrow> get_outcome) \<Rightarrow> string \<Rightarrow> (discovery_error, endpoints) result" where
  "discover get issuer =
     (let wellKnown = well_known issuer in
      case get wellKnown of
        CannotBuild \<Rightarrow> Inl (DiscoveryBuild issuer)
      | TransportError \<Rightarrow> Inl (DiscoveryFetch wellKnown)
      | Response resp \<Rightarrow>
          if StatusCode resp \<noteq> StatusOK then Inl (DiscoveryStatus wellKnown (StatusCode resp))
          else case decode_body document_fields resp of
            None \<Rightarrow> Inl (DiscoveryDecode wellKnown)
          | Some document \<Rightarrow>
              if document ''issuer'' \<noteq> issuer
              then Inl (IssuerMismatch wellKnown (document ''issuer'') issuer)
              else if document ''jwks_uri'' = [] then Inl (NoJWKSURI wellKnown)
              else Inr \<lparr>JWKSURI = document ''jwks_uri'',
                        UserinfoURI = document ''userinfo_endpoint''\<rparr>)"

section \<open>Correctness\<close>

lemma discover_ok:
  "discover get issuer = Inr e \<longleftrightarrow>
     (\<exists>resp doc. get (well_known issuer) = Response resp \<and> StatusCode resp = 200 \<and>
        decode_struct document_fields (body_bytes resp) = Some doc \<and>
        doc ''issuer'' = issuer \<and> doc ''jwks_uri'' \<noteq> [] \<and>
        e = \<lparr>JWKSURI = doc ''jwks_uri'', UserinfoURI = doc ''userinfo_endpoint''\<rparr>)"
proof -
  have found: "(decode_body document_fields resp = Some doc \<and> doc ''issuer'' = issuer \<and> doc ''jwks_uri'' \<noteq> [] \<and> X) =
      (decode_struct document_fields (body_bytes resp) = Some doc \<and> doc ''issuer'' = issuer \<and>
        doc ''jwks_uri'' \<noteq> [] \<and> X)" for resp doc X
    using decode_body_field [of doc "''jwks_uri''" document_fields resp] by blast
  show ?thesis
    unfolding found [symmetric]
    by (auto simp: discover_def Let_def StatusOK_def split: get_outcome.splits option.splits if_splits)
qed

text \<open>C35: discovery succeeds exactly on a 200 answer whose document names the configured issuer
  and a key set, and returns that document's endpoints.\<close>

theorem discover_ok_iff:
  "discover get issuer = Inr e \<longleftrightarrow>
     (\<exists>resp doc. get (well_known issuer) = Response resp \<and> StatusCode resp = 200 \<and>
        decode_struct document_fields (body_bytes resp) = Some doc \<and>
        doc ''issuer'' = issuer \<and> doc ''jwks_uri'' \<noteq> [] \<and>
        e = \<lparr>JWKSURI = doc ''jwks_uri'', UserinfoURI = doc ''userinfo_endpoint''\<rparr>)"
  by (rule discover_ok)

lemma discover_okD:
  assumes "discover get issuer = Inr e"
  obtains resp doc where "get (well_known issuer) = Response resp"
    and "decode_struct document_fields (body_bytes resp) = Some doc"
    and "doc ''issuer'' = issuer" and "doc ''jwks_uri'' = JWKSURI e" and "JWKSURI e \<noteq> []"
    and "doc ''userinfo_endpoint'' = UserinfoURI e"
  using assms
  by (auto simp: discover_def Let_def dest: decode_body_struct
      split: get_outcome.splits option.splits if_splits)

text \<open>A document of another issuer is refused whatever else it says, and the error names
  the declared and the wanted issuer.\<close>

lemma discover_foreign_issuer:
  assumes "get (well_known issuer) = Response resp" and "StatusCode resp = 200"
    and "decode_body document_fields resp = Some doc"
    and "doc ''issuer'' \<noteq> issuer"
  shows "discover get issuer = Inl (IssuerMismatch (well_known issuer) (doc ''issuer'') issuer)"
  using assms by (simp add: discover_def StatusOK_def)

text \<open>
  One trailing slash of the issuer does not change the URL asked, but the document's issuer is
  compared verbatim.
\<close>

lemma well_known_slash: "well_known (issuer @ ''/'') = issuer @ ''/.well-known/openid-configuration''"
  by (simp add: well_known_def trim_suffix_append)

text \<open>Of the two spellings of an issuer, with and without a trailing slash, a provider
  satisfies at most one: both ask the same URL and the other spelling is an issuer mismatch.\<close>

lemma discover_slash_exact:
  assumes "discover get issuer = Inr e" and "\<nexists>i. issuer = i @ ''/''"
  shows "well_known (issuer @ ''/'') = well_known issuer \<and>
     discover get (issuer @ ''/'') = Inl (IssuerMismatch (well_known issuer) issuer (issuer @ ''/''))"
proof -
  have "trim_suffix issuer ''/'' = issuer"
  proof (rule ccontr)
    assume "trim_suffix issuer ''/'' \<noteq> issuer"
    then have "issuer = take (length issuer - 1) issuer @ ''/''"
      by (metis One_nat_def append_take_drop_id list.size(3,4) trim_suffix_def add.right_neutral
          add_Suc_right)
    with assms(2) show False by blast
  qed
  then have same: "well_known (issuer @ ''/'') = well_known issuer"
    by (simp add: well_known_slash) (simp add: well_known_def)
  with assms(1) show ?thesis
    by (auto simp: discover_def Let_def same
        split: get_outcome.splits option.splits if_splits)
qed

section \<open>A provider\<close>

text \<open>A concrete document, for the examples.\<close>

definition example_document :: string where
  "example_document =
     ''{'' @ quoted ''issuer'' @ '':'' @ quoted ''https://i'' @ '','' @
     quoted ''jwks_uri'' @ '':'' @ quoted ''https://i/k'' @ ''}''"

lemma example_decoded:
  "json_decode example_document =
     Some (JObj [(''issuer'', JStr ''https://i''), (''jwks_uri'', JStr ''https://i/k'')])"
  by code_simp

definition example_get :: "string \<Rightarrow> get_outcome" where
  "example_get url =
     Response \<lparr>StatusCode = 200, body_bytes = example_document, body_fails = False\<rparr>"

lemma example_struct:
  "decode_struct document_fields example_document =
     Some ((\<lambda>_. [])(''issuer'' := ''https://i'', ''jwks_uri'' := ''https://i/k''))"
  by (simp add: decode_struct_def example_decoded match_field_def document_fields_def)

lemma example_discover:
  "discover example_get ''https://i'' = Inr \<lparr>JWKSURI = ''https://i/k'', UserinfoURI = []\<rparr>"
  by (simp add: discover_def example_get_def StatusOK_def example_struct)

lemma discover_foreign_issuer_witness:
  "discover example_get ''https://j'' =
     Inl (IssuerMismatch (well_known ''https://j'') ''https://i'' ''https://j'')"
  using discover_foreign_issuer [of example_get "''https://j''"]
  by (simp add: example_get_def example_struct)

lemma discover_slash_exact_witness:
  "discover example_get ''https://i/'' =
     Inl (IssuerMismatch (well_known ''https://i'') ''https://i'' ''https://i/'')"
proof -
  have "\<nexists>i. ''https://i'' = i @ ''/''"
    by (auto dest!: arg_cong [where f = last])
  from discover_slash_exact [OF example_discover this] show ?thesis by simp
qed

end
