(* ===== verification/Profile.thy ===== *)
theory Profile
  imports Verify Discovery
begin

text \<open>
  \<open>profile.go\<close>: building an authenticator. \<open>NewVerifier\<close> performs discovery and the first
  key fetch, so \<open>get\<close>, the network as the constructor finds it, is an argument; the result
  is the verifier and the state its pointers share. The second half follows a built verifier
  through any sequence of requests.
\<close>

section \<open>Operations\<close>

text \<open>
  The Logger field has no counterpart: log lines are effects of the shared state, whoever
  prints them. A nil Source is \<open>None\<close>.
\<close>

record Config =
  cfg_Issuer :: string
  cfg_Audience :: string
  cfg_Source :: "TokenSource option"
  cfg_Claims :: ClaimsMapper
  cfg_UserinfoFallback :: bool
  cfg_DisplayCookie :: string

definition zero_Config :: Config where
  "zero_Config =
     \<lparr>cfg_Issuer = [], cfg_Audience = [], cfg_Source = None,
      cfg_Claims = \<lparr>NameClaim = [], EmailClaim = [], RolesClaim = []\<rparr>,
      cfg_UserinfoFallback = False, cfg_DisplayCookie = []\<rparr>"

text \<open>
  The code returns the errors of \<open>discover\<close> and \<open>newKeySet\<close> as they are; the constructors only
  bring them into one type.
\<close>

datatype startup_error =
    IssuerRequired
  | DiscoveryFailed discovery_error
  | KeysFailed keyset_error

text \<open>A fetcher is its endpoint and its cache, which is empty at first.\<close>

definition newUserinfoFetcher :: "string \<Rightarrow> string \<times> ui_cache" where
  "newUserinfoFetcher uri = (uri, (\<lambda>_. None))"

definition NewVerifier ::
    "'ks library \<Rightarrow> (string \<Rightarrow> get_outcome) \<Rightarrow> Config \<Rightarrow>
     (startup_error, verifier \<times> 'ks gate_state) result" where
  "NewVerifier lib get cfg =
     (if cfg_Issuer cfg = [] then Inl IssuerRequired
      else
        let src = (case cfg_Source cfg of None \<Rightarrow> DefaultSource | Some s \<Rightarrow> s) in
        case discover get (cfg_Issuer cfg) of
          Inl err \<Rightarrow> Inl (DiscoveryFailed err)
        | Inr found \<Rightarrow>
            (case newKeySet (lib_jwk_Parse lib) (lib_jwk_Len lib) get (JWKSURI found) of
               Inl err \<Rightarrow> Inl (KeysFailed err)
             | Inr keys \<Rightarrow>
                 let v = \<lparr>v_source = src, v_mapper = cfg_Claims cfg, v_issuer = cfg_Issuer cfg,
                          v_audience = cfg_Audience cfg, v_userinfo = None,
                          v_displayCookie = cfg_DisplayCookie cfg\<rparr>;
                     st = \<lparr>g_keys = keys, g_ui = \<lparr>cache = (\<lambda>_. None), trace = []\<rparr>\<rparr>
                 in if cfg_UserinfoFallback cfg \<and> UserinfoURI found \<noteq> []
                    then case newUserinfoFetcher (UserinfoURI found) of (uri, c) \<Rightarrow>
                      Inr (v\<lparr>v_userinfo := Some uri\<rparr>, st\<lparr>g_ui := \<lparr>cache = c, trace = []\<rparr>\<rparr>)
                    else Inr (v, st)))"

definition NewHeaderTrust :: "'s authenticator" where
  "NewHeaderTrust = headerTrust"

definition OAuth2ProxyOIDC ::
    "'ks library \<Rightarrow> (string \<Rightarrow> get_outcome) \<Rightarrow> string \<Rightarrow>
     (startup_error, verifier \<times> 'ks gate_state) result" where
  "OAuth2ProxyOIDC lib get issuer =
     NewVerifier lib get (zero_Config\<lparr>cfg_Issuer := issuer, cfg_Source := Some DefaultSource,
       cfg_UserinfoFallback := True\<rparr>)"

section \<open>Startup\<close>

lemma NewVerifier_okE:
  assumes "NewVerifier lib get cfg = Inr (v, st)"
  obtains found where "cfg_Issuer cfg \<noteq> []"
    and "discover get (cfg_Issuer cfg) = Inr found"
    and "newKeySet (lib_jwk_Parse lib) (lib_jwk_Len lib) get (JWKSURI found) = Inr (g_keys st)"
    and "g_ui st = \<lparr>cache = (\<lambda>_. None), trace = []\<rparr>"
    and "v = \<lparr>v_source = (case cfg_Source cfg of None \<Rightarrow> DefaultSource | Some s \<Rightarrow> s),
              v_mapper = cfg_Claims cfg, v_issuer = cfg_Issuer cfg, v_audience = cfg_Audience cfg,
              v_userinfo = (if cfg_UserinfoFallback cfg \<and> UserinfoURI found \<noteq> []
                            then Some (UserinfoURI found) else None),
              v_displayCookie = cfg_DisplayCookie cfg\<rparr>"
  using assms
  by (fastforce simp: NewVerifier_def newUserinfoFetcher_def Let_def
      split: if_splits sum.splits)


text \<open>C30: construction succeeds exactly when the issuer is configured, its well-known URL answers 200
  with a document that names that very issuer and a key set, and the key set's URL answers 200 with
  a body that, cut at 2^20 bytes, parses to a non-empty set; it then yields the configured verifier,
  asking the document's userinfo endpoint only where that was wanted and is named, with these keys
  and an empty cache.\<close>

theorem NewVerifier_ok_iff:
  "NewVerifier lib get cfg = Inr (v, st) \<longleftrightarrow>
     cfg_Issuer cfg \<noteq> [] \<and>
     (\<exists>resp doc keys body ks.
        get (well_known (cfg_Issuer cfg)) = Response resp \<and> StatusCode resp = 200 \<and>
        decode_struct document_fields (body_bytes resp) = Some doc \<and>
        doc ''issuer'' = cfg_Issuer cfg \<and> doc ''jwks_uri'' \<noteq> [] \<and>
        get (doc ''jwks_uri'') = Response keys \<and> StatusCode keys = 200 \<and>
        read_limited 1048576 keys = Some body \<and> lib_jwk_Parse lib body = Some ks \<and> 0 < lib_jwk_Len lib ks \<and>
        v = \<lparr>v_source = (case cfg_Source cfg of None \<Rightarrow> DefaultSource | Some s \<Rightarrow> s),
             v_mapper = cfg_Claims cfg, v_issuer = cfg_Issuer cfg, v_audience = cfg_Audience cfg,
             v_userinfo = (if cfg_UserinfoFallback cfg \<and> doc ''userinfo_endpoint'' \<noteq> []
                           then Some (doc ''userinfo_endpoint'') else None),
             v_displayCookie = cfg_DisplayCookie cfg\<rparr> \<and>
        st = \<lparr>g_keys = \<lparr>ks_url = doc ''jwks_uri'', ks_keys = Some ks\<rparr>,
              g_ui = \<lparr>cache = (\<lambda>_. None), trace = []\<rparr>\<rparr>)" (is "?built \<longleftrightarrow> ?answers")
proof
  assume built: ?built
  obtain found where ne: "cfg_Issuer cfg \<noteq> []" and found: "discover get (cfg_Issuer cfg) = Inr found"
    and keys: "newKeySet (lib_jwk_Parse lib) (lib_jwk_Len lib) get (JWKSURI found) = Inr (g_keys st)"
    and st: "g_ui st = \<lparr>cache = (\<lambda>_. None), trace = []\<rparr>"
    and v: "v = \<lparr>v_source = (case cfg_Source cfg of None \<Rightarrow> DefaultSource | Some s \<Rightarrow> s),
             v_mapper = cfg_Claims cfg, v_issuer = cfg_Issuer cfg, v_audience = cfg_Audience cfg,
             v_userinfo = (if cfg_UserinfoFallback cfg \<and> UserinfoURI found \<noteq> []
                           then Some (UserinfoURI found) else None),
             v_displayCookie = cfg_DisplayCookie cfg\<rparr>"
    by (rule NewVerifier_okE [OF built])
  from st have "st = \<lparr>g_keys = g_keys st, g_ui = \<lparr>cache = (\<lambda>_. None), trace = []\<rparr>\<rparr>" by simp
  with ne v found keys show ?answers
    unfolding discover_ok newKeySet_ok by fastforce
next
  assume answers: ?answers
  then obtain found keys where "discover get (cfg_Issuer cfg) = Inr found"
    and "newKeySet (lib_jwk_Parse lib) (lib_jwk_Len lib) get (JWKSURI found) = Inr keys"
    and "v_userinfo v = (if cfg_UserinfoFallback cfg \<and> UserinfoURI found \<noteq> []
        then Some (UserinfoURI found) else None)" and "g_keys st = keys"
    unfolding discover_ok newKeySet_ok by fastforce
  with answers show ?built
    by (auto simp: NewVerifier_def newUserinfoFetcher_def Let_def split: if_splits)
qed

text \<open>A construction that fails hands on the error of the step that failed.\<close>

lemma NewVerifier_fails_iff:
  "NewVerifier lib get cfg = Inl e \<longleftrightarrow>
     (if cfg_Issuer cfg = [] then e = IssuerRequired
      else (\<exists>err. e = DiscoveryFailed err \<and> discover get (cfg_Issuer cfg) = Inl err) \<or>
        (\<exists>err found. e = KeysFailed err \<and> discover get (cfg_Issuer cfg) = Inr found \<and>
          newKeySet (lib_jwk_Parse lib) (lib_jwk_Len lib) get (JWKSURI found) = Inl err))"
  by (auto simp: NewVerifier_def newUserinfoFetcher_def Let_def split: sum.split)

text \<open>The fleet's profile reads the forwarded access token and then the bearer token, demands
  no audience, maps the groups claim, uses no cookie, and asks userinfo exactly when the provider
  advertises the endpoint.\<close>

lemma OAuth2ProxyOIDC_profile:
  assumes "OAuth2ProxyOIDC lib get issuer = Inr (v, st)"
  shows "\<exists>found. discover get issuer = Inr found \<and>
     v = \<lparr>v_source = DefaultSource, v_mapper = v_mapper v, v_issuer = issuer, v_audience = [],
          v_userinfo = (if UserinfoURI found = [] then None else Some (UserinfoURI found)),
          v_displayCookie = []\<rparr> \<and>
     withDefaults (v_mapper v) =
       \<lparr>NameClaim = ''name'', EmailClaim = ''email'', RolesClaim = ''groups''\<rparr>"
  using assms unfolding OAuth2ProxyOIDC_def
  by (rule NewVerifier_okE) (auto simp: zero_Config_def withDefaults_def)

section \<open>Requests in sequence\<close>

text \<open>
  A verifier in service: any sequence of requests, each with the world as it finds it, in
  particular with any refreshes of the keys during it.
\<close>

definition serve ::
    "'ks library \<Rightarrow> verifier \<Rightarrow> (world \<times> headers) list \<Rightarrow> 'ks gate_state \<Rightarrow> 'ks gate_state" where
  "serve lib v rs st = fold (\<lambda>(w, h) st. snd (Authenticate (verifier_auth lib v w) h st)) rs st"

definition said_during :: "(world \<times> headers) list \<Rightarrow> string \<Rightarrow> string \<Rightarrow> string \<Rightarrow> bool" where
  "said_during rs s n m \<longleftrightarrow> (\<exists>(w, h) \<in> set rs. endpoint_says (endpoint w) s n m)"

lemma serve_inv:
  "gate_inv (lib_jwk_Len lib) H st \<Longrightarrow>
     gate_inv (lib_jwk_Len lib) (\<lambda>s n m. H s n m \<or> said_during rs s n m) (serve lib v rs st)"
proof (induction rs arbitrary: H st)
  case Nil
  then show ?case by (simp add: serve_def gate_inv_def)
next
  case (Cons r rs)
  obtain w h where r: "r = (w, h)" by fastforce
  let ?H = "\<lambda>s n m. H s n m \<or> endpoint_says (endpoint w) s n m"
  have "gate_inv (lib_jwk_Len lib) ?H st"
    using Cons.prems by (auto simp: gate_inv_def)
  then have "gate_inv (lib_jwk_Len lib) ?H (snd (Authenticate (verifier_auth lib v w) h st))"
    by (rule verifying.keeps_inv)
  from Cons.IH [OF this] show ?case
    by (simp add: serve_def r said_during_def disj_assoc)
qed

lemma NewVerifier_inv:
  "NewVerifier lib get cfg = Inr (v, st) \<Longrightarrow> gate_inv (lib_jwk_Len lib) (\<lambda>_ _ _. False) st"
  by (erule NewVerifier_okE) (simp add: gate_inv_def newKeySet_good)

text \<open>However long a built verifier serves, its key set is not empty and everything its cache
  may display about a subject is an answer of the endpoint about that subject, given during one
  of those requests.\<close>

lemma serve_keeps_state_sound:
  assumes "NewVerifier lib get cfg = Inr (v, st)"
  shows "has_keys (lib_jwk_Len lib) (g_keys (serve lib v rs st)) \<and>
     (\<forall>s e. cache (g_ui (serve lib v rs st)) s = Some e \<longrightarrow>
        said_during rs s (ui_name e) (ui_email e))"
  using serve_inv [OF NewVerifier_inv [OF assms], of rs v] by (simp add: gate_inv_def)

section \<open>A verifier\<close>

definition example_config :: Config where
  "example_config = zero_Config\<lparr>cfg_Issuer := ''https://i'', cfg_Audience := ''api'',
     cfg_DisplayCookie := ''IdToken''\<rparr>"

definition example_network :: "string \<Rightarrow> get_outcome" where
  "example_network url =
     Response \<lparr>StatusCode = 200,
       body_bytes = (if url = ''https://i/k'' then ''k'' else example_document), body_fails = False\<rparr>"

lemma example_found:
  "discover example_network ''https://i'' = Inr \<lparr>JWKSURI = ''https://i/k'', UserinfoURI = []\<rparr>"
proof -
  have "example_network (well_known ''https://i'') = example_get (well_known ''https://i'')"
    by (simp add: example_network_def example_get_def well_known_def trim_suffix_def)
  then have "discover example_network ''https://i'' = discover example_get ''https://i''"
    by (simp add: discover_def)
  then show ?thesis by (simp add: example_discover)
qed

lemma example_key_set:
  "newKeySet (lib_jwk_Parse example_lib) (lib_jwk_Len example_lib) example_network ''https://i/k'' =
     Inr \<lparr>ks_url = ''https://i/k'', ks_keys = Some [''k'']\<rparr>"
  by (simp add: newKeySet_def refresh_def example_network_def StatusOK_def read_limited_def
      keySetMaxBytes_def example_lib_def)

lemma example_NewVerifier:
  "NewVerifier example_lib example_network example_config = Inr (example_verifier, example_state)"
  by (simp add: NewVerifier_def example_config_def zero_Config_def example_found example_key_set
      example_verifier_def example_state_def)


lemma OAuth2ProxyOIDC_profile_witness:
  "\<exists>v st. OAuth2ProxyOIDC example_lib example_network ''https://i'' = Inr (v, st) \<and>
     v_source v = DefaultSource \<and> v_userinfo v = None"
proof -
  obtain v st where "OAuth2ProxyOIDC example_lib example_network ''https://i'' = Inr (v, st)"
    by (simp add: OAuth2ProxyOIDC_def NewVerifier_def zero_Config_def example_found example_key_set)
  moreover from OAuth2ProxyOIDC_profile [OF this]
  have "v_source v = DefaultSource" "v_userinfo v = None"
    by (auto simp: example_found) (metis verifier.select_convs)+
  ultimately show ?thesis by blast
qed

lemma serve_keeps_state_sound_witness:
  "has_keys length (g_keys (serve example_lib example_verifier
     [(example_world, example_headers ''tok'' []), (example_world, example_headers ''x'' [])]
     example_state))"
  using serve_keeps_state_sound [OF example_NewVerifier]
  by (simp add: example_lib_def)

end
