(* ===== verification/Service.thy ===== *)
theory Service
  imports Profile
begin

text \<open>
  A verifier in service with its real concurrency: any number of \<open>Authenticate\<close> calls
  (\<open>verify.go\<close>), the key refresh loop (\<open>keyset.go\<close>) and the userinfo cache (\<open>userinfo.go\<close>)
  interleave at their accesses to shared state, which are the critical sections of the two
  mutexes. A call reads the key set once for the access token and once more for the cookie; its
  userinfo part is a call of \<open>fill_step\<close>.
\<close>

section \<open>State\<close>

text \<open>
  Where a call stands: received; with a token and the keys it was verified with in hand; with the
  mapped identity; with the keys for the cookie; past the cookie; in \<open>fill\<close>; answered.
\<close>

datatype 'ks call_pc =
    Received
  | Verifying string "'ks option"
  | Mapped string identity
  | Checking string identity "'ks option"
  | Merged string identity
  | Filling fill_pc
  | Answered "(auth_error, identity) result"

text \<open>
  A call carries its request, and as history the time it arrived and how many key sets had been
  replaced by then.
\<close>

record 'ks call =
  c_headers :: headers
  c_time :: int
  c_known :: nat
  c_pc :: "'ks call_pc"

text \<open>
  The shared state, the clock, and as history the key sets adopted since startup, the current one
  last, and the answers of the userinfo endpoint.
\<close>

record 'ks service =
  svc_keys :: "'ks keySet"
  svc_running :: bool
  svc_cache :: ui_cache
  svc_clock :: int
  svc_calls :: "nat \<Rightarrow> 'ks call option"
  svc_adopted :: "'ks list"
  svc_answers :: "(string \<times> string \<times> string \<times> string) set"

abbreviation move :: "'ks service \<Rightarrow> nat \<Rightarrow> 'ks call \<Rightarrow> 'ks call_pc \<Rightarrow> 'ks service" where
  "move s k c pc \<equiv> s\<lparr>svc_calls := (svc_calls s)(k \<mapsto> c\<lparr>c_pc := pc\<rparr>)\<rparr>"

text \<open>The userinfo part of the service, as the system of \<open>fill_step\<close>.\<close>

definition filling :: "'ks call option \<Rightarrow> fill_pc option" where
  "filling co = (case co of Some c \<Rightarrow> (case c_pc c of Filling pc \<Rightarrow> Some pc | _ \<Rightarrow> None) | None \<Rightarrow> None)"

definition ui_view :: "'ks service \<Rightarrow> fill_sys" where
  "ui_view s = \<lparr>sys_cache = svc_cache s, sys_calls = (\<lambda>k. filling (svc_calls s k)),
     sys_answers = svc_answers s\<rparr>"

section \<open>Steps\<close>

text \<open>Whether the display cookie is there to be verified.\<close>

definition wants_cookie :: "verifier \<Rightarrow> headers \<Rightarrow> identity \<Rightarrow> bool" where
  "wants_cookie v h i \<longleftrightarrow> Name i = [] \<and> Email i = [] \<and> v_displayCookie v \<noteq> [] \<and>
     cookieValue (h ''Cookie'') (v_displayCookie v) \<noteq> []"

definition after_cookie :: "'ks library \<Rightarrow> verifier \<Rightarrow> 'ks option \<Rightarrow> int \<Rightarrow> headers \<Rightarrow> identity \<Rightarrow> identity" where
  "after_cookie lib v ks now h i =
     fst (fillFromDisplayCookie lib v ks now h i \<lparr>cache = (\<lambda>_. None), trace = []\<rparr>)"

inductive svc_step :: "'ks library \<Rightarrow> verifier \<Rightarrow> 'ks service \<Rightarrow> 'ks service \<Rightarrow> bool" for lib v where
  arrive: "svc_calls s k = None \<Longrightarrow>
     c = \<lparr>c_headers = h, c_time = svc_clock s, c_known = length (svc_adopted s) - 1, c_pc = Received\<rparr> \<Longrightarrow>
     svc_step lib v s (s\<lparr>svc_calls := (svc_calls s)(k \<mapsto> c)\<rparr>)"
| no_credential: "svc_calls s k = Some c \<Longrightarrow> c_pc c = Received \<Longrightarrow>
     source_token (lib_orbit lib) (v_source v) (c_headers c) = None \<Longrightarrow>
     svc_step lib v s (move s k c (Answered (Inl ErrNoCredential)))"
| take_keys: "svc_calls s k = Some c \<Longrightarrow> c_pc c = Received \<Longrightarrow>
     source_token (lib_orbit lib) (v_source v) (c_headers c) = Some raw \<Longrightarrow>
     svc_step lib v s (move s k c (Verifying raw (keySet_Set (svc_keys s))))"
| refused: "svc_calls s k = Some c \<Longrightarrow> c_pc c = Verifying raw ks \<Longrightarrow>
     v_parse lib v ks (svc_clock s) raw = Inl err \<Longrightarrow>
     svc_step lib v s (move s k c (Answered (Inl ErrInvalidToken)))"
| accepted: "svc_calls s k = Some c \<Longrightarrow> c_pc c = Verifying raw ks \<Longrightarrow>
     v_parse lib v ks (svc_clock s) raw = Inr token \<Longrightarrow>
     svc_step lib v s (move s k c (Mapped raw (mapper_identity (v_mapper v) token raw)))"
| no_cookie: "svc_calls s k = Some c \<Longrightarrow> c_pc c = Mapped raw i \<Longrightarrow> \<not> wants_cookie v (c_headers c) i \<Longrightarrow>
     svc_step lib v s (move s k c (Merged raw i))"
| cookie_keys: "svc_calls s k = Some c \<Longrightarrow> c_pc c = Mapped raw i \<Longrightarrow> wants_cookie v (c_headers c) i \<Longrightarrow>
     svc_step lib v s (move s k c (Checking raw i (keySet_Set (svc_keys s))))"
| cookie: "svc_calls s k = Some c \<Longrightarrow> c_pc c = Checking raw i ks \<Longrightarrow>
     svc_step lib v s (move s k c (Merged raw (after_cookie lib v ks (svc_clock s) (c_headers c) i)))"
| displayed: "svc_calls s k = Some c \<Longrightarrow> c_pc c = Merged raw i \<Longrightarrow>
     v_userinfo v = None \<or> Name i \<noteq> [] \<or> Email i \<noteq> [] \<Longrightarrow>
     svc_step lib v s (move s k c (Answered (Inr i)))"
| ask: "svc_calls s k = Some c \<Longrightarrow> c_pc c = Merged raw i \<Longrightarrow>
     v_userinfo v \<noteq> None \<Longrightarrow> Name i = [] \<Longrightarrow> Email i = [] \<Longrightarrow>
     svc_step lib v s (move s k c (Filling (Looking i raw)))"
| fill: "svc_calls s k = Some c \<Longrightarrow> c_pc c = Filling pc \<Longrightarrow> v_userinfo v = Some uri \<Longrightarrow>
     fill_step uri net t (ui_view s) u \<Longrightarrow> sys_calls u = (sys_calls (ui_view s))(k \<mapsto> pc') \<Longrightarrow>
     svc_step lib v s
       (move (s\<lparr>svc_cache := sys_cache u, svc_answers := sys_answers u\<rparr>) k c (Filling pc'))"
| filled: "svc_calls s k = Some c \<Longrightarrow> c_pc c = Filling (Returned i j) \<Longrightarrow>
     svc_step lib v s (move s k c (Answered (Inr j)))"
| refresh: "svc_running s \<Longrightarrow>
     refresh (lib_jwk_Parse lib) (lib_jwk_Len lib) get (svc_keys s) = (None, keys) \<Longrightarrow>
     ks_keys keys = Some ks \<Longrightarrow>
     svc_step lib v s (s\<lparr>svc_keys := keys, svc_adopted := svc_adopted s @ [ks]\<rparr>)"
| refresh_failed: "svc_running s \<Longrightarrow>
     refresh (lib_jwk_Parse lib) (lib_jwk_Len lib) get (svc_keys s) = (Some err, keys) \<Longrightarrow>
     svc_step lib v s (s\<lparr>svc_keys := keys\<rparr>)"
| shutdown: "svc_step lib v s (s\<lparr>svc_running := False\<rparr>)"
| tick: "svc_clock s \<le> t \<Longrightarrow> svc_step lib v s (s\<lparr>svc_clock := t\<rparr>)"

text \<open>The service starts in the state \<open>NewVerifier\<close> leaves.\<close>

definition svc_init :: "'ks gate_state \<Rightarrow> int \<Rightarrow> 'ks service" where
  "svc_init st t = \<lparr>svc_keys = g_keys st, svc_running = True, svc_cache = cache (g_ui st),
     svc_clock = t, svc_calls = (\<lambda>_. None),
     svc_adopted = (case keySet_Set (g_keys st) of Some ks \<Rightarrow> [ks] | None \<Rightarrow> []),
     svc_answers = {}\<rparr>"

inductive svc_reachable ::
    "'ks library \<Rightarrow> verifier \<Rightarrow> 'ks gate_state \<Rightarrow> 'ks service \<Rightarrow> bool" for lib v st where
  init: "svc_reachable lib v st (svc_init st t)"
| step: "svc_reachable lib v st s \<Longrightarrow> svc_step lib v s s' \<Longrightarrow> svc_reachable lib v st s'"

section \<open>The invariant\<close>

text \<open>The key sets that were current at some time since a call arrived.\<close>

definition sets_during :: "'ks service \<Rightarrow> 'ks call \<Rightarrow> 'ks set" where
  "sets_during s c = set (drop (c_known c) (svc_adopted s))"

text \<open>Something held of one of them at some time since then.\<close>

definition during :: "'ks service \<Rightarrow> 'ks call \<Rightarrow> ('ks \<Rightarrow> int \<Rightarrow> bool) \<Rightarrow> bool" where
  "during s c P \<longleftrightarrow> (\<exists>ks \<in> sets_during s c. \<exists>now \<in> {c_time c..svc_clock s}. P ks now)"

text \<open>\<open>m\<close> is what a verification during the call made of the token \<open>raw\<close> of its request.\<close>

definition verified_as ::
    "'ks library \<Rightarrow> verifier \<Rightarrow> 'ks service \<Rightarrow> 'ks call \<Rightarrow> string \<Rightarrow> identity \<Rightarrow> bool" where
  "verified_as lib v s c raw m \<longleftrightarrow>
     source_token (lib_orbit lib) (v_source v) (c_headers c) = Some raw \<and>
     during s c (\<lambda>ks now. \<exists>token. v_parse lib v (Some ks) now raw = Inr token \<and>
       m = mapper_identity (v_mapper v) token raw)"

text \<open>A name and an email the fallbacks may show for a subject.\<close>

definition display_source ::
    "'ks library \<Rightarrow> verifier \<Rightarrow> 'ks service \<Rightarrow> 'ks call \<Rightarrow> string \<Rightarrow> string \<Rightarrow> string \<Rightarrow> bool" where
  "display_source lib v s c subject n e \<longleftrightarrow>
     during s c (\<lambda>ks now. cookie_says lib v (Some ks) now (c_headers c) subject n e) \<or>
     (v_userinfo v \<noteq> None \<and> said_of (ui_view s) subject n e)"

definition shown_as ::
    "'ks library \<Rightarrow> verifier \<Rightarrow> 'ks service \<Rightarrow> 'ks call \<Rightarrow> identity \<Rightarrow> identity \<Rightarrow> bool" where
  "shown_as lib v s c m j \<longleftrightarrow> j = m \<or>
     (Name m = [] \<and> Email m = [] \<and>
      (\<exists>n e. j = set_display m n e \<and> display_source lib v s c (Subject m) n e))"

definition owned ::
    "'ks library \<Rightarrow> verifier \<Rightarrow> 'ks service \<Rightarrow> 'ks call \<Rightarrow> string \<Rightarrow> identity \<Rightarrow> bool" where
  "owned lib v s c raw j \<longleftrightarrow> (\<exists>m. verified_as lib v s c raw m \<and> shown_as lib v s c m j)"

definition refused_as ::
    "'ks library \<Rightarrow> verifier \<Rightarrow> 'ks service \<Rightarrow> 'ks call \<Rightarrow> auth_error \<Rightarrow> bool" where
  "refused_as lib v s c e \<longleftrightarrow>
     (case source_token (lib_orbit lib) (v_source v) (c_headers c) of
        None \<Rightarrow> e = ErrNoCredential
      | Some raw \<Rightarrow> e = ErrInvalidToken \<and>
          during s c (\<lambda>ks now. \<exists>why. v_parse lib v (Some ks) now raw = Inl why))"

fun fill_caller :: "fill_pc \<Rightarrow> identity" where
  "fill_caller (Looking i tok) = i"
| "fill_caller (Asking i tok) = i"
| "fill_caller (Storing i n m) = i"
| "fill_caller (Returned i j) = i"

fun pc_ok :: "'ks library \<Rightarrow> verifier \<Rightarrow> 'ks service \<Rightarrow> 'ks call \<Rightarrow> 'ks call_pc \<Rightarrow> bool" where
  "pc_ok lib v s c Received = True"
| "pc_ok lib v s c (Verifying raw ks) =
     (source_token (lib_orbit lib) (v_source v) (c_headers c) = Some raw \<and>
      (\<exists>k \<in> sets_during s c. ks = Some k))"
| "pc_ok lib v s c (Mapped raw i) = verified_as lib v s c raw i"
| "pc_ok lib v s c (Checking raw i ks) =
     (verified_as lib v s c raw i \<and> Name i = [] \<and> Email i = [] \<and> (\<exists>k \<in> sets_during s c. ks = Some k))"
| "pc_ok lib v s c (Merged raw i) = owned lib v s c raw i"
| "pc_ok lib v s c (Filling pc) =
     (v_userinfo v \<noteq> None \<and> Name (fill_caller pc) = [] \<and> Email (fill_caller pc) = [] \<and>
      (\<exists>raw. owned lib v s c raw (fill_caller pc)))"
| "pc_ok lib v s c (Answered (Inl e)) = refused_as lib v s c e"
| "pc_ok lib v s c (Answered (Inr j)) = (\<exists>raw. owned lib v s c raw j)"

definition svc_inv :: "'ks library \<Rightarrow> verifier \<Rightarrow> 'ks service \<Rightarrow> bool" where
  "svc_inv lib v s \<longleftrightarrow>
     svc_adopted s \<noteq> [] \<and> keySet_Set (svc_keys s) = Some (last (svc_adopted s)) \<and>
     (\<forall>ks \<in> set (svc_adopted s). 0 < lib_jwk_Len lib ks) \<and> fill_inv (ui_view s) \<and>
     (\<forall>k c. svc_calls s k = Some c \<longrightarrow>
        c_known c < length (svc_adopted s) \<and> c_time c \<le> svc_clock s \<and> pc_ok lib v s c (c_pc c))"

subsection \<open>What only grows\<close>

definition grows :: "'ks service \<Rightarrow> 'ks service \<Rightarrow> bool" where
  "grows s s' \<longleftrightarrow> (\<exists>ext. svc_adopted s' = svc_adopted s @ ext) \<and> svc_clock s \<le> svc_clock s' \<and>
     svc_answers s \<subseteq> svc_answers s'"

lemma grows_refl [simp]: "grows s s"
  by (simp add: grows_def)

lemma grows_sets_during: "grows s s' \<Longrightarrow> sets_during s c \<subseteq> sets_during s' c"
  by (auto simp: grows_def sets_during_def)

lemma grows_during: "grows s s' \<Longrightarrow> during s c P \<Longrightarrow> during s' c P"
  using grows_sets_during [of s s' c] by (fastforce simp: grows_def during_def)

lemma during_now:
  "ks \<in> sets_during s c \<Longrightarrow> c_time c \<le> svc_clock s \<Longrightarrow> P ks (svc_clock s) \<Longrightarrow> during s c P"
  unfolding during_def by fastforce

lemma grows_said_of: "grows s s' \<Longrightarrow> said_of (ui_view s) a n e \<Longrightarrow> said_of (ui_view s') a n e"
  by (auto simp: grows_def said_of_def ui_view_def)

lemma verified_as_mono: "grows s s' \<Longrightarrow> verified_as lib v s c raw m \<Longrightarrow> verified_as lib v s' c raw m"
  by (auto simp: verified_as_def intro: grows_during)

lemma display_source_mono:
  "grows s s' \<Longrightarrow> display_source lib v s c a n e \<Longrightarrow> display_source lib v s' c a n e"
  by (auto simp: display_source_def intro: grows_during grows_said_of)

lemma owned_mono: "grows s s' \<Longrightarrow> owned lib v s c raw j \<Longrightarrow> owned lib v s' c raw j"
  unfolding owned_def shown_as_def using verified_as_mono display_source_mono by blast

lemma refused_as_mono: "grows s s' \<Longrightarrow> refused_as lib v s c e \<Longrightarrow> refused_as lib v s' c e"
  by (auto simp: refused_as_def intro: grows_during split: option.splits)

lemma pc_ok_mono: "grows s s' \<Longrightarrow> pc_ok lib v s c pc \<Longrightarrow> pc_ok lib v s' c pc"
  using grows_sets_during [of s s' c]
  by (induction lib v s c pc rule: pc_ok.induct)
    (auto intro: verified_as_mono owned_mono refused_as_mono)

lemma call_frame [simp]:
  "sets_during s (c\<lparr>c_pc := x\<rparr>) = sets_during s c"
  "sets_during (s\<lparr>svc_calls := f\<rparr>) c = sets_during s c"
  "during s (c\<lparr>c_pc := x\<rparr>) P = during s c P"
  "verified_as lib v s (c\<lparr>c_pc := x\<rparr>) raw m = verified_as lib v s c raw m"
  "owned lib v s (c\<lparr>c_pc := x\<rparr>) raw m = owned lib v s c raw m"
  "refused_as lib v s (c\<lparr>c_pc := x\<rparr>) e = refused_as lib v s c e"
  by (simp_all add: sets_during_def during_def verified_as_def owned_def refused_as_def
      shown_as_def display_source_def split: option.split)

lemma pc_ok_frame [simp]: "pc_ok lib v s (c\<lparr>c_pc := x\<rparr>) pc = pc_ok lib v s c pc"
  by (induction lib v s c pc rule: pc_ok.induct) simp_all

subsection \<open>Every step keeps it\<close>

lemma fill_inv_sub:
  assumes "fill_inv u" and "sys_cache u' = sys_cache u" and "sys_answers u' = sys_answers u"
    and "\<And>k pc. sys_calls u' k = Some pc \<Longrightarrow> sys_calls u k = Some pc \<or> call_ok u pc"
  shows "fill_inv u'"
proof -
  have "said_of u' = said_of u"
    using assms(3) by (simp add: said_of_def fun_eq_iff)
  moreover from this have "call_ok u' pc = call_ok u pc" for pc
    by (cases pc) simp_all
  ultimately show ?thesis
    using assms unfolding fill_inv_def by metis
qed

lemma ui_view_sel [simp]:
  "sys_cache (ui_view s) = svc_cache s"
  "sys_answers (ui_view s) = svc_answers s"
  "sys_calls (ui_view s) k = filling (svc_calls s k)"
  by (simp_all add: ui_view_def)

lemma filling_simps [simp]:
  "filling None = None"
  "c_pc c = Filling pc \<Longrightarrow> filling (Some c) = Some pc"
  "(\<And>pc. c_pc c \<noteq> Filling pc) \<Longrightarrow> filling (Some c) = None"
  by (auto simp: filling_def split: call_pc.split)

text \<open>The invariant of the parts the calls share.\<close>

definition shared_inv :: "'ks library \<Rightarrow> 'ks service \<Rightarrow> bool" where
  "shared_inv lib s \<longleftrightarrow> svc_adopted s \<noteq> [] \<and> keySet_Set (svc_keys s) = Some (last (svc_adopted s)) \<and>
     (\<forall>ks \<in> set (svc_adopted s). 0 < lib_jwk_Len lib ks)"

lemma svc_inv_shared: "svc_inv lib v s \<Longrightarrow> shared_inv lib s"
  by (simp add: svc_inv_def shared_inv_def)

text \<open>Any change of the shared parts that lets them grow.\<close>

lemma svc_inv_shared_step:
  assumes "svc_inv lib v s" and "grows s s'" and "svc_calls s' = svc_calls s"
    and "shared_inv lib s'" and "fill_inv (ui_view s')"
  shows "svc_inv lib v s'"
proof -
  have "c_known c < length (svc_adopted s') \<and> c_time c \<le> svc_clock s' \<and> pc_ok lib v s' c (c_pc c)"
    if "svc_calls s k = Some c" for k c
    using assms(1,2) that pc_ok_mono [OF assms(2)] by (fastforce simp: svc_inv_def grows_def)
  with assms(3-5) show ?thesis
    by (simp add: svc_inv_def shared_inv_def)
qed

text \<open>A step of one call, to a point of it that is all right.\<close>

lemma svc_inv_move:
  assumes "svc_inv lib v s" and "svc_calls s k = Some c" and "pc_ok lib v s c pc"
    and "\<And>p. pc = Filling p \<Longrightarrow> call_ok (ui_view s) p"
  shows "svc_inv lib v (move s k c pc)"
proof -
  let ?s' = "move s k c pc"
  have "fill_inv (ui_view ?s')"
  proof (rule fill_inv_sub [of "ui_view s"])
    fix j p
    assume j: "sys_calls (ui_view ?s') j = Some p"
    show "sys_calls (ui_view s) j = Some p \<or> call_ok (ui_view s) p"
    proof (cases "j = k")
      case True
      with j have "pc = Filling p" by (cases pc) auto
      then show ?thesis using assms(4) by blast
    qed (use j in simp)
  qed (use assms(1) in \<open>simp_all add: svc_inv_def\<close>)
  moreover have "grows s ?s'"
    by (simp add: grows_def)
  then have "pc_ok lib v ?s' c' pc'" if "pc_ok lib v s c' pc'" for c' pc'
    using that by (rule pc_ok_mono)
  ultimately show ?thesis
    using assms(1-3) by (auto simp: svc_inv_def)
qed

lemma current_in_sets:
  "svc_inv lib v s \<Longrightarrow> svc_calls s k = Some c \<Longrightarrow>
     keySet_Set (svc_keys s) = Some (last (svc_adopted s)) \<and> last (svc_adopted s) \<in> sets_during s c \<and>
     svc_clock s \<in> {c_time c..svc_clock s}"
  by (auto simp: svc_inv_def sets_during_def) (metis last_drop last_in_set drop_eq_Nil not_less)

text \<open>What a step of \<open>fill\<close> does to the call that takes it.\<close>

lemma fill_step_call:
  assumes "fill_step uri net t u u'"
  shows "sys_answers u \<subseteq> sys_answers u' \<and>
     (\<forall>k pc pc'. sys_calls u k = Some pc \<longrightarrow> sys_calls u' k = Some pc' \<longrightarrow>
        fill_caller pc' = fill_caller pc)"
  using assms by (induction rule: fill_step.induct) (auto simp: answered_def)

lemma cookie_owned:
  assumes "verified_as lib v s c raw i" and "Name i = []" and "Email i = []"
    and "ks \<in> sets_during s c" and "c_time c \<le> svc_clock s"
  shows "owned lib v s c raw (after_cookie lib v (Some ks) (svc_clock s) (c_headers c) i)"
proof -
  let ?j = "after_cookie lib v (Some ks) (svc_clock s) (c_headers c) i"
  have "?j = i \<or> (\<exists>n e. ?j = set_display i n e \<and>
      cookie_says lib v (Some ks) (svc_clock s) (c_headers c) (Subject i) n e)"
    using fillFromDisplayCookie_says [where lib = lib and v = v and ks = "Some ks" and i = i
        and h = "c_headers c" and now = "svc_clock s" and ui = "\<lparr>cache = (\<lambda>_. None), trace = []\<rparr>"]
    by (auto simp: after_cookie_def)
  then have "shown_as lib v s c i ?j"
    using assms(2-5) by (auto simp: shown_as_def display_source_def intro: during_now)
  with assms(1) show ?thesis
    by (auto simp: owned_def)
qed

lemma same_authorization_display:
  "same_authorization j i \<Longrightarrow> j = set_display i (Name j) (Email j)"
  by (cases i; cases j) (simp add: same_authorization_def set_display_def)

lemma owned_set_display:
  assumes "owned lib v s c raw i" and "Name i = []" and "Email i = []" and "v_userinfo v \<noteq> None"
    and "same_authorization j i" and "j = i \<or> said_of (ui_view s) (Subject i) (Name j) (Email j)"
  shows "owned lib v s c raw j"
proof (cases "j = i")
  case False
  obtain m where m: "verified_as lib v s c raw m" "shown_as lib v s c m i"
    using assms(1) by (auto simp: owned_def)
  then have "Name m = [] \<and> Email m = [] \<and> Subject m = Subject i \<and>
      set_display i (Name j) (Email j) = set_display m (Name j) (Email j)"
    using assms(2,3) by (auto simp: shown_as_def)
  moreover have "display_source lib v s c (Subject i) (Name j) (Email j)"
    using False assms(4,6) by (simp add: display_source_def)
  ultimately have "shown_as lib v s c m j"
    using same_authorization_display [OF assms(5)] unfolding shown_as_def by metis
  with m(1) show ?thesis
    by (auto simp: owned_def)
qed (use assms(1) in simp)

lemma svc_inv_callD:
  "svc_inv lib v s \<Longrightarrow> svc_calls s k = Some c \<Longrightarrow> c_pc c = pc \<Longrightarrow>
     pc_ok lib v s c pc \<and> c_time c \<le> svc_clock s"
  by (auto simp: svc_inv_def)

lemma ui_view_frame [simp]:
  "ui_view (s\<lparr>svc_keys := a\<rparr>) = ui_view s"
  "ui_view (s\<lparr>svc_adopted := b\<rparr>) = ui_view s"
  "ui_view (s\<lparr>svc_running := r\<rparr>) = ui_view s"
  "ui_view (s\<lparr>svc_clock := t\<rparr>) = ui_view s"
  by (simp_all add: ui_view_def)

lemma svc_inv_fill:
  assumes inv: "svc_inv lib v s" and c: "svc_calls s k = Some c" "c_pc c = Filling pc"
    and st: "fill_step uri net t (ui_view s) u" and u: "sys_calls u = (sys_calls (ui_view s))(k \<mapsto> pc')"
  shows "svc_inv lib v (move (s\<lparr>svc_cache := sys_cache u, svc_answers := sys_answers u\<rparr>) k c (Filling pc'))"
proof -
  let ?s1 = "s\<lparr>svc_cache := sys_cache u, svc_answers := sys_answers u\<rparr>"
  let ?s' = "move ?s1 k c (Filling pc')"
  have "fill_inv u"
    using fill_step_inv [OF st] inv by (simp add: svc_inv_def)
  moreover have "ui_view ?s' = u"
    using u by (cases u) (auto simp: ui_view_def fun_eq_iff)
  moreover have "sys_calls (ui_view s) k = Some pc" and "sys_calls u k = Some pc'"
    using c u by simp_all
  with fill_step_call [OF st] have caller: "fill_caller pc' = fill_caller pc"
    and "svc_answers s \<subseteq> sys_answers u"
    by auto
  then have "grows s ?s'"
    by (simp add: grows_def)
  then have ok: "pc_ok lib v ?s' c' p" if "pc_ok lib v s c' p" for c' p
    using that by (rule pc_ok_mono)
  have "pc_ok lib v s c (Filling pc)"
    using svc_inv_callD [OF inv c] by blast
  then have "pc_ok lib v ?s' c (Filling pc')"
    using ok [of c "Filling pc"] caller by simp
  ultimately show ?thesis
    using inv c(1) ok by (auto simp: svc_inv_def)
qed

lemma svc_inv_arrive:
  assumes "svc_inv lib v s" and "svc_calls s k = None"
  shows "svc_inv lib v (s\<lparr>svc_calls := (svc_calls s)(k \<mapsto> \<lparr>c_headers = h, c_time = svc_clock s,
     c_known = length (svc_adopted s) - 1, c_pc = Received\<rparr>)\<rparr>)" (is "svc_inv lib v ?s'")
proof -
  have "fill_inv (ui_view ?s')"
    by (rule fill_inv_sub [of "ui_view s"])
      (use assms in \<open>auto simp: svc_inv_def split: if_splits\<close>)
  moreover have "grows s ?s'"
    by (simp add: grows_def)
  then have "pc_ok lib v ?s' c p" if "pc_ok lib v s c p" for c p
    using that by (rule pc_ok_mono)
  ultimately show ?thesis
    using assms by (auto simp: svc_inv_def)
qed

lemma svc_step_inv: "svc_step lib v s s' \<Longrightarrow> svc_inv lib v s \<Longrightarrow> svc_inv lib v s'"
proof (induction rule: svc_step.induct)
  case (arrive s k c h)
  then show ?case by (simp only: svc_inv_arrive)
next
  case (no_credential s k c)
  then show ?case by (intro svc_inv_move) (simp_all add: refused_as_def)
next
  case (take_keys s k c raw)
  then show ?case
    using current_in_sets [of lib v s k c] by (intro svc_inv_move) auto
next
  case (refused s k c raw ks err)
  then have "pc_ok lib v s c (Verifying raw ks)" and "c_time c \<le> svc_clock s"
    using svc_inv_callD by blast+
  with refused show ?case
    by (intro svc_inv_move) (auto simp: refused_as_def intro: during_now)
next
  case (accepted s k c raw ks token)
  then have "pc_ok lib v s c (Verifying raw ks)" and "c_time c \<le> svc_clock s"
    using svc_inv_callD by blast+
  with accepted show ?case
    by (intro svc_inv_move) (auto simp: verified_as_def intro: during_now)
next
  case (no_cookie s k c raw i)
  then have "pc_ok lib v s c (Mapped raw i)"
    using svc_inv_callD by blast
  with no_cookie show ?case
    by (intro svc_inv_move) (auto simp: owned_def shown_as_def)
next
  case (cookie_keys s k c raw i)
  then have "pc_ok lib v s c (Mapped raw i)"
    using svc_inv_callD by blast
  with cookie_keys show ?case
    using current_in_sets [of lib v s k c] by (intro svc_inv_move) (auto simp: wants_cookie_def)
next
  case (cookie s k c raw i ks)
  then have "pc_ok lib v s c (Checking raw i ks)" and "c_time c \<le> svc_clock s"
    using svc_inv_callD by blast+
  with cookie show ?case
    by (intro svc_inv_move) (auto intro: cookie_owned)
next
  case (displayed s k c raw i)
  then have "pc_ok lib v s c (Merged raw i)"
    using svc_inv_callD by blast
  with displayed show ?case
    by (intro svc_inv_move) auto
next
  case (ask s k c raw i)
  then have "pc_ok lib v s c (Merged raw i)"
    using svc_inv_callD by blast
  with ask show ?case
    by (intro svc_inv_move) auto
next
  case (fill s k c pc uri net t u pc')
  then show ?case by (intro svc_inv_fill)
next
  case (filled s k c i j)
  then have pc: "pc_ok lib v s c (Filling (Returned i j))" and fi: "fill_inv (ui_view s)"
    using svc_inv_callD by (blast, simp add: svc_inv_def)
  from filled have "sys_calls (ui_view s) k = Some (Returned i j)"
    by simp
  with fi have "call_ok (ui_view s) (Returned i j)"
    unfolding fill_inv_def by blast
  with pc filled show ?case
    by (intro svc_inv_move) (auto intro: owned_set_display)
next
  case (refresh s get keys ks)
  then have "has_keys (lib_jwk_Len lib) keys"
    using keys.success_good [of "lib_jwk_Parse lib" "lib_jwk_Len lib" get "svc_keys s"] by simp
  with refresh(3) have "0 < lib_jwk_Len lib ks" and "keySet_Set keys = Some ks"
    by (auto simp: has_keys_def keySet_Set_def)
  with svc_inv_shared [OF refresh(4)]
  have "shared_inv lib (s\<lparr>svc_keys := keys, svc_adopted := svc_adopted s @ [ks]\<rparr>)"
    by (auto simp: shared_inv_def)
  with refresh(4) show ?case
    by (intro svc_inv_shared_step [OF refresh(4)]) (simp_all add: grows_def svc_inv_def)
next
  case (refresh_failed s get err keys)
  then have "keys = svc_keys s"
    using keys.failure_keeps [of "lib_jwk_Parse lib" "lib_jwk_Len lib" get "svc_keys s"] by simp
  with refresh_failed show ?case by simp
next
  case (shutdown s)
  then show ?case
    using svc_inv_shared [OF shutdown]
    by (intro svc_inv_shared_step [OF shutdown]) (simp_all add: grows_def shared_inv_def svc_inv_def)
next
  case (tick s t)
  then show ?case
    using svc_inv_shared [OF tick(2)]
    by (intro svc_inv_shared_step [OF tick(2)]) (simp_all add: grows_def shared_inv_def svc_inv_def)
qed

lemma svc_init_inv:
  assumes "NewVerifier lib get cfg = Inr (v, st)"
  shows "svc_inv lib v (svc_init st t)"
proof -
  have "has_keys (lib_jwk_Len lib) (g_keys st)" and "g_ui st = \<lparr>cache = (\<lambda>_. None), trace = []\<rparr>"
    using assms by (auto elim!: NewVerifier_okE intro: newKeySet_good)
  then show ?thesis
    by (auto simp: svc_inv_def svc_init_def has_keys_def fill_inv_def ui_view_def)
qed

lemma svc_reachable_inv:
  assumes "NewVerifier lib get cfg = Inr (v, st)" and "svc_reachable lib v st s"
  shows "svc_inv lib v s"
  using assms(2)
proof induction
  case (init t)
  show ?case by (rule svc_init_inv [OF assms(1)])
next
  case (step s s')
  then show ?case by (blast intro: svc_step_inv)
qed

section \<open>What an answer proves\<close>

lemma owned_authorization:
  "owned lib v s c raw j \<Longrightarrow> \<exists>m. verified_as lib v s c raw m \<and> same_authorization j m"
  by (auto simp: owned_def shown_as_def)

lemma answered_proven:
  assumes "NewVerifier lib get cfg = Inr (v, st)" and "jwt_contract lib signed"
    and "svc_reachable lib v st s" and "svc_calls s k = Some c" and "c_pc c = Answered (Inr j)"
  shows "\<exists>ks \<in> set (drop (c_known c) (svc_adopted s)). \<exists>now \<in> {c_time c..svc_clock s}.
     0 < lib_jwk_Len lib ks \<and> identity_proven signed lib v ks now (c_headers c) j"
proof -
  have inv: "svc_inv lib v s"
    by (rule svc_reachable_inv [OF assms(1,3)])
  from svc_inv_callD [OF inv assms(4,5)] obtain raw where "owned lib v s c raw j"
    by auto
  then obtain m where m: "verified_as lib v s c raw m" "same_authorization j m"
    using owned_authorization by blast
  then obtain ks now token where ks: "ks \<in> sets_during s c" and now: "now \<in> {c_time c..svc_clock s}"
    and parse: "v_parse lib v (Some ks) now raw = Inr token"
    and map: "m = mapper_identity (v_mapper v) token raw"
    and raw: "source_token (lib_orbit lib) (v_source v) (c_headers c) = Some raw"
    by (auto simp: verified_as_def during_def)
  have "Token j = raw"
    using m(2) map by (simp add: same_authorization_def)
  then have "identity_proven signed lib v ks now (c_headers c) j"
    using raw m(2) map v_parse_proven [OF assms(2) parse] by (auto simp: identity_proven_def)
  moreover have "0 < lib_jwk_Len lib ks"
    using inv ks set_drop_subset by (fastforce simp: svc_inv_def sets_during_def)
  ultimately show ?thesis
    using ks now unfolding sets_during_def by blast
qed

text \<open>C5: with any number of requests and refreshes interleaving, an identity is answered only for
  the request's own token, verified at some time during the request under a non-empty key set
  that was current at some time during the request; subject, roles, token and claims are the
  verified token's.\<close>

theorem service_sound:
  assumes "NewVerifier lib get cfg = Inr (v, st)" and "jwt_contract lib signed"
    and "svc_reachable lib v st s" and "svc_calls s k = Some c" and "c_pc c = Answered (Inr j)"
  shows "\<exists>ks \<in> set (drop (c_known c) (svc_adopted s)). \<exists>now \<in> {c_time c..svc_clock s}.
     0 < lib_jwk_Len lib ks \<and> identity_proven signed lib v ks now (c_headers c) j"
  by (rule answered_proven [OF assms])

text \<open>C9: what concurrent requests display: the access token's own name and email, and only if it
  has neither, those of the request's own cookie token, verified during the request for the same
  subject, or those of an answer the userinfo endpoint gave about that subject.\<close>

theorem service_display:
  assumes "NewVerifier lib get cfg = Inr (v, st)" and "svc_reachable lib v st s"
    and "svc_calls s k = Some c" and "c_pc c = Answered (Inr j)"
  shows "\<exists>m. verified_as lib v s c (Token j) m \<and> same_authorization j m \<and>
     (j = m \<or>
      (Name m = [] \<and> Email m = [] \<and>
       (during s c (\<lambda>ks now. cookie_says lib v (Some ks) now (c_headers c) (Subject j) (Name j) (Email j)) \<or>
        v_userinfo v \<noteq> None \<and> said_of (ui_view s) (Subject j) (Name j) (Email j))))"
proof -
  have inv: "svc_inv lib v s"
    by (rule svc_reachable_inv [OF assms(1,2)])
  from svc_inv_callD [OF inv assms(3,4)] obtain raw m where m: "verified_as lib v s c raw m"
    and j: "shown_as lib v s c m j"
    by (auto simp: owned_def)
  have auth: "same_authorization j m"
    using j by (auto simp: shown_as_def)
  moreover have "Token j = raw"
    using m auth by (auto simp: verified_as_def during_def same_authorization_def)
  ultimately show ?thesis
    using m j by (auto simp: shown_as_def display_source_def)
qed

text \<open>C11: a request is rejected only for a reason of its own: it carries no token, or its token was
  refused during the request under a key set current then; whatever other requests, refreshes
  and the userinfo endpoint do, nothing else rejects it.\<close>

theorem service_errors:
  assumes "NewVerifier lib get cfg = Inr (v, st)" and "svc_reachable lib v st s"
    and "svc_calls s k = Some c" and "c_pc c = Answered (Inl e)"
  shows "case source_token (lib_orbit lib) (v_source v) (c_headers c) of
       None \<Rightarrow> e = ErrNoCredential
     | Some raw \<Rightarrow> e = ErrInvalidToken \<and>
         during s c (\<lambda>ks now. \<exists>why. v_parse lib v (Some ks) now raw = Inl why)"
  using svc_inv_callD [OF svc_reachable_inv [OF assms(1,2)] assms(3,4)]
  by (simp add: refused_as_def)

section \<open>Every request is answered\<close>

text \<open>The steps of its own a call has at most left.\<close>

fun fill_left :: "fill_pc \<Rightarrow> nat" where
  "fill_left (Looking i tok) = 4"
| "fill_left (Asking i tok) = 3"
| "fill_left (Storing i n m) = 2"
| "fill_left (Returned i j) = 1"

fun steps_left :: "'ks call_pc \<Rightarrow> nat" where
  "steps_left Received = 9"
| "steps_left (Verifying raw ks) = 8"
| "steps_left (Mapped raw i) = 7"
| "steps_left (Checking raw i ks) = 6"
| "steps_left (Merged raw i) = 5"
| "steps_left (Filling pc) = fill_left pc"
| "steps_left (Answered r) = 0"

lemma fill_step_left:
  "fill_step uri net t u u' \<Longrightarrow> sys_calls u k = Some pc \<Longrightarrow> sys_calls u' k = Some pc' \<Longrightarrow>
     pc' = pc \<or> fill_left pc' < fill_left pc"
  by (induction rule: fill_step.induct) (auto split: if_splits)

lemma fill_left_bounds: "fill_left pc \<le> 4"
  by (cases pc) simp_all

lemma steps_left_bounds: "steps_left pc \<le> 9"
  by (cases pc) (simp_all add: le_trans [OF fill_left_bounds])

lemma svc_step_left:
  assumes "svc_step lib v s s'" and "svc_calls s k = Some c"
  shows "\<exists>c'. svc_calls s' k = Some c' \<and> (c' = c \<or> steps_left (c_pc c') < steps_left (c_pc c))"
  using assms
proof (induction rule: svc_step.induct)
  case (fill s k' c' pc uri net t u pc')
  show ?case
  proof (cases "k' = k")
    case True
    with fill have "sys_calls (ui_view s) k = Some pc" and "sys_calls u k = Some pc'"
      by simp_all
    with fill_step_left [OF fill(4)] have "pc' = pc \<or> fill_left pc' < fill_left pc"
      by blast
    with True fill show ?thesis
      by auto
  qed (use fill in simp)
qed auto

lemma svc_step_headers:
  "svc_step lib v s s' \<Longrightarrow> svc_calls s k = Some c \<Longrightarrow> svc_calls s' k = Some c' \<Longrightarrow>
     c_headers c' = c_headers c"
  by (induction rule: svc_step.induct) (auto split: if_splits)

text \<open>A run of the service in which call \<open>k\<close> took \<open>n\<close> steps.\<close>

inductive svc_run ::
    "'ks library \<Rightarrow> verifier \<Rightarrow> nat \<Rightarrow> nat \<Rightarrow> 'ks service \<Rightarrow> 'ks service \<Rightarrow> bool" for lib v k where
  start: "svc_run lib v k 0 s s"
| other: "svc_run lib v k n s s' \<Longrightarrow> svc_step lib v s' s'' \<Longrightarrow> svc_calls s'' k = svc_calls s' k \<Longrightarrow>
     svc_run lib v k n s s''"
| own: "svc_run lib v k n s s' \<Longrightarrow> svc_step lib v s' s'' \<Longrightarrow> svc_calls s'' k \<noteq> svc_calls s' k \<Longrightarrow>
     svc_run lib v k (Suc n) s s''"

lemma svc_run_left:
  "svc_run lib v k n s s' \<Longrightarrow> svc_calls s k = Some c \<Longrightarrow>
     \<exists>c'. svc_calls s' k = Some c' \<and> n + steps_left (c_pc c') \<le> steps_left (c_pc c)"
proof (induction rule: svc_run.induct)
  case (own n s s' s'')
  then obtain c' where c': "svc_calls s' k = Some c'" "n + steps_left (c_pc c') \<le> steps_left (c_pc c)"
    by blast
  with svc_step_left [OF own(2) c'(1)] own(3) show ?case
    by auto
qed auto

text \<open>C13: under every schedule of the other requests and refreshes a received request takes at most
  nine steps of its own until it is answered, and it never leaves the service.\<close>

theorem service_bounded:
  assumes "svc_run lib v k n s s'" and "svc_calls s k = Some c"
  shows "n \<le> 9 \<and> (\<exists>c'. svc_calls s' k = Some c' \<and> (n < 9 \<or> (\<exists>r. c_pc c' = Answered r)))"
proof -
  obtain c' where c': "svc_calls s' k = Some c'" "n + steps_left (c_pc c') \<le> steps_left (c_pc c)"
    using svc_run_left [OF assms] by blast
  then have "n + steps_left (c_pc c') \<le> 9"
    using steps_left_bounds le_trans by blast
  moreover have "steps_left (c_pc c') = 0 \<Longrightarrow> \<exists>r. c_pc c' = Answered r"
    by (cases "c_pc c'" rule: steps_left.cases) (auto elim: fill_left.elims)
  ultimately show ?thesis
    using c'(1) by fastforce
qed

text \<open>
  A step of call \<open>k\<close> alone. Where it is a step of \<open>fill\<close>, it is one that the endpoint \<open>net\<close> and
  the time \<open>t\<close> determine.
\<close>

definition own_step ::
    "'ks library \<Rightarrow> verifier \<Rightarrow> nat \<Rightarrow> userinfo_net \<Rightarrow> int \<Rightarrow> 'ks service \<Rightarrow> 'ks service \<Rightarrow> bool" where
  "own_step lib v k net t s s' \<longleftrightarrow> svc_step lib v s s' \<and> svc_calls s' k \<noteq> svc_calls s k \<and>
     (\<forall>k'. k' \<noteq> k \<longrightarrow> svc_calls s' k' = svc_calls s k') \<and> svc_keys s' = svc_keys s \<and>
     (\<forall>pc pc' uri. filling (svc_calls s k) = Some pc \<longrightarrow> filling (svc_calls s' k) = Some pc' \<longrightarrow>
        v_userinfo v = Some uri \<longrightarrow> fill_step uri net t (ui_view s) (ui_view s'))"

lemma own_step_move:
  "svc_step lib v s (move s k c pc) \<Longrightarrow> svc_calls s k = Some c \<Longrightarrow> c_pc c \<noteq> pc \<Longrightarrow>
     (\<forall>p. pc \<noteq> Filling p) \<or> (\<forall>p. c_pc c \<noteq> Filling p) \<Longrightarrow>
     own_step lib v k net t s (move s k c pc)"
  unfolding own_step_def by (auto simp: filling_def split: call_pc.splits dest: arg_cong [where f = c_pc])

text \<open>Whatever the endpoint does, and whatever the clock reads, a call of \<open>fill\<close> goes on.\<close>

lemma fill_progress:
  assumes "sys_calls u k = Some pc" and "\<And>i j. pc \<noteq> Returned i j"
  shows "\<exists>u' pc'. fill_step uri net t u u' \<and> sys_calls u' = (sys_calls u)(k \<mapsto> pc') \<and> pc' \<noteq> pc"
proof (cases pc)
  case (Looking i tok)
  show ?thesis
  proof (cases "cached_entry (sys_cache u) (Subject i) t")
    case None
    from fill_step.miss [OF _ None] assms(1) Looking show ?thesis
      by (intro exI [of _ "goto u k (Asking i tok)"] exI [of _ "Asking i tok"]) simp
  next
    case (Some e)
    let ?pc = "Returned i (set_display i (ui_name e) (ui_email e))"
    from fill_step.hit [OF _ Some] assms(1) Looking show ?thesis
      by (intro exI [of _ "goto u k ?pc"] exI [of _ ?pc]) simp
  qed
next
  case (Asking i tok)
  with assms(1) have asking: "sys_calls u k = Some (Asking i tok)" by simp
  show ?thesis
  proof (cases "ask_userinfo uri net tok")
    case NoRequest
    from fill_step.no_request [OF asking this] Asking show ?thesis
      by (intro exI [of _ "goto u k (Returned i i)"] exI [of _ "Returned i i"]) simp
  next
    case (AskFailed l)
    from fill_step.ask_failed [OF asking this] Asking show ?thesis
      by (intro exI [of _ "goto u k (Returned i i)"] exI [of _ "Returned i i"]) simp
  next
    case (Answer sub n m)
    show ?thesis
    proof (cases "sub = Subject i")
      case True
      from fill_step.own [OF asking Answer True] Asking show ?thesis
        by (intro exI [of _ "goto (answered tok sub n m u) k (Storing i n m)"] exI [of _ "Storing i n m"]) simp
    next
      case False
      from fill_step.foreign [OF asking Answer False] Asking show ?thesis
        by (intro exI [of _ "goto (answered tok sub n m u) k (Returned i i)"] exI [of _ "Returned i i"]) simp
    qed
  qed
next
  case (Storing i n m)
  let ?u = "u\<lparr>sys_cache := store_entry (sys_cache u) (Subject i) (n, m) t\<rparr>"
  let ?pc = "Returned i (set_display i n m)"
  from fill_step.store [of u k i n m uri net t] assms(1) Storing show ?thesis
    by (intro exI [of _ "goto ?u k ?pc"] exI [of _ ?pc]) simp
qed (use assms(2) in simp)

lemma svc_progress:
  assumes "svc_inv lib v s" and "svc_calls s k = Some c" and "\<And>r. c_pc c \<noteq> Answered r"
  shows "\<exists>s'. own_step lib v k net t s s'"
proof (cases "c_pc c")
  case Received
  note own = own_step_move [OF _ assms(2), where net = net and t = t, unfolded Received, simplified]
  show ?thesis
    using svc_step.no_credential [OF assms(2) Received, of lib v]
      svc_step.take_keys [OF assms(2) Received, of lib v] own
    by (cases "source_token (lib_orbit lib) (v_source v) (c_headers c)") blast+
next
  case (Verifying raw ks)
  note own = own_step_move [OF _ assms(2), where net = net and t = t, unfolded Verifying, simplified]
  show ?thesis
    using svc_step.refused [OF assms(2) Verifying, of lib v]
      svc_step.accepted [OF assms(2) Verifying, of lib v] own
    by (cases "v_parse lib v ks (svc_clock s) raw") blast+
next
  case (Mapped raw i)
  note own = own_step_move [OF _ assms(2), where net = net and t = t, unfolded Mapped, simplified]
  show ?thesis
    using svc_step.no_cookie [OF assms(2) Mapped, of v lib]
      svc_step.cookie_keys [OF assms(2) Mapped, of v lib] own
    by (cases "wants_cookie v (c_headers c) i") blast+
next
  case (Checking raw i ks)
  note own = own_step_move [OF _ assms(2), where net = net and t = t, unfolded Checking, simplified]
  show ?thesis
    using svc_step.cookie [OF assms(2) Checking, of lib v] own by blast
next
  case (Merged raw i)
  note own = own_step_move [OF _ assms(2), where net = net and t = t, unfolded Merged, simplified]
  show ?thesis
    using svc_step.displayed [OF assms(2) Merged, of v lib] svc_step.ask [OF assms(2) Merged, of v lib] own
    by blast
next
  case (Filling pc)
  show ?thesis
  proof (cases "\<exists>i j. pc = Returned i j")
    case True
    then obtain i j where "c_pc c = Filling (Returned i j)" using Filling by blast
    from own_step_move [OF svc_step.filled [OF assms(2) this, of lib v] assms(2), of net t] this
    show ?thesis by auto
  next
    case False
    from svc_inv_callD [OF assms(1,2) Filling] obtain uri where uri: "v_userinfo v = Some uri"
      by auto
    obtain u pc' where u: "fill_step uri net t (ui_view s) u"
      "sys_calls u = (sys_calls (ui_view s))(k \<mapsto> pc')" "pc' \<noteq> pc"
      using fill_progress [of "ui_view s" k pc uri net t] False assms(2) Filling by auto
    define s' where "s' = move (s\<lparr>svc_cache := sys_cache u, svc_answers := sys_answers u\<rparr>) k c (Filling pc')"
    have "svc_step lib v s s'"
      unfolding s'_def by (rule svc_step.fill [OF assms(2) Filling uri u(1,2)])
    moreover have "c\<lparr>c_pc := Filling pc'\<rparr> \<noteq> c"
      using Filling u(3) by (auto dest: arg_cong [where f = c_pc])
    then have "svc_calls s' k \<noteq> svc_calls s k" by (simp add: s'_def assms(2))
    moreover have "\<forall>k'. k' \<noteq> k \<longrightarrow> svc_calls s' k' = svc_calls s k'" and "svc_keys s' = svc_keys s"
      by (simp_all add: s'_def)
    moreover have "ui_view s' = u"
      using u(2) by (cases u) (auto simp: s'_def ui_view_def fun_eq_iff)
    with u(1) uri have "v_userinfo v = Some uri' \<longrightarrow> fill_step uri' net t (ui_view s) (ui_view s')" for uri'
      by auto
    ultimately have "own_step lib v k net t s s'"
      unfolding own_step_def by blast
    then show ?thesis by blast
  qed
qed (use assms(3) in blast)

text \<open>
  A call left alone for \<open>n\<close> steps; \<open>env i\<close> is the endpoint and the time that the step number \<open>i\<close>
  meets if it is one of \<open>fill\<close>.
\<close>

inductive alone ::
    "'ks library \<Rightarrow> verifier \<Rightarrow> nat \<Rightarrow> (nat \<Rightarrow> userinfo_net \<times> int) \<Rightarrow> nat \<Rightarrow> 'ks service \<Rightarrow> 'ks service \<Rightarrow> bool"
  for lib v k env where
  start: "alone lib v k env 0 s s"
| step: "alone lib v k env n s s' \<Longrightarrow> own_step lib v k (fst (env n)) (snd (env n)) s' s'' \<Longrightarrow>
     alone lib v k env (Suc n) s s''"

lemma own_step_left:
  assumes "own_step lib v k net t s s'" and "svc_calls s k = Some c"
  obtains c' where "svc_calls s' k = Some c'" and "steps_left (c_pc c') < steps_left (c_pc c)"
    and "c_headers c' = c_headers c"
proof -
  have st: "svc_step lib v s s'" and "svc_calls s' k \<noteq> svc_calls s k"
    using assms(1) by (simp_all add: own_step_def)
  with svc_step_left [OF st assms(2)] assms(2) obtain c' where "svc_calls s' k = Some c'"
    "steps_left (c_pc c') < steps_left (c_pc c)"
    by auto
  with that svc_step_headers [OF st assms(2)] show thesis by blast
qed

lemma answered_alone:
  assumes "alone lib v k env m s0 s" and "svc_inv lib v s" and "svc_calls s k = Some c"
  shows "\<exists>n s' c' r. alone lib v k env n s0 s' \<and> n \<le> m + steps_left (c_pc c) \<and>
     svc_calls s' k = Some c' \<and> c_pc c' = Answered r \<and> c_headers c' = c_headers c"
  using assms
proof (induction "steps_left (c_pc c)" arbitrary: m s c rule: less_induct)
  case less
  show ?case
  proof (cases "\<exists>r. c_pc c = Answered r")
    case True
    then show ?thesis using less.prems by (metis le_add1)
  next
    case False
    then obtain s1 where own: "own_step lib v k (fst (env m)) (snd (env m)) s s1"
      using svc_progress [OF less.prems(2,3)] by blast
    then obtain c1 where c1: "svc_calls s1 k = Some c1" "steps_left (c_pc c1) < steps_left (c_pc c)"
        "c_headers c1 = c_headers c"
      using own_step_left less.prems(3) by blast
    have "svc_inv lib v s1"
      using own svc_step_inv less.prems(2) by (auto simp: own_step_def)
    from less.hyps [OF c1(2) alone.step [OF less.prems(1) own] this c1(1)] c1(2,3) show ?thesis
      by fastforce
  qed
qed

text \<open>C12: no request waits for another, and none can be kept waiting by what the userinfo endpoint
  answers: from every reachable state each request in flight is answered within nine steps of its
  own, with no other request and no refresh moving, whatever the endpoint does and the clock reads
  at each of them.\<close>

theorem service_answers:
  assumes "NewVerifier lib get cfg = Inr (v, st)" and "svc_reachable lib v st s"
    and "svc_calls s k = Some c"
  shows "\<exists>n s' c' r. alone lib v k env n s s' \<and> n \<le> 9 \<and> svc_calls s' k = Some c' \<and>
     c_pc c' = Answered r \<and> c_headers c' = c_headers c"
proof -
  obtain n s' c' r where run: "alone lib v k env n s s'" "n \<le> steps_left (c_pc c)"
    and answered: "svc_calls s' k = Some c'" "c_pc c' = Answered r" "c_headers c' = c_headers c"
    using answered_alone [OF alone.start svc_reachable_inv [OF assms(1,2)] assms(3), of env] by auto
  from run(2) steps_left_bounds have "n \<le> 9" by (rule le_trans)
  with run(1) answered show ?thesis by blast
qed

end
