(* ===== verification/Service_Run.thy ===== *)
theory Service_Run
  imports Service
begin

text \<open>
  The sequential \<open>Authenticate\<close> of \<open>Verify\<close> as a run of the interleaved service of \<open>Service\<close>,
  and the service of a concrete verifier.
\<close>

section \<open>Runs\<close>

abbreviation svc_steps :: "'ks library \<Rightarrow> verifier \<Rightarrow> 'ks service \<Rightarrow> 'ks service \<Rightarrow> bool" where
  "svc_steps lib v \<equiv> (svc_step lib v)\<^sup>*\<^sup>*"

text \<open>
  \<open>s'\<close> differs from \<open>s\<close> in nothing that call \<open>k\<close>, now standing at \<open>pc\<close>, does not own, with
  the key set \<open>keys\<close> and the cache \<open>ch\<close>.
\<close>

definition came_to ::
    "'ks service \<Rightarrow> nat \<Rightarrow> headers \<Rightarrow> 'ks call_pc \<Rightarrow> 'ks keySet \<Rightarrow> ui_cache \<Rightarrow> 'ks service \<Rightarrow> bool" where
  "came_to s k h pc keys ch s' \<longleftrightarrow>
     (\<exists>c. svc_calls s' = (svc_calls s)(k \<mapsto> c) \<and> c_headers c = h \<and> c_pc c = pc) \<and>
     svc_keys s' = keys \<and> svc_cache s' = ch"

lemma came_to_move:
  assumes "came_to s k h pc keys ch s'"
    and "\<And>c. svc_calls s' k = Some c \<Longrightarrow> c_headers c = h \<Longrightarrow> c_pc c = pc \<Longrightarrow>
      svc_step lib v s' (move s' k c pc')"
  shows "\<exists>s''. svc_step lib v s' s'' \<and> came_to s k h pc' keys ch s'' \<and> svc_clock s'' = svc_clock s' \<and>
     svc_running s'' = svc_running s'"
proof -
  from assms(1) obtain c where c: "svc_calls s' = (svc_calls s)(k \<mapsto> c)" "c_headers c = h" "c_pc c = pc"
    and "svc_keys s' = keys" "svc_cache s' = ch"
    by (auto simp: came_to_def)
  then have "came_to s k h pc' keys ch (move s' k c pc')"
    by (auto simp: came_to_def)
  moreover have "svc_step lib v s' (move s' k c pc')"
    using c by (intro assms(2)) simp_all
  ultimately show ?thesis by force
qed

lemma came_to_tick:
  "came_to s k h pc keys ch s' \<Longrightarrow> svc_clock s' \<le> t \<Longrightarrow>
     svc_step lib v s' (s'\<lparr>svc_clock := t\<rparr>) \<and> came_to s k h pc keys ch (s'\<lparr>svc_clock := t\<rparr>)"
  by (auto simp: came_to_def intro: svc_step.tick)

lemma came_to_filling:
  assumes "came_to s k h (Filling pc) keys ch s'"
  shows "sys_calls (ui_view s') k = Some pc" and "sys_cache (ui_view s') = ch"
  using assms by (auto simp: came_to_def)

text \<open>The refresh loop's events are steps of the service.\<close>

lemma refresh_adopts:
  "refresh P L get k = (None, k') \<Longrightarrow> \<exists>ks. ks_keys k' = Some ks"
  using keys.success_good [of P L get k] by (auto simp: has_keys_def keySet_Set_def)

lemma svc_refreshes:
  assumes "svc_running s"
  shows "\<exists>s'. svc_steps lib v s s' \<and> svc_calls s' = svc_calls s \<and> svc_cache s' = svc_cache s \<and>
     svc_clock s' = svc_clock s \<and>
     svc_keys s' = fst (refreshLoop (lib_jwk_Parse lib) (lib_jwk_Len lib) es (svc_keys s))"
  using assms
proof (induction es arbitrary: s)
  case Nil
  show ?case by (rule exI [of _ s]) simp
next
  case (Cons ev es)
  show ?case
  proof (cases ev)
    case Done
    then show ?thesis by (intro exI [of _ s]) simp
  next
    case (Tick get)
    obtain err keys where r: "refresh (lib_jwk_Parse lib) (lib_jwk_Len lib) get (svc_keys s) = (err, keys)"
      by fastforce
    obtain s1 where s1: "svc_step lib v s s1" "svc_keys s1 = keys" "svc_running s1"
      "svc_calls s1 = svc_calls s" "svc_cache s1 = svc_cache s" "svc_clock s1 = svc_clock s"
    proof (cases err)
      case None
      with r refresh_adopts obtain ks where "ks_keys keys = Some ks" by blast
      from svc_step.refresh [OF Cons.prems _ this] r None Cons.prems that show ?thesis by fastforce
    next
      case (Some e)
      from svc_step.refresh_failed [OF Cons.prems] r Some Cons.prems that show ?thesis by fastforce
    qed
    from Cons.IH [OF s1(3)] obtain s' where "svc_steps lib v s1 s'"
      "svc_calls s' = svc_calls s1" "svc_cache s' = svc_cache s1" "svc_clock s' = svc_clock s1"
      "svc_keys s' = fst (refreshLoop (lib_jwk_Parse lib) (lib_jwk_Len lib) es (svc_keys s1))"
      by blast
    with s1 Tick r show ?thesis
      by (intro exI [of _ s'])
        (auto intro: converse_rtranclp_into_rtranclp split: option.split prod.split)
  qed
qed

text \<open>A run of the userinfo part that moves only call \<open>k\<close> is a run of the service.\<close>

lemma svc_fill_run:
  assumes "(fill_move uri k)\<^sup>*\<^sup>* u u'" and "u = ui_view s'" and "v_userinfo v = Some uri"
    and "came_to s k h (Filling pc) keys ch s'"
  shows "\<exists>s'' pc'. svc_steps lib v s' s'' \<and> ui_view s'' = u' \<and>
     came_to s k h (Filling pc') keys (sys_cache u') s''"
  using assms(1)
proof (induction rule: rtranclp_induct)
  case base
  with assms(2,4) show ?case
    by (intro exI [of _ s'] exI [of _ pc]) (auto simp: came_to_def)
next
  case (step w u')
  then obtain s'' pc' where run: "svc_steps lib v s' s''" "ui_view s'' = w"
    and "came_to s k h (Filling pc') keys (sys_cache w) s''"
    by blast
  then obtain c where c: "svc_calls s'' = (svc_calls s)(k \<mapsto> c)" "c_headers c = h"
    "c_pc c = Filling pc'" "svc_keys s'' = keys"
    by (auto simp: came_to_def)
  from step(2) run(2) obtain net t pc'' where f: "fill_step uri net t (ui_view s'') u'"
    "sys_calls u' = (sys_calls (ui_view s''))(k \<mapsto> pc'')"
    by (auto simp: fill_move_def)
  let ?s = "move (s''\<lparr>svc_cache := sys_cache u', svc_answers := sys_answers u'\<rparr>) k c (Filling pc'')"
  have "svc_step lib v s'' ?s"
    by (rule svc_step.fill [OF _ c(3) assms(3) f]) (simp add: c)
  moreover have "ui_view ?s = u'"
    using f(2) by (cases u') (auto simp: ui_view_def fun_eq_iff)
  moreover have "came_to s k h (Filling pc'') keys (sys_cache u') ?s"
    using c by (auto simp: came_to_def)
  ultimately show ?case
    using run(1) by (blast intro: rtranclp.rtrancl_into_rtrancl)
qed

section \<open>The sequential call\<close>

lemma cookie_part:
  assumes "Name i = []" and "Email i = []"
  shows "fst (fillFromDisplayCookie lib v ks now h i ui) =
     (if wants_cookie v h i then after_cookie lib v ks now h i else i)"
  using assms by (simp add: wants_cookie_def after_cookie_def fillFromDisplayCookie_def Let_def
      split: sum.split)

lemma cookie_merge:
  "same_cache (fill_display lib v w h raw ks i ui)
     (fill_userinfo v w raw
       (if wants_cookie v h i then after_cookie lib v ks (now_cookie w) h i else i) ui)"
proof (cases "Name i = [] \<and> Email i = []")
  case True
  let ?p = "fillFromDisplayCookie lib v ks (now_cookie w) h i ui"
  have "fill_display lib v w h raw ks i ui = fill_userinfo v w raw (fst ?p) (snd ?p)"
    using True by (simp add: fill_display_def split_beta)
  moreover have "fst ?p = (if wants_cookie v h i then after_cookie lib v ks (now_cookie w) h i else i)"
    using True by (intro cookie_part) simp_all
  moreover have "same_cache (fill_userinfo v w raw (fst ?p) (snd ?p)) (fill_userinfo v w raw (fst ?p) ui)"
    using fill_userinfo_same_cache [of ?p "(fst ?p, ui)" v w raw]
    by (simp add: same_cache_def fillFromDisplayCookie_cache split_beta)
  ultimately show ?thesis by simp
next
  case False
  then have "\<not> wants_cookie v h i" and "fill_display lib v w h raw ks i ui = fill_userinfo v w raw i ui"
    by (auto simp: wants_cookie_def fill_display_def)
  then show ?thesis by (simp add: same_cache_def)
qed

lemma run_cookie:
  assumes at: "came_to s k h (Mapped raw i) keys ch s'" and "svc_clock s' \<le> now_cookie w"
  shows "\<exists>s''. svc_steps lib v s' s'' \<and> came_to s k h
     (Merged raw (if wants_cookie v h i then after_cookie lib v (keySet_Set keys) (now_cookie w) h i else i))
     keys ch s''"
proof (cases "wants_cookie v h i")
  case True
  have keys: "svc_keys s' = keys"
    using at by (simp add: came_to_def)
  let ?chk = "Checking raw i (keySet_Set keys)"
  have "svc_step lib v s' (move s' k c ?chk)"
    if "svc_calls s' k = Some c" "c_headers c = h" "c_pc c = Mapped raw i" for c
    using svc_step.cookie_keys [OF that(1,3)] True that(2) unfolding keys by blast
  from came_to_move [OF at this] obtain s1 where s1: "svc_step lib v s' s1"
    "came_to s k h ?chk keys ch s1" "svc_clock s1 = svc_clock s'"
    by blast
  let ?s2 = "s1\<lparr>svc_clock := now_cookie w\<rparr>"
  have s2: "svc_step lib v s1 ?s2" "came_to s k h ?chk keys ch ?s2"
    using came_to_tick [OF s1(2), of "now_cookie w" lib v] s1(3) assms(2) by simp_all
  let ?pc = "Merged raw (after_cookie lib v (keySet_Set keys) (now_cookie w) h i)"
  have "svc_step lib v ?s2 (move ?s2 k c ?pc)"
    if "svc_calls ?s2 k = Some c" "c_headers c = h" "c_pc c = ?chk" for c
    using svc_step.cookie [OF that(1,3), of lib v] that(2) by simp
  from came_to_move [OF s2(2) this] obtain s3 where "svc_step lib v ?s2 s3" "came_to s k h ?pc keys ch s3"
    by blast
  with s1(1) s2(1) True show ?thesis
    by (intro exI [of _ s3]) (simp add: converse_rtranclp_into_rtranclp)
next
  case False
  have "svc_step lib v s' (move s' k c (Merged raw i))"
    if "svc_calls s' k = Some c" "c_headers c = h" "c_pc c = Mapped raw i" for c
    using svc_step.no_cookie [OF that(1,3)] False that(2) by blast
  from came_to_move [OF at this] obtain s1 where "svc_step lib v s' s1" "came_to s k h (Merged raw i) keys ch s1"
    by blast
  with False show ?thesis
    by (intro exI [of _ s1]) simp
qed

lemma run_userinfo:
  assumes at: "came_to s k h (Merged raw j) keys (cache ui) s'"
  shows "\<exists>s''. svc_steps lib v s' s'' \<and> came_to s k h
     (Answered (Inr (fst (fill_userinfo v w raw j ui)))) keys (cache (snd (fill_userinfo v w raw j ui))) s''"
proof (cases "v_userinfo v = None \<or> Name j \<noteq> [] \<or> Email j \<noteq> []")
  case True
  have "svc_step lib v s' (move s' k c (Answered (Inr j)))"
    if "svc_calls s' k = Some c" "c_headers c = h" "c_pc c = Merged raw j" for c
    using svc_step.displayed [OF that(1,3) True] .
  from came_to_move [OF at this] obtain s1 where
    "svc_step lib v s' s1" "came_to s k h (Answered (Inr j)) keys (cache ui) s1"
    by blast
  moreover have "fill_userinfo v w raw j ui = (j, ui)"
    using True by (auto simp: fill_userinfo_def split: option.split)
  ultimately show ?thesis
    by (intro exI [of _ s1]) simp
next
  case False
  then obtain uri where uri: "v_userinfo v = Some uri" and ne: "Name j = []" "Email j = []"
    by auto
  have "svc_step lib v s' (move s' k c (Filling (Looking j raw)))"
    if "svc_calls s' k = Some c" "c_headers c = h" "c_pc c = Merged raw j" for c
    using svc_step.ask [OF that(1,3) _ ne] uri by simp
  from came_to_move [OF at this] obtain s1 where
    s1: "svc_step lib v s' s1" "came_to s k h (Filling (Looking j raw)) keys (cache ui) s1"
    by blast
  let ?f = "fill uri (endpoint w) (now_check w) (now_store w) raw j ui"
  from came_to_filling [OF s1(2)] have "sys_calls (ui_view s1) k = Some (Looking j raw)"
    "sys_cache (ui_view s1) = cache ui" .
  from fill_look_run [OF this] obtain u where u: "(fill_move uri k)\<^sup>*\<^sup>* (ui_view s1) u"
    "sys_calls u = (sys_calls (ui_view s1))(k \<mapsto> Returned j (fst ?f))" "sys_cache u = cache (snd ?f)"
    by blast
  from svc_fill_run [OF u(1) refl uri s1(2)] obtain s2 pc where s2: "svc_steps lib v s1 s2"
    "ui_view s2 = u" "came_to s k h (Filling pc) keys (sys_cache u) s2"
    by blast
  then have "sys_calls u k = Some pc"
    using came_to_filling [OF s2(3)] by simp
  with u(2) s2(3) have s2': "came_to s k h (Filling (Returned j (fst ?f))) keys (sys_cache u) s2"
    by simp
  have "svc_step lib v s2 (move s2 k c (Answered (Inr (fst ?f))))"
    if "svc_calls s2 k = Some c" "c_headers c = h" "c_pc c = Filling (Returned j (fst ?f))" for c
    using svc_step.filled [OF that(1,3)] .
  from came_to_move [OF s2' this] obtain s3 where
    s3: "svc_step lib v s2 s3" "came_to s k h (Answered (Inr (fst ?f))) keys (sys_cache u) s3"
    by blast
  have "svc_steps lib v s' s3"
    by (rule converse_rtranclp_into_rtranclp [OF s1(1) rtranclp.rtrancl_into_rtrancl [OF s2(1) s3(1)]])
  moreover have "fill_userinfo v w raw j ui = ?f"
    using uri ne by (simp add: fill_userinfo_def)
  ultimately show ?thesis
    using s3(2) u(3) by (intro exI [of _ s3]) simp
qed

text \<open>From the mapped identity on.\<close>

lemma run_display:
  assumes at: "came_to s k h (Mapped raw i) (g_keys st) (cache (g_ui st)) s'"
    and "svc_running s'" and "svc_clock s' \<le> now_cookie w"
  shows "\<exists>s''. svc_steps lib v s' s'' \<and>
     (case fill_display lib v w h raw (keySet_Set (refreshed lib w (g_keys st))) i (g_ui st) of
        (j, ui) \<Rightarrow> came_to s k h (Answered (Inr j)) (refreshed lib w (g_keys st)) (cache ui) s'')"
proof -
  let ?keys = "refreshed lib w (g_keys st)"
  let ?j = "if wants_cookie v h i then after_cookie lib v (keySet_Set ?keys) (now_cookie w) h i else i"
  let ?f = "fill_userinfo v w raw ?j (g_ui st)"
  obtain s1 where s1: "svc_steps lib v s' s1" "svc_calls s1 = svc_calls s'" "svc_cache s1 = svc_cache s'"
    "svc_clock s1 = svc_clock s'" "svc_keys s1 = refreshed lib w (svc_keys s')"
    using svc_refreshes [OF assms(2)] by blast
  then have "came_to s k h (Mapped raw i) ?keys (cache (g_ui st)) s1"
    using at by (simp add: came_to_def)
  from run_cookie [OF this] s1(4) assms(3) obtain s2 where s2: "svc_steps lib v s1 s2"
    "came_to s k h (Merged raw ?j) ?keys (cache (g_ui st)) s2"
    by metis
  from run_userinfo [OF s2(2)] obtain s3 where s3: "svc_steps lib v s2 s3"
    "came_to s k h (Answered (Inr (fst ?f))) ?keys (cache (snd ?f)) s3"
    by metis
  have "svc_steps lib v s' s3"
    using s1(1) s2(1) s3(1) by (meson rtranclp_trans)
  moreover have "same_cache (fill_display lib v w h raw (keySet_Set ?keys) i (g_ui st)) ?f"
    by (rule cookie_merge)
  ultimately show ?thesis
    using s3(2) by (intro exI [of _ s3]) (simp add: same_cache_def split_beta)
qed

lemma run_parse:
  assumes at: "came_to s k h Received (g_keys st) ch s'"
    and raw: "source_token (lib_orbit lib) (v_source v) h = Some raw"
    and out: "out = (case v_parse lib v (keySet_Set (g_keys st)) (svc_clock s') raw of
       Inl err \<Rightarrow> Answered (Inl ErrInvalidToken)
     | Inr token \<Rightarrow> Mapped raw (mapper_identity (v_mapper v) token raw))"
  shows "\<exists>s''. svc_steps lib v s' s'' \<and> came_to s k h out (g_keys st) ch s'' \<and>
     svc_clock s'' = svc_clock s' \<and> svc_running s'' = svc_running s'"
proof -
  let ?pc = "Verifying raw (keySet_Set (g_keys st))"
  have "svc_keys s' = g_keys st"
    using at by (simp add: came_to_def)
  then have "svc_step lib v s' (move s' k c ?pc)"
    if "svc_calls s' k = Some c" "c_headers c = h" "c_pc c = Received" for c
    using svc_step.take_keys [OF that(1,3), of lib v raw] raw that(2) by simp
  from came_to_move [OF at this] obtain s1 where s1: "svc_step lib v s' s1"
    "came_to s k h ?pc (g_keys st) ch s1" "svc_clock s1 = svc_clock s'" "svc_running s1 = svc_running s'"
    by blast
  have "svc_step lib v s1 (move s1 k c out)"
    if "svc_calls s1 k = Some c" "c_headers c = h" "c_pc c = ?pc" for c
    using svc_step.refused [OF that(1,3), of lib v] svc_step.accepted [OF that(1,3), of lib v] out s1(3)
    by (cases "v_parse lib v (keySet_Set (g_keys st)) (svc_clock s') raw") simp_all
  from came_to_move [OF s1(2) this] obtain s2 where "svc_step lib v s1 s2"
    "came_to s k h out (g_keys st) ch s2" "svc_clock s2 = svc_clock s1" "svc_running s2 = svc_running s1"
    by blast
  with s1 show ?thesis
    by (intro exI [of _ s2]) (simp add: converse_rtranclp_into_rtranclp)
qed

lemma sequential_run:
  assumes "svc_calls s k = None" and "svc_keys s = g_keys st" and "svc_cache s = cache (g_ui st)"
    and "svc_running s" and "svc_clock s \<le> now_parse w" and "now_parse w \<le> now_cookie w"
  shows "\<exists>s' c. svc_steps lib v s s' \<and> svc_calls s' = (svc_calls s)(k \<mapsto> c) \<and> c_headers c = h \<and>
     (case Authenticate (verifier_auth lib v w) h st of
        (r, st') \<Rightarrow> c_pc c = Answered r \<and> svc_keys s' = g_keys st' \<and> svc_cache s' = cache (g_ui st'))"
proof -
  let ?s0 = "s\<lparr>svc_clock := now_parse w\<rparr>"
  let ?c = "\<lparr>c_headers = h, c_time = svc_clock ?s0, c_known = length (svc_adopted ?s0) - 1, c_pc = Received\<rparr>"
  let ?s1 = "?s0\<lparr>svc_calls := (svc_calls ?s0)(k \<mapsto> ?c)\<rparr>"
  have "svc_step lib v s ?s0"
    by (rule svc_step.tick [OF assms(5)])
  moreover have "svc_step lib v ?s0 ?s1"
    by (rule svc_step.arrive [OF _ refl]) (simp add: assms(1))
  ultimately have run1: "svc_steps lib v s ?s1"
    by (meson converse_rtranclp_into_rtranclp r_into_rtranclp)
  have at: "came_to s k h Received (g_keys st) (cache (g_ui st)) ?s1"
    using assms(2,3) unfolding came_to_def by (intro conjI exI [of _ ?c]) simp_all
  have "\<exists>s'. svc_steps lib v ?s1 s' \<and> (case verifier_Authenticate lib v w h st of
      (r, st') \<Rightarrow> came_to s k h (Answered r) (g_keys st') (cache (g_ui st')) s')"
  proof (cases "source_token (lib_orbit lib) (v_source v) h")
    case None
    have "svc_step lib v ?s1 (move ?s1 k c (Answered (Inl ErrNoCredential)))"
      if "svc_calls ?s1 k = Some c" "c_headers c = h" "c_pc c = Received" for c
      using svc_step.no_credential [OF that(1,3)] None that(2) by simp
    from came_to_move [OF at this] obtain s2 where "svc_step lib v ?s1 s2"
      "came_to s k h (Answered (Inl ErrNoCredential)) (g_keys st) (cache (g_ui st)) s2"
      by blast
    with None show ?thesis
      by (intro exI [of _ s2]) (simp add: verifier_Authenticate_eq)
  next
    case (Some raw)
    show ?thesis
    proof (cases "v_parse lib v (keySet_Set (g_keys st)) (now_parse w) raw")
      case (Inl err)
      obtain s2 where "svc_steps lib v ?s1 s2"
        "came_to s k h (Answered (Inl ErrInvalidToken)) (g_keys st) (cache (g_ui st)) s2"
        using run_parse [OF at Some refl] Inl by auto
      with Some Inl show ?thesis
        by (intro exI [of _ s2]) (simp add: verifier_Authenticate_eq)
    next
      case (Inr token)
      obtain s2 where s2: "svc_steps lib v ?s1 s2"
        "came_to s k h (Mapped raw (mapper_identity (v_mapper v) token raw)) (g_keys st) (cache (g_ui st)) s2"
        "svc_clock s2 \<le> now_cookie w" "svc_running s2"
        using run_parse [OF at Some refl] Inr assms(4,6) by auto
      obtain j ui where fd: "fill_display lib v w h raw (keySet_Set (refreshed lib w (g_keys st)))
          (mapper_identity (v_mapper v) token raw) (g_ui st) = (j, ui)"
        by fastforce
      obtain s3 where "svc_steps lib v s2 s3"
        "came_to s k h (Answered (Inr j)) (refreshed lib w (g_keys st)) (cache ui) s3"
        using run_display [OF s2(2,4,3), of lib v] unfolding fd prod.case by blast
      moreover have "verifier_Authenticate lib v w h st =
          (Inr j, \<lparr>g_keys = refreshed lib w (g_keys st), g_ui = ui\<rparr>)"
        using Some Inr fd by (simp add: verifier_Authenticate_eq)
      ultimately show ?thesis
        using rtranclp_trans [OF s2(1)] by (intro exI [of _ s3]) simp
    qed
  qed
  moreover obtain r st' where out: "verifier_Authenticate lib v w h st = (r, st')"
    by fastforce
  ultimately obtain s' where s': "svc_steps lib v ?s1 s'"
    "came_to s k h (Answered r) (g_keys st') (cache (g_ui st')) s'"
    unfolding out prod.case by blast
  have "svc_steps lib v s s'"
    using run1 s'(1) by (rule rtranclp_trans)
  moreover have "Authenticate (verifier_auth lib v w) h st = (r, st')"
    by (simp add: verifier_auth_def out)
  ultimately show ?thesis
    using s'(2) unfolding came_to_def by (intro exI [of _ s']) auto
qed

text \<open>C10: the sequential \<open>Authenticate\<close>, with its readings of the clock and the refreshes that land
  during it, is one run of the interleaved service: a request that arrives at an idle moment
  gets exactly that answer and leaves exactly those keys and that cache, and no other call
  moves.\<close>

theorem service_runs_Authenticate:
  assumes "svc_calls s k = None" and "svc_keys s = g_keys st" and "svc_cache s = cache (g_ui st)"
    and "svc_running s" and "svc_clock s \<le> now_parse w" and "now_parse w \<le> now_cookie w"
  shows "\<exists>s' c. svc_steps lib v s s' \<and> svc_calls s' = (svc_calls s)(k \<mapsto> c) \<and> c_headers c = h \<and>
     (case Authenticate (verifier_auth lib v w) h st of
        (r, st') \<Rightarrow> c_pc c = Answered r \<and> svc_keys s' = g_keys st' \<and> svc_cache s' = cache (g_ui st'))"
  by (rule sequential_run [OF assms])

section \<open>A service\<close>

lemma svc_reachable_run:
  "svc_steps lib v s s' \<Longrightarrow> svc_reachable lib v st s \<Longrightarrow> svc_reachable lib v st s'"
  by (induction rule: rtranclp_induct) (auto intro: svc_reachable.step)

lemma example_request:
  "\<exists>s c. svc_steps example_lib example_verifier (svc_init example_state 0) s \<and>
     svc_calls s 7 = Some c \<and> c_headers c = h \<and>
     c_pc c = Answered (fst (Authenticate (verifier_auth example_lib example_verifier example_world) h example_state))"
  using sequential_run [of "svc_init example_state 0" 7 example_state example_world
      example_lib example_verifier h]
  by (fastforce simp: svc_init_def example_world_def split: prod.splits)

lemma example_served:
  "\<exists>s c. svc_reachable example_lib example_verifier example_state s \<and> svc_calls s 7 = Some c \<and>
     c_headers c = example_headers ''tok'' ''IdToken=idt'' \<and> c_pc c = Answered (Inr example_result)"
  using example_request [of "example_headers ''tok'' ''IdToken=idt''"]
    svc_reachable_run [OF _ svc_reachable.init]
  unfolding example_authenticate fst_conv by blast

lemma example_unserved:
  "\<exists>s c. svc_reachable example_lib example_verifier example_state s \<and> svc_calls s 7 = Some c \<and>
     c_headers c = example_headers [] [] \<and> c_pc c = Answered (Inl ErrNoCredential)"
proof -
  have "source_token (lib_orbit example_lib) DefaultSource (example_headers [] []) = None"
    by (simp add: DefaultSource_token AuthorizationBearer_def HeaderSource_Token_def example_headers_def go_eval)
  then have "Authenticate (verifier_auth example_lib example_verifier example_world)
      (example_headers [] []) example_state = (Inl ErrNoCredential, example_state)"
    by (simp add: verifier_auth_def verifier_Authenticate_eq)
  with example_request [of "example_headers [] []"] svc_reachable_run [OF _ svc_reachable.init]
  show ?thesis
    unfolding fst_conv by (metis fst_conv)
qed

theorem service_runs_Authenticate_witness:
  "\<exists>s c. svc_steps example_lib example_verifier (svc_init example_state 0) s \<and>
     svc_calls s 7 = Some c \<and> c_pc c = Answered (Inr example_result)"
proof -
  have start: "svc_calls (svc_init example_state 0) 7 = None"
    "svc_keys (svc_init example_state 0) = g_keys example_state"
    "svc_cache (svc_init example_state 0) = cache (g_ui example_state)"
    "svc_running (svc_init example_state 0)"
    "svc_clock (svc_init example_state 0) \<le> now_parse example_world"
    "now_parse example_world \<le> now_cookie example_world"
    by (simp_all add: svc_init_def example_world_def)
  obtain s c where "svc_steps example_lib example_verifier (svc_init example_state 0) s"
    and "svc_calls s = (svc_calls (svc_init example_state 0))(7 \<mapsto> c)"
    and "c_pc c = Answered (Inr example_result)"
    using service_runs_Authenticate [OF start, of example_lib example_verifier
        "example_headers ''tok'' ''IdToken=idt''"]
    unfolding example_authenticate prod.case by blast
  then show ?thesis by auto
qed

theorem service_sound_witness:
  "\<exists>ks now. identity_proven example_signed example_lib example_verifier ks now
     (example_headers ''tok'' ''IdToken=idt'') example_result"
proof -
  obtain s c where "svc_reachable example_lib example_verifier example_state s"
    "svc_calls s 7 = Some c" "c_pc c = Answered (Inr example_result)"
    "c_headers c = example_headers ''tok'' ''IdToken=idt''"
    using example_served by blast
  with service_sound [OF example_NewVerifier example_contract] show ?thesis by metis
qed

theorem service_display_witness:
  "\<exists>m. same_authorization example_result m \<and>
     (example_result = m \<or> Name m = [] \<and> Email m = [])"
proof -
  obtain s c where "svc_reachable example_lib example_verifier example_state s"
    "svc_calls s 7 = Some c" "c_pc c = Answered (Inr example_result)"
    using example_served by blast
  from service_display [OF example_NewVerifier this] show ?thesis by blast
qed

theorem service_errors_witness:
  "source_token (lib_orbit example_lib) (v_source example_verifier) (example_headers [] []) = None"
proof -
  obtain s c where s: "svc_reachable example_lib example_verifier example_state s"
    "svc_calls s 7 = Some c" "c_pc c = Answered (Inl ErrNoCredential)"
    "c_headers c = example_headers [] []"
    using example_unserved by blast
  from service_errors [OF example_NewVerifier s(1-3)] s(4) show ?thesis
    by (auto split: option.splits)
qed

definition example_arrived :: "string list service" where
  "example_arrived = (svc_init example_state 0)\<lparr>svc_calls := [7 \<mapsto>
     \<lparr>c_headers = example_headers ''tok'' [], c_time = 0, c_known = 0, c_pc = Received\<rparr>]\<rparr>"

lemma example_arrived_reachable: "svc_reachable example_lib example_verifier example_state example_arrived"
proof -
  have "svc_step example_lib example_verifier (svc_init example_state 0) example_arrived"
    unfolding example_arrived_def
    using svc_step.arrive [of "svc_init example_state 0" 7 _ "example_headers ''tok'' []"]
    by (simp add: svc_init_def example_state_def keySet_Set_def)
  then show ?thesis
    by (rule svc_reachable.step [OF svc_reachable.init])
qed

lemma alone_run: "alone lib v k env n s s' \<Longrightarrow> svc_run lib v k n s s'"
  by (induction rule: alone.induct) (auto simp: own_step_def intro: svc_run.intros)

text \<open>The endpoint hangs up on every request.\<close>

definition example_env :: "nat \<Rightarrow> userinfo_net \<times> int" where
  "example_env n = ((\<lambda>_ _. TransportError), int n)"

theorem service_answers_witness:
  "\<exists>n s' c' r. alone example_lib example_verifier 7 example_env n example_arrived s' \<and> n \<le> 9 \<and>
     svc_calls s' 7 = Some c' \<and> c_pc c' = Answered r"
  using service_answers [OF example_NewVerifier example_arrived_reachable, of 7 _ example_env]
  by (fastforce simp: example_arrived_def)

theorem service_bounded_witness:
  "\<exists>n s' c r. svc_run example_lib example_verifier 7 n example_arrived s' \<and> n \<le> 9 \<and>
     svc_calls s' 7 = Some c \<and> c_pc c = Answered r"
proof -
  have call: "svc_calls example_arrived 7 = Some \<lparr>c_headers = example_headers ''tok'' [], c_time = 0,
      c_known = 0, c_pc = Received\<rparr>"
    by (simp add: example_arrived_def)
  obtain n s' c r where "alone example_lib example_verifier 7 example_env n example_arrived s'"
    and c: "svc_calls s' 7 = Some c" "c_pc c = Answered r"
    using answered_alone [OF alone.start svc_reachable_inv [OF example_NewVerifier example_arrived_reachable] call]
    by blast
  then have "svc_run example_lib example_verifier 7 n example_arrived s'"
    using alone_run by blast
  with service_bounded [OF this call] c show ?thesis by blast
qed

end
