(* ===== verification/Key_Timing.thy ===== *)
theory Key_Timing
  imports Key_Set
begin

text \<open>
  The time in \<open>keyset.go\<close> and \<open>discovery.go\<close>: the clients' timeouts, the ticker, and the refresh
  loop on a clock. A GET sent at a time has an outcome, a duration, and what its caller has seen
  of it if it is cut off. Times are integers in nanoseconds, the differences far inside 64 bits.
\<close>

section \<open>Timeouts\<close>

definition Second :: int where
  "Second = 1000000000"

definition Minute :: int where
  "Minute = 60 * Second"

definition discoveryTimeout :: int where
  "discoveryTimeout = 15 * Second"

definition keySetRefresh :: int where
  "keySetRefresh = 15 * Minute"

definition keySetFetchTimeout :: int where
  "keySetFetchTimeout = 15 * Second"

lemmas durations = Second_def Minute_def discoveryTimeout_def keySetRefresh_def keySetFetchTimeout_def

record exchange =
  ex_outcome :: get_outcome
  ex_delay :: int
  ex_partial :: "http_response option"

text \<open>
  A client with a timeout: an exchange that takes longer ends there, before its response or in the
  middle of the body. The result is the outcome and the time it took.
\<close>

definition client_get :: "int \<Rightarrow> exchange \<Rightarrow> get_outcome \<times> int" where
  "client_get timeout x =
     (if ex_delay x \<le> timeout then (ex_outcome x, ex_delay x)
      else (case ex_partial x of
              None \<Rightarrow> TransportError
            | Some resp \<Rightarrow> Response (resp\<lparr>body_fails := True\<rparr>), timeout))"

definition newHTTPClient :: "exchange \<Rightarrow> get_outcome \<times> int" where
  "newHTTPClient = client_get discoveryTimeout"

section \<open>The ticker and the loop\<close>

text \<open>
  A ticker started at \<open>s\<close> ticks at \<open>s + i * keySetRefresh\<close>, \<open>i \<ge> 1\<close>, into a channel that holds one
  tick and drops further ones. A loop that has consumed tick \<open>n\<close> and is back at its \<open>select\<close> at
  time \<open>r\<close> receives the next tick when it comes, or at once if it is waiting; by then the ticks up
  to the last one before \<open>r\<close> have come and are dropped.
\<close>

definition receive_tick :: "int \<Rightarrow> int \<Rightarrow> int \<Rightarrow> int \<times> int" where
  "receive_tick s n r =
     (let due = s + (n + 1) * keySetRefresh in
      if due \<le> r then (r, (r - s) div keySetRefresh) else (due, n + 1))"

type_synonym timed_net = "int \<Rightarrow> string \<Rightarrow> exchange"

text \<open>
  The service's context may end, at the time \<open>ended\<close>. A loop in its \<open>select\<close> since \<open>r\<close> then
  returns, unless the tick it is waiting for comes first, at \<open>t\<close>; where both are ready at once
  the choice is the runtime's, \<open>pick\<close>.
\<close>

definition returns_first :: "int option \<Rightarrow> bool \<Rightarrow> int \<Rightarrow> int \<Rightarrow> bool" where
  "returns_first ended pick r t \<longleftrightarrow>
     (case ended of None \<Rightarrow> False | Some e \<Rightarrow> max r e < t \<or> max r e = t \<and> pick)"

text \<open>
  The request of a refresh at \<open>t\<close>, under the timeout and under the loop's context: one that has
  ended already lets no request out, one that ends meanwhile cuts the exchange off.
\<close>

definition refresh_get :: "int option \<Rightarrow> int \<Rightarrow> exchange \<Rightarrow> get_outcome \<times> int" where
  "refresh_get ended t x =
     (case ended of
        None \<Rightarrow> client_get keySetFetchTimeout x
      | Some e \<Rightarrow>
          if e \<le> t then (TransportError, 0) else client_get (min keySetFetchTimeout (e - t)) x)"

text \<open>
  The loop for its next \<open>m\<close> ticks, as the history of the key set: each refresh starts when its tick
  is received, its request is cut off by the timeout of the client and by its context, and its
  result is stored when the exchange is over.
\<close>

fun timed_loop ::
    "(string \<Rightarrow> 'ks option) \<Rightarrow> ('ks \<Rightarrow> nat) \<Rightarrow> timed_net \<Rightarrow> int option \<Rightarrow> (int \<Rightarrow> bool) \<Rightarrow> int \<Rightarrow>
     int \<Rightarrow> int \<Rightarrow> nat \<Rightarrow> 'ks keySet \<Rightarrow> (int \<times> 'ks keySet) list" where
  "timed_loop P L net ended pick s n r 0 k = []"
| "timed_loop P L net ended pick s n r (Suc m) k =
     (case receive_tick s n r of
        (t, n') \<Rightarrow>
          if returns_first ended (pick t) r t then []
          else case refresh_get ended t (net t (ks_url k)) of
            (out, d) \<Rightarrow>
              (case refresh P L (\<lambda>_. out) k of
                 (_, k') \<Rightarrow> (t + d, k') # timed_loop P L net ended pick s n' (t + d) m k'))"

text \<open>The key set in use at a time, from the first one and the history.\<close>

fun keys_at :: "(int \<times> 'ks keySet) list \<Rightarrow> 'ks keySet \<Rightarrow> int \<Rightarrow> 'ks keySet" where
  "keys_at [] k now = k"
| "keys_at ((t, k') # hist) k now = (if t \<le> now then keys_at hist k' now else k)"

text \<open>
  The key set that the loop started at \<open>s\<close> has in use at \<open>now\<close>: it has been through as many ticks
  as have come by then.
\<close>

definition loop_keys ::
    "(string \<Rightarrow> 'ks option) \<Rightarrow> ('ks \<Rightarrow> nat) \<Rightarrow> timed_net \<Rightarrow> int option \<Rightarrow> (int \<Rightarrow> bool) \<Rightarrow> int \<Rightarrow>
     'ks keySet \<Rightarrow> int \<Rightarrow> 'ks keySet" where
  "loop_keys P L net ended pick s k now =
     keys_at (timed_loop P L net ended pick s 0 s (nat ((now - s) div keySetRefresh)) k) k now"

section \<open>No tick is late\<close>

lemma client_get_time: "snd (client_get timeout x) = min (ex_delay x) timeout"
  by (simp add: client_get_def)

lemma client_get_delay: "0 \<le> ex_delay x \<Longrightarrow> 0 \<le> timeout \<Longrightarrow> snd (client_get timeout x) \<in> {0..timeout}"
  by (auto simp: client_get_time)

lemma refresh_get_delay:
  "0 \<le> ex_delay x \<Longrightarrow> 0 \<le> snd (refresh_get ended t x)"
  using client_get_delay [of x] by (auto simp: refresh_get_def durations split: option.split)

lemma receive_tick_due:
  "r < s + (n + 1) * keySetRefresh \<Longrightarrow> receive_tick s n r = (s + (n + 1) * keySetRefresh, n + 1)"
  by (simp add: receive_tick_def)

text \<open>A refresh is over long before the next tick.\<close>

lemma fetch_before_next:
  assumes "0 \<le> ex_delay x"
  shows "s + (n + 1) * keySetRefresh + snd (client_get keySetFetchTimeout x) <
     s + (n + 1 + 1) * keySetRefresh"
  using client_get_delay [OF assms, of keySetFetchTimeout] by (simp add: durations distrib_right)

text \<open>The context has not ended by \<open>now\<close>.\<close>

definition running :: "int option \<Rightarrow> int \<Rightarrow> bool" where
  "running ended now \<longleftrightarrow> (\<forall>e. ended = Some e \<longrightarrow> now < e)"

text \<open>Up to then a context that ends later makes no difference to an exchange.\<close>

lemma refresh_get_running:
  assumes "running ended now" and "0 \<le> ex_delay x" and "t \<le> now"
  shows "t + snd (client_get keySetFetchTimeout x) \<le> now \<Longrightarrow>
      refresh_get ended t x = client_get keySetFetchTimeout x"
    and "now < t + snd (client_get keySetFetchTimeout x) \<Longrightarrow> now < t + snd (refresh_get ended t x)"
proof -
  assume "t + snd (client_get keySetFetchTimeout x) \<le> now"
  with assms show "refresh_get ended t x = client_get keySetFetchTimeout x"
    by (cases ended) (auto simp: running_def refresh_get_def client_get_time, auto simp: client_get_def)
next
  assume "now < t + snd (client_get keySetFetchTimeout x)"
  with assms show "now < t + snd (refresh_get ended t x)"
    by (cases ended) (auto simp: running_def refresh_get_def client_get_time)
qed

text \<open>
  So one turn of the loop, entered before its tick is due, refreshes at the due time, is done
  within the timeout, and enters the next turn in the same way; a turn that is not over by \<open>now\<close>
  has changed nothing yet.
\<close>

lemma timed_loop_turn:
  assumes "\<And>t url. 0 \<le> ex_delay (net t url)" and "running ended now"
    and "r < s + (n + 1) * keySetRefresh"
    and "due = s + (n + 1) * keySetRefresh" and "g = client_get keySetFetchTimeout (net due (ks_url k))"
    and "k' = snd (refresh P L (\<lambda>_. fst g) k)"
  shows "keys_at (timed_loop P L net ended pick s n r (Suc m) k) k now =
     (if due + snd g \<le> now then keys_at (timed_loop P L net ended pick s (n + 1) (due + snd g) m k') k' now
      else k)"
proof -
  let ?x = "net due (ks_url k)"
  let ?g = "refresh_get ended due ?x"
  have turn: "timed_loop P L net ended pick s n r (Suc m) k =
      (if returns_first ended (pick due) r due then []
       else (due + snd ?g, snd (refresh P L (\<lambda>_. fst ?g) k)) #
         timed_loop P L net ended pick s (n + 1) (due + snd ?g) m (snd (refresh P L (\<lambda>_. fst ?g) k)))"
    using receive_tick_due [OF assms(3)] assms(4) by (simp add: split_beta)
  have nonneg: "0 \<le> snd g"
    using client_get_delay [OF assms(1), of keySetFetchTimeout] by (simp add: assms(5) durations)
  show ?thesis
  proof (cases "due \<le> now")
    case True
    then have "\<not> returns_first ended (pick due) r due"
      using assms(2) by (auto simp: returns_first_def running_def split: option.split)
    with turn refresh_get_running [OF assms(2,1) True, of due "ks_url k"] show ?thesis
      by (cases "due + snd g \<le> now") (simp_all add: assms(5,6))
  next
    case False
    with nonneg refresh_get_delay [OF assms(1), of ended due due "ks_url k"] show ?thesis
      unfolding turn by auto
  qed
qed

text \<open>A turn that is not due by \<open>now\<close> changes nothing either.\<close>

lemma timed_loop_early:
  assumes "\<And>t url. 0 \<le> ex_delay (net t url)" and "running ended now"
    and "r < s + (n + 1) * keySetRefresh" and "now < s + (n + 1) * keySetRefresh"
  shows "keys_at (timed_loop P L net ended pick s n r m k) k now = k"
proof (cases m)
  case (Suc m')
  show ?thesis
    unfolding Suc timed_loop_turn [OF assms(1-3) refl refl refl]
    using assms(4) client_get_delay [OF assms(1), of keySetFetchTimeout]
    by (simp add: durations) (smt (verit, best))
qed simp

text \<open>Ticks after \<open>now\<close> make no difference, so \<open>loop_keys\<close> follows enough of them.\<close>

lemma timed_loop_ticks:
  assumes "\<And>t url. 0 \<le> ex_delay (net t url)" and "running ended now"
    and "r < s + (n + 1) * keySetRefresh"
    and "now < s + (n + 1 + int m) * keySetRefresh" and "m \<le> m'"
  shows "keys_at (timed_loop P L net ended pick s n r m' k) k now =
     keys_at (timed_loop P L net ended pick s n r m k) k now"
  using assms(3-5)
proof (induction m arbitrary: n r k m')
  case 0
  then show ?case
    using timed_loop_early [OF assms(1,2) 0(1)] by simp
next
  case (Suc m)
  then obtain m'' where m': "m' = Suc m''" "m \<le> m''" by (cases m') auto
  let ?g = "client_get keySetFetchTimeout (net (s + (n + 1) * keySetRefresh) (ks_url k))"
  have "now < s + (n + 1 + 1 + int m) * keySetRefresh"
    using Suc.prems(2) by (simp add: algebra_simps)
  from Suc.IH [OF fetch_before_next [OF assms(1)] this m'(2)] show ?case
    unfolding m'(1) timed_loop_turn [OF assms(1,2) Suc.prems(1) refl refl refl] by simp
qed

lemma ticks_by:
  assumes "s \<le> now"
  shows "now < s + (0 + 1 + int (nat ((now - s) div keySetRefresh))) * keySetRefresh"
proof -
  let ?q = "(now - s) div keySetRefresh"
  have q: "int (nat ?q) = ?q"
    using assms by (simp add: durations pos_imp_zdiv_nonneg_iff)
  have "now - s = ?q * keySetRefresh + (now - s) mod keySetRefresh"
    by (rule div_mult_mod_eq [symmetric])
  moreover have "(now - s) mod keySetRefresh < keySetRefresh"
    by (simp add: durations)
  ultimately show ?thesis
    unfolding distrib_right q by linarith
qed

lemma loop_keys_ticks:
  assumes "\<And>t url. 0 \<le> ex_delay (net t url)" and "running ended now" and "s \<le> now"
    and "nat ((now - s) div keySetRefresh) \<le> m"
  shows "keys_at (timed_loop P L net ended pick s 0 s m k) k now = loop_keys P L net ended pick s k now"
  unfolding loop_keys_def
  by (rule timed_loop_ticks [OF assms(1,2) _ ticks_by [OF assms(3)] assms(4)]) (simp add: durations)

section \<open>The deadline of a rotation\<close>

text \<open>From time \<open>T\<close> on the endpoint answers every request in time with the key set \<open>ks\<close>.\<close>

definition serves_from ::
    "(string \<Rightarrow> 'ks option) \<Rightarrow> ('ks \<Rightarrow> nat) \<Rightarrow> timed_net \<Rightarrow> string \<Rightarrow> int \<Rightarrow> 'ks \<Rightarrow> bool" where
  "serves_from P L net url T ks \<longleftrightarrow>
     (\<forall>t \<ge> T. ex_delay (net t url) \<le> keySetFetchTimeout \<and>
        offered P L (ex_outcome (net t url)) = Some ks)"

lemma serves_adopted:
  assumes "serves_from P L net (ks_url k) T ks" and "T \<le> t"
  shows "ks_keys (snd (refresh P L (\<lambda>_. fst (client_get keySetFetchTimeout (net t (ks_url k)))) k)) = Some ks"
proof -
  have "ex_delay (net t (ks_url k)) \<le> keySetFetchTimeout"
    and "offered P L (ex_outcome (net t (ks_url k))) = Some ks"
    using assms by (simp_all add: serves_from_def)
  then show ?thesis
    using refresh_offered [of P L "\<lambda>_. ex_outcome (net t (ks_url k))" k] by (simp add: client_get_def)
qed

lemma refresh_same_url: "ks_url (snd (refresh P L get k)) = ks_url k"
  by (metis prod.collapse refresh_url)

text \<open>Once adopted it stays.\<close>

lemma timed_loop_keeps:
  assumes "\<And>t url. 0 \<le> ex_delay (net t url)" and "running ended now"
    and "serves_from P L net (ks_url k) T ks"
    and "r < s + (n + 1) * keySetRefresh" and "T \<le> s + (n + 1) * keySetRefresh"
    and "ks_keys k = Some ks"
  shows "ks_keys (keys_at (timed_loop P L net ended pick s n r m k) k now) = Some ks"
  using assms(3-6)
proof (induction m arbitrary: n r k)
  case (Suc m)
  let ?due = "s + (n + 1) * keySetRefresh"
  let ?g = "client_get keySetFetchTimeout (net ?due (ks_url k))"
  let ?k' = "snd (refresh P L (\<lambda>_. fst ?g) k)"
  have "T \<le> s + (n + 1 + 1) * keySetRefresh"
    using Suc.prems(3) by (simp add: durations)
  then have "ks_keys (keys_at (timed_loop P L net ended pick s (n + 1) (?due + snd ?g) m ?k') ?k' now) = Some ks"
    using Suc.prems(1) serves_adopted [OF Suc.prems(1,3)] fetch_before_next [OF assms(1)]
    by (intro Suc.IH) (simp_all add: refresh_same_url)
  then show ?case
    unfolding timed_loop_turn [OF assms(1,2) Suc.prems(2) refl refl refl] using Suc.prems(4) by simp
qed simp

lemma timed_loop_deadline:
  assumes "\<And>t url. 0 \<le> ex_delay (net t url)" and "running ended now"
    and "serves_from P L net (ks_url k) T ks"
    and "r < s + (n + 1) * keySetRefresh" and "s + (n + 1) * keySetRefresh \<le> T + keySetRefresh"
    and "T + keySetRefresh + keySetFetchTimeout \<le> now"
    and "now < s + (n + 1 + int m) * keySetRefresh"
  shows "ks_keys (keys_at (timed_loop P L net ended pick s n r m k) k now) = Some ks"
  using assms(3-5,7)
proof (induction m arbitrary: n r k)
  case 0
  then show ?case
    using assms(6) by (simp add: durations)
next
  case (Suc m)
  let ?due = "s + (n + 1) * keySetRefresh"
  let ?g = "client_get keySetFetchTimeout (net ?due (ks_url k))"
  let ?k' = "snd (refresh P L (\<lambda>_. fst ?g) k)"
  have d: "0 \<le> snd ?g" "snd ?g \<le> keySetFetchTimeout"
    using client_get_delay [OF assms(1), of keySetFetchTimeout] by (simp_all add: durations)
  then have "?due + snd ?g \<le> now"
    using Suc.prems(3) assms(6) by linarith
  then have now: "keys_at (timed_loop P L net ended pick s n r (Suc m) k) k now =
      keys_at (timed_loop P L net ended pick s (n + 1) (?due + snd ?g) m ?k') ?k' now"
    unfolding timed_loop_turn [OF assms(1,2) Suc.prems(2) refl refl refl] by (rule if_P)
  have serves: "serves_from P L net (ks_url ?k') T ks"
    using Suc.prems(1) by (simp add: refresh_same_url)
  note next_due = fetch_before_next [OF assms(1), of s n ?due "ks_url k"]
  show ?case
  proof (cases "T \<le> ?due")
    case True
    then have "ks_keys ?k' = Some ks"
      by (rule serves_adopted [OF Suc.prems(1)])
    moreover have "T \<le> s + (n + 1 + 1) * keySetRefresh"
      using True next_due d(1) by linarith
    ultimately show ?thesis
      unfolding now by (intro timed_loop_keeps [OF assms(1,2) serves next_due])
  next
    case False
    then have "s + (n + 1 + 1) * keySetRefresh \<le> T + keySetRefresh"
      by (simp add: distrib_right)
    moreover have "now < s + (n + 1 + 1 + int m) * keySetRefresh"
      using Suc.prems(4) by (simp add: algebra_simps)
    ultimately show ?thesis
      unfolding now by (intro Suc.IH [OF serves next_due])
  qed
qed

text \<open>
  The loop of a new key set: from a quarter of an hour and the timeout of one fetch after the
  endpoint began to serve a set, that set is in use, whatever happened before, as long as the
  context has not ended.
\<close>

lemma rotation_deadline:
  assumes "\<And>t url. 0 \<le> ex_delay (net t url)" and "running ended now"
    and "serves_from P L net (ks_url k) T ks"
    and "s \<le> T" and "T + 915 * 1000000000 \<le> now"
  shows "keySet_Set (loop_keys P L net ended pick s k now) = Some ks"
proof -
  have "s \<le> now" using assms(4,5) by simp
  from ticks_by [OF this] show ?thesis
    unfolding keySet_Set_def loop_keys_def using assms(4,5)
    by (intro timed_loop_deadline [OF assms(1-3)]) (simp_all add: durations)
qed

text \<open>After its end the loop changes the key set no more.\<close>

lemma loop_returned:
  assumes "\<And>t url. 0 \<le> ex_delay (net t url)" and "e < s + (n + 1) * keySetRefresh" and "r < s + (n + 1) * keySetRefresh"
  shows "timed_loop P L net (Some e) pick s n r m k = []"
  using assms(2,3) by (cases m) (simp_all add: receive_tick_due returns_first_def)

text \<open>Discovery and userinfo share a client; no exchange of it takes longer than its timeout.\<close>

lemma newHTTPClient_bounded:
  "0 \<le> ex_delay x \<Longrightarrow> snd (newHTTPClient x) \<in> {0..15000000000}"
  using client_get_delay [of x discoveryTimeout] by (simp add: newHTTPClient_def durations)

end
