(* ===== verification/Go_Url.thy ===== *)
theory Go_Url
  imports Go_Strings
begin

text \<open>
  \<open>url.QueryEscape\<close> and its inverse \<open>url.QueryUnescape\<close>, the one function of
  \<open>net/url\<close> the repository calls and the one the proxy applies to what it built.
\<close>

section \<open>Escaping\<close>

text \<open>\<open>shouldEscape\<close> for a query component: everything but letters, digits and \<open>-_.~\<close>.\<close>

definition unreserved :: "char \<Rightarrow> bool" where
  "unreserved c \<longleftrightarrow>
     (let b = of_char c :: nat in
      65 \<le> b \<and> b \<le> 90 \<or> 97 \<le> b \<and> b \<le> 122 \<or> 48 \<le> b \<and> b \<le> 57 \<or>
      b = 45 \<or> b = 95 \<or> b = 46 \<or> b = 126)"

definition upper_hex :: "nat \<Rightarrow> char" where
  "upper_hex n = (if n < 10 then char_of (48 + n) else char_of (55 + n))"

definition escape_char :: "char \<Rightarrow> string" where
  "escape_char c =
     (if unreserved c then [c]
      else if c = CHR '' '' then ''+''
      else [CHR ''%'', upper_hex (of_char c div 16), upper_hex (of_char c mod 16)])"

definition query_escape :: "string \<Rightarrow> string" where
  "query_escape s = concat (map escape_char s)"

section \<open>Unescaping\<close>

fun query_unescape :: "string \<Rightarrow> string option" where
  "query_unescape [] = Some []"
| "query_unescape (c # s) =
     (if c = CHR ''%'' then
        (case s of
           h # l # t \<Rightarrow>
             (case (unhex h, unhex l) of
                (Some a, Some b) \<Rightarrow> map_option ((#) (char_of (a * 16 + b))) (query_unescape t)
              | _ \<Rightarrow> None)
         | _ \<Rightarrow> None)
      else map_option ((#) (if c = CHR ''+'' then CHR '' '' else c)) (query_unescape s))"

section \<open>Round trip\<close>

lemma unhex_upper_hex [simp]: "n < 16 \<Longrightarrow> unhex (upper_hex n) = Some n"
  by (auto simp: unhex_def upper_hex_def Let_def)

lemma unreserved_upper_hex: "n < 16 \<Longrightarrow> unreserved (upper_hex n)"
  by (auto simp: unreserved_def upper_hex_def Let_def)

lemma unreserved_not_special: "unreserved c \<Longrightarrow> c \<noteq> CHR ''%'' \<and> c \<noteq> CHR ''+''"
  by (auto simp: unreserved_def)

lemma high_nibble: "of_char c div 16 < (16 :: nat)"
  by (rule less_mult_imp_div_less) simp

lemma query_unescape_escape_char:
  "query_unescape (escape_char c @ s) = map_option ((#) c) (query_unescape s)"
  by (auto simp: escape_char_def unreserved_not_special high_nibble)

lemma query_unescape_escape: "query_unescape (query_escape s) = Some s"
  by (induction s) (simp_all add: query_escape_def query_unescape_escape_char)

lemma query_escape_inj: "query_escape s = query_escape t \<Longrightarrow> s = t"
  by (metis option.inject query_unescape_escape)

text \<open>An escaped string holds no character that delimits a query string.\<close>

lemma escape_char_chars:
  "d \<in> set (escape_char c) \<Longrightarrow> unreserved d \<or> d = CHR ''%'' \<or> d = CHR ''+''"
  by (auto simp: escape_char_def unreserved_upper_hex high_nibble split: if_splits)

lemma query_escape_chars:
  "d \<in> set (query_escape s) \<Longrightarrow> unreserved d \<or> d = CHR ''%'' \<or> d = CHR ''+''"
  by (auto simp: query_escape_def dest: escape_char_chars)

lemma query_escape_no_delims:
  "set (query_escape s) \<inter> {CHR ''&'', CHR ''='', CHR ''#'', CHR ''?'', CHR '';'', CHR '' ''} = {}"
  by (auto dest!: query_escape_chars simp: unreserved_def)

end
