(* ===== verification/Js_Core.thy ===== *)
theory Js_Core
  imports "HOL-Library.Word" Go_Url Go_Json
begin

text \<open>
  What the TypeScript package (\<open>ts/src\<close>) uses of JavaScript: strings as sequences of 16-bit code
  units with \<open>trim\<close>, \<open>split\<close>, \<open>toLowerCase\<close>, \<open>startsWith\<close> and \<open>encodeURIComponent\<close>, and dynamic
  values with property reads. \<open>units\<close> is the JavaScript string of a Go string of ASCII bytes, and
  the lemmas relate each operation to Go's on those. The one piece of Unicode data left open is
  lower-casing outside ASCII, the parameter \<open>table\<close> of \<open>js_lower\<close>.
\<close>

section \<open>Strings\<close>

type_synonym js_string = "16 word list"

definition units :: "string \<Rightarrow> js_string" where
  "units s = map of_char s"

text \<open>The white space and the line terminators, which \<open>trim\<close> removes from both ends.\<close>

definition js_space :: "16 word \<Rightarrow> bool" where
  "js_space u \<longleftrightarrow>
     (let n = unat u in
      9 \<le> n \<and> n \<le> 13 \<or> n = 32 \<or> n = 160 \<or> n = 5760 \<or> 8192 \<le> n \<and> n \<le> 8202 \<or>
      n = 8232 \<or> n = 8233 \<or> n = 8239 \<or> n = 8287 \<or> n = 12288 \<or> n = 65279)"

definition js_trim :: "js_string \<Rightarrow> js_string" where
  "js_trim s = rev (dropWhile js_space (rev (dropWhile js_space s)))"

definition lower_unit :: "16 word \<Rightarrow> 16 word" where
  "lower_unit u = (if 65 \<le> unat u \<and> unat u \<le> 90 then u + 32 else u)"

definition js_ascii :: "js_string \<Rightarrow> bool" where
  "js_ascii s \<longleftrightarrow> list_all (\<lambda>u. unat u < 128) s"

definition js_lower :: "(js_string \<Rightarrow> js_string) \<Rightarrow> js_string \<Rightarrow> js_string" where
  "js_lower table s = (if js_ascii s then map lower_unit s else table s)"

text \<open>\<open>split\<close> at every occurrence of a separator, from the left; an empty one splits the units.\<close>

fun js_split_at :: "js_string \<Rightarrow> js_string \<Rightarrow> js_string \<Rightarrow> js_string list" where
  "js_split_at sep piece [] = [rev piece]"
| "js_split_at sep piece (u # s) =
     (if take (length sep) (u # s) = sep
      then rev piece # js_split_at sep [] (drop (length sep - 1) s)
      else js_split_at sep (u # piece) s)"

definition js_split :: "js_string \<Rightarrow> js_string \<Rightarrow> js_string list" where
  "js_split s sep = (if sep = [] then map (\<lambda>u. [u]) s else js_split_at sep [] s)"

fun js_join :: "js_string list \<Rightarrow> js_string \<Rightarrow> js_string" where
  "js_join [] sep = []"
| "js_join [p] sep = p"
| "js_join (p # ps) sep = p @ sep @ js_join ps sep"

definition js_startsWith :: "js_string \<Rightarrow> js_string \<Rightarrow> bool" where
  "js_startsWith s p \<longleftrightarrow> take (length p) s = p"

subsection \<open>\<open>encodeURIComponent\<close>\<close>

text \<open>The code points of a string; a surrogate without its partner has none.\<close>

fun code_points :: "js_string \<Rightarrow> nat list option" where
  "code_points [] = Some []"
| "code_points (u # s) =
     (if \<not> is_surrogate (unat u) then map_option ((#) (unat u)) (code_points s)
      else case s of
        [] \<Rightarrow> None
      | u' # s' \<Rightarrow>
          (case decode_pair (unat u) (Some (unat u')) of
             None \<Rightarrow> None | Some r \<Rightarrow> map_option ((#) r) (code_points s')))"

definition utf8 :: "nat list \<Rightarrow> string" where
  "utf8 rs = concat (map encode_rune rs)"

text \<open>The bytes it leaves alone: Go's unreserved ones and five more.\<close>

definition uri_unreserved :: "char \<Rightarrow> bool" where
  "uri_unreserved c \<longleftrightarrow> unreserved c \<or> c \<in> set ''!*()'' \<or> of_char c = (39 :: nat)"

definition uri_escape_char :: "char \<Rightarrow> string" where
  "uri_escape_char c =
     (if uri_unreserved c then [c]
      else [CHR ''%'', upper_hex (of_char c div 16), upper_hex (of_char c mod 16)])"

text \<open>\<open>None\<close> is the \<open>URIError\<close> it throws for a lone surrogate.\<close>

definition encodeURIComponent :: "js_string \<Rightarrow> js_string option" where
  "encodeURIComponent s =
     map_option (\<lambda>rs. units (concat (map uri_escape_char (utf8 rs)))) (code_points s)"

section \<open>Values\<close>

text \<open>
  A number is its bit pattern. An object is its own properties; what a property read finds on the
  prototypes is an object or a function, which no read of this package tells from an absent
  property.
\<close>

datatype js_value =
    JsUndefined
  | JsNull
  | JsBool bool
  | JsNumber nat
  | JsString js_string
  | JsArray "js_value list"
  | JsObject "(js_string \<times> js_value) list"

definition js_member :: "(js_string \<times> js_value) list \<Rightarrow> js_string \<Rightarrow> js_value" where
  "js_member ps name = (case map_of ps name of Some x \<Rightarrow> x | None \<Rightarrow> JsUndefined)"

text \<open>Reading a property: \<open>undefined\<close> and \<open>null\<close> have none, which throws a \<open>TypeError\<close>.\<close>

definition js_get :: "js_value \<Rightarrow> js_string \<Rightarrow> js_value option" where
  "js_get x name =
     (case x of
        JsUndefined \<Rightarrow> None
      | JsNull \<Rightarrow> None
      | JsObject ps \<Rightarrow> Some (js_member ps name)
      | _ \<Rightarrow> Some JsUndefined)"

text \<open>\<open>x ?? d\<close>.\<close>

definition js_default :: "js_value \<Rightarrow> js_value \<Rightarrow> js_value" where
  "js_default x d = (case x of JsUndefined \<Rightarrow> d | JsNull \<Rightarrow> d | _ \<Rightarrow> x)"

section \<open>ASCII strings\<close>

lemma unat_of_char [simp]: "unat (of_char c :: 16 word) = of_char c"
proof -
  have "(of_char c :: nat) < 65536"
    by (rule less_trans [of _ 256]) simp_all
  then have "(of_char c :: nat) mod 65536 = of_char c"
    by (rule mod_less)
  then have "unat (of_nat (of_char c) :: 16 word) = of_char c"
    by (simp add: unat_of_nat take_bit_eq_mod)
  then show ?thesis by (simp only: of_nat_of_char)
qed

lemma of_char_unit_inject [simp]: "(of_char c :: 16 word) = of_char d \<longleftrightarrow> c = d"
  by (metis of_char_eq_iff unat_of_char)

lemma units_simps [simp]:
  "units [] = []"
  "units (c # s) = of_char c # units s"
  "units (s @ t) = units s @ units t"
  "length (units s) = length s"
  "units s = [] \<longleftrightarrow> s = []"
  by (simp_all add: units_def)

lemma units_inject [simp]: "units s = units t \<longleftrightarrow> s = t"
  by (simp add: units_def inj_map_eq_map inj_def)

lemma units_take: "take n (units s) = units (take n s)"
  and units_drop: "drop n (units s) = units (drop n s)"
  by (simp_all add: units_def take_map drop_map)

lemma js_ascii_units [simp]: "js_ascii (units s) \<longleftrightarrow> is_ascii s"
  by (simp add: js_ascii_def is_ascii_def units_def list_all_iff)

lemma js_space_unit: "of_char c < (128 :: nat) \<Longrightarrow> js_space (of_char c) \<longleftrightarrow> is_space (of_char c)"
  by (auto simp: js_space_def is_space_def Let_def)

lemma lower_unit_char: "of_char c < (128 :: nat) \<Longrightarrow> lower_unit (of_char c) = of_char (to_lower c)"
proof -
  have "unat (of_char (to_lower c) :: 16 word) = unat (lower_unit (of_char c))"
    by (auto simp: of_char_to_lower Let_def lower_unit_def unat_word_ariths)
  then show ?thesis by (metis word_unat_eq_iff)
qed

lemma js_lower_units:
  assumes "is_ascii s"
  shows "js_lower table (units s) = units (map to_lower s)"
proof -
  have "map lower_unit (units s) = units (map to_lower s)"
    using assms by (auto simp: is_ascii_def units_def lower_unit_char)
  with assms show ?thesis by (simp add: js_lower_def)
qed

subsection \<open>Trimming and splitting\<close>

lemma trim_left_ascii: "is_ascii s \<Longrightarrow> trim_left_func p s = dropWhile (\<lambda>c. p (of_char c)) s"
  by (induction s) (simp_all add: trim_left_func_eval)

lemma trim_right_ascii:
  "is_ascii s \<Longrightarrow> trim_right_func p s = rev (dropWhile (\<lambda>c. p (of_char c)) (rev s))"
proof (induction s rule: rev_induct)
  case Nil
  show ?case by (simp add: trim_right_func_eval)
next
  case (snoc c s)
  then show ?case
    by (subst trim_right_func.simps) simp
qed

lemma is_ascii_rev [simp]: "is_ascii (rev s) = is_ascii s"
  by (simp add: is_ascii_def)

lemma is_ascii_dropWhile: "is_ascii s \<Longrightarrow> is_ascii (dropWhile p s)"
  by (auto simp: is_ascii_def dest: set_dropWhileD)

lemma dropWhile_units:
  "is_ascii s \<Longrightarrow> dropWhile js_space (units s) = units (dropWhile (\<lambda>c. is_space (of_char c)) s)"
  by (induction s) (simp_all add: js_space_unit)

lemma rev_units: "rev (units s) = units (rev s)"
  by (simp add: units_def rev_map)

lemma js_trim_units: "is_ascii s \<Longrightarrow> js_trim (units s) = units (trim_space s)"
  by (simp add: js_trim_def trim_space_def trim_left_ascii trim_right_ascii dropWhile_units
      rev_units is_ascii_dropWhile)

lemma js_split_at_none: "d \<notin> set s \<Longrightarrow> js_split_at [d] p s = [rev p @ s]"
  by (induction s arbitrary: p) auto

lemma js_split_at_cons:
  "d \<notin> set b \<Longrightarrow> js_split_at [d] p (b @ d # a) = (rev p @ b) # js_split_at [d] [] a"
  by (induction b arbitrary: p) auto

lemma unit_in_units [simp]: "of_char c \<in> set (units s) \<longleftrightarrow> c \<in> set s"
  by (auto simp: units_def)

lemma js_split_units: "js_split (units s) (units [d]) = map units (split_str s [d])"
proof (induction s rule: split_byte_induct [where d = d])
  case (last s)
  then show ?case
    by (simp add: js_split_def js_split_at_none split_byte_none)
next
  case (more b a)
  then show ?case
    using js_split_at_cons [of "of_char d" "units b" "[]" "units a"]
    by (simp add: js_split_def split_byte_cons)
qed

end
