(* ===== verification/Ts_Identity.thy ===== *)
theory Ts_Identity
  imports Js_Core Claims
begin

text \<open>
  \<open>ts/src/identity.ts\<close>, \<open>source.ts\<close> and \<open>claims.ts\<close>: the identity, the token sources and the
  claims mapping of the TypeScript mirror of the Go package, each with the lemma that it computes
  what the Go definition computes on ASCII text.
\<close>

section \<open>Identity\<close>

text \<open>
  \<open>name\<close> and \<open>email\<close> are declared strings, but the userinfo fallback stores whatever the endpoint
  answered in them, so they are dynamic values.
\<close>

record ts_identity =
  ts_subject :: js_string
  ts_name :: js_value
  ts_email :: js_value
  ts_roles :: "js_string list"
  ts_token :: js_string
  ts_claims :: "(js_string \<times> js_value) list"

definition ts_hasRole :: "ts_identity \<Rightarrow> js_string \<Rightarrow> bool" where
  "ts_hasRole i role = List.member (ts_roles i) role"

definition ts_hasAnyRole :: "ts_identity \<Rightarrow> js_string list \<Rightarrow> bool" where
  "ts_hasAnyRole i roles = list_ex (ts_hasRole i) roles"

type_synonym js_headers = "js_string \<Rightarrow> js_string option"

text \<open>What a promise of an identity rejects with: the two sentinels, or any other exception.\<close>

datatype js_exception = TypeError | OtherException string

datatype ts_error = NoCredentialError | InvalidTokenError | Thrown js_exception

record 's ts_authenticator =
  ts_authenticate :: "js_headers \<Rightarrow> 's \<Rightarrow> (ts_error, ts_identity) result \<times> 's"
  ts_enabled :: bool

definition ts_disabled :: "js_string list \<Rightarrow> 's ts_authenticator" where
  "ts_disabled roles =
     \<lparr>ts_authenticate = (\<lambda>headers s. (Inr
        \<lparr>ts_subject = units ''local'', ts_name = JsString (units ''local operator''),
         ts_email = JsString (units ''local@localhost''), ts_roles = roles, ts_token = [],
         ts_claims = []\<rparr>, s)),
      ts_enabled = False\<rparr>"

section \<open>Token sources\<close>

definition HEADER_accessToken :: js_string where
  "HEADER_accessToken = units ''x-auth-request-access-token''"

definition HEADER_user :: js_string where
  "HEADER_user = units ''x-auth-request-user''"

definition HEADER_email :: js_string where
  "HEADER_email = units ''x-auth-request-email''"

definition HEADER_groups :: js_string where
  "HEADER_groups = units ''x-auth-request-groups''"

definition HEADER_authorization :: js_string where
  "HEADER_authorization = units ''authorization''"

lemmas HEADER_defs = HEADER_accessToken_def HEADER_user_def HEADER_email_def HEADER_groups_def
  HEADER_authorization_def

type_synonym ts_source = "js_headers \<Rightarrow> js_string option"

text \<open>\<open>headers.get(name) ?? ""\<close>\<close>

definition header_text :: "js_headers \<Rightarrow> js_string \<Rightarrow> js_string" where
  "header_text headers name = (case headers name of Some val \<Rightarrow> val | None \<Rightarrow> [])"

definition ts_headerSource ::
    "(js_string \<Rightarrow> js_string) \<Rightarrow> js_string \<Rightarrow> js_string option \<Rightarrow> ts_source" where
  "ts_headerSource table name scheme headers =
     (let val = js_trim (header_text headers name) in
      if val = [] then None
      else if scheme = None \<or> scheme = Some [] then Some val
      else
        let prefix = the scheme @ units '' '' in
        if length val < length prefix \<or>
           js_lower table (take (length prefix) val) \<noteq> js_lower table prefix
        then None
        else
          let token = js_trim (drop (length prefix) val) in
          if token = [] then None else Some token)"

fun ts_chain :: "ts_source list \<Rightarrow> ts_source" where
  "ts_chain [] headers = None"
| "ts_chain (source # sources) headers =
     (case source headers of Some raw \<Rightarrow> Some raw | None \<Rightarrow> ts_chain sources headers)"

definition ts_oauth2ProxyAccessToken :: "(js_string \<Rightarrow> js_string) \<Rightarrow> ts_source" where
  "ts_oauth2ProxyAccessToken table = ts_headerSource table HEADER_accessToken None"

definition ts_authorizationBearer :: "(js_string \<Rightarrow> js_string) \<Rightarrow> ts_source" where
  "ts_authorizationBearer table = ts_headerSource table HEADER_authorization (Some (units ''Bearer''))"

definition ts_defaultSource :: "(js_string \<Rightarrow> js_string) \<Rightarrow> ts_source" where
  "ts_defaultSource table = ts_chain [ts_oauth2ProxyAccessToken table, ts_authorizationBearer table]"

definition ts_splitAndTrim :: "js_string \<Rightarrow> js_string \<Rightarrow> js_string list" where
  "ts_splitAndTrim val sep = filter (\<lambda>part. part \<noteq> []) (map js_trim (js_split val sep))"

section \<open>Claims\<close>

record ts_mapper =
  ts_nameClaim :: js_string
  ts_emailClaim :: js_string
  ts_rolesClaim :: js_string

text \<open>\<open>x || d\<close> on an optional string: a missing and an empty one are both falsy.\<close>

definition js_or :: "js_string option \<Rightarrow> js_string \<Rightarrow> js_string" where
  "js_or x d = (case x of Some s \<Rightarrow> if s = [] then d else s | None \<Rightarrow> d)"

definition ts_claimsMapper ::
    "js_string option \<Rightarrow> js_string option \<Rightarrow> js_string option \<Rightarrow> ts_mapper" where
  "ts_claimsMapper name email roles =
     \<lparr>ts_nameClaim = js_or name (units ''name''), ts_emailClaim = js_or email (units ''email''),
      ts_rolesClaim = js_or roles (units ''groups'')\<rparr>"

type_synonym js_payload = "(js_string \<times> js_value) list"

definition ts_stringClaim :: "js_payload \<Rightarrow> js_string \<Rightarrow> js_string" where
  "ts_stringClaim payload name =
     (case js_member payload name of JsString s \<Rightarrow> s | _ \<Rightarrow> [])"

text \<open>The filter by \<open>typeof item === "string"\<close>.\<close>

fun js_strings :: "js_value list \<Rightarrow> js_string list" where
  "js_strings [] = []"
| "js_strings (item # rest) =
     (case item of JsString s \<Rightarrow> s # js_strings rest | _ \<Rightarrow> js_strings rest)"

definition ts_claimValues :: "js_payload \<Rightarrow> js_string \<Rightarrow> js_string list" where
  "ts_claimValues payload name =
     (case js_member payload name of
        JsString s \<Rightarrow> [s]
      | JsArray items \<Rightarrow> js_strings items
      | _ \<Rightarrow> [])"

definition ts_identityFromClaims :: "ts_mapper \<Rightarrow> js_payload \<Rightarrow> js_string \<Rightarrow> ts_identity" where
  "ts_identityFromClaims mapper payload raw =
     \<lparr>ts_subject = ts_stringClaim payload (units ''sub''),
      ts_name = JsString (ts_stringClaim payload (ts_nameClaim mapper)),
      ts_email = JsString (ts_stringClaim payload (ts_emailClaim mapper)),
      ts_roles = ts_claimValues payload (ts_rolesClaim mapper),
      ts_token = raw,
      ts_claims = payload\<rparr>"

section \<open>Agreement with Go\<close>

subsection \<open>Sources\<close>

text \<open>
  Two views of one request's headers: the JavaScript one is indexed by lower-case names, an absent
  header is undefined there and empty in Go, and the values are the same ASCII text.
\<close>

definition same_headers :: "headers \<Rightarrow> js_headers \<Rightarrow> bool" where
  "same_headers h headers \<longleftrightarrow>
     (\<forall>name. is_ascii (h name) \<and>
        (case headers (units (map to_lower name)) of
           Some val \<Rightarrow> val = units (h name) | None \<Rightarrow> h name = []))"

lemma same_headers_text:
  assumes "same_headers h headers"
  shows "header_text headers (units (map to_lower name)) = units (h name)" and "is_ascii (h name)"
proof -
  from assms have *: "is_ascii (h name) \<and> (case headers (units (map to_lower name)) of
      Some val \<Rightarrow> val = units (h name) | None \<Rightarrow> h name = [])"
    unfolding same_headers_def by blast
  then show "is_ascii (h name)" by simp
  from * show "header_text headers (units (map to_lower name)) = units (h name)"
    by (simp add: header_text_def split: option.splits)
qed

lemma header_names_lower:
  "map to_lower HeaderAccessToken = ''x-auth-request-access-token''"
  "map to_lower HeaderUser = ''x-auth-request-user''"
  "map to_lower HeaderEmail = ''x-auth-request-email''"
  "map to_lower HeaderGroups = ''x-auth-request-groups''"
  "map to_lower HeaderAuthorization = ''authorization''"
  by code_simp+

lemma HEADER_lower:
  "HEADER_accessToken = units (map to_lower HeaderAccessToken)"
  "HEADER_user = units (map to_lower HeaderUser)"
  "HEADER_email = units (map to_lower HeaderEmail)"
  "HEADER_groups = units (map to_lower HeaderGroups)"
  "HEADER_authorization = units (map to_lower HeaderAuthorization)"
  by (simp_all only: HEADER_defs header_names_lower)

lemma is_ascii_take: "is_ascii s \<Longrightarrow> is_ascii (take n s)"
  and is_ascii_drop: "is_ascii s \<Longrightarrow> is_ascii (drop n s)"
  by (auto simp: is_ascii_def dest: in_set_takeD in_set_dropD)

lemma is_ascii_trim_space: "is_ascii s \<Longrightarrow> is_ascii (trim_space s)"
  by (simp add: trim_space_def trim_left_ascii trim_right_ascii is_ascii_dropWhile)

lemma ts_headerSource_agrees:
  assumes "same_headers h headers" and "is_ascii scheme"
  shows "ts_headerSource table (units (map to_lower name)) (Some (units scheme)) headers =
     map_option units (HeaderSource_Token orbit name scheme h)"
proof -
  let ?val = "trim_space (h name)"
  let ?prefix = "scheme @ '' ''"
  have ascii: "is_ascii ?val"
    using same_headers_text(2) [OF assms(1)] by (rule is_ascii_trim_space)
  have val: "js_trim (header_text headers (units (map to_lower name))) = units ?val"
    using same_headers_text [OF assms(1), of name] by (simp add: js_trim_units)
  have prefix: "units scheme @ units '' '' = units ?prefix"
    by simp
  have fold: "equal_fold orbit (take (length ?prefix) ?val) ?prefix \<longleftrightarrow>
      js_lower table (take (length ?prefix) (units ?val)) = js_lower table (units ?prefix)"
    if "\<not> length ?val < length ?prefix"
  proof -
    have "js_lower table (units ?prefix) = units (map to_lower ?prefix)"
      using assms(2) by (intro js_lower_units) simp
    note 1 = this
    have 2: "js_lower table (take (length ?prefix) (units ?val)) =
        units (map to_lower (take (length ?prefix) ?val))"
      unfolding units_take using ascii by (intro js_lower_units is_ascii_take)
    have "equal_fold orbit (take (length ?prefix) ?val) ?prefix \<longleftrightarrow>
        map to_lower (take (length ?prefix) ?val) = map to_lower ?prefix"
      using that assms(2) by (intro equal_fold_iff_lower) simp_all
    then show ?thesis by (simp only: 1 2 units_inject)
  qed
  have rest: "js_trim (drop (length ?prefix) (units ?val)) = units (trim_space (drop (length ?prefix) ?val))"
    unfolding units_drop using ascii by (intro js_trim_units is_ascii_drop)
  show ?thesis
    unfolding ts_headerSource_def HeaderSource_Token_def Let_def val prefix option.sel
    using fold rest by (auto simp del: units_simps(3))
qed

lemma ts_headerSource_plain:
  assumes "same_headers h headers"
  shows "ts_headerSource table (units (map to_lower name)) None headers =
     map_option units (HeaderSource_Token orbit name [] h)"
  using same_headers_text [OF assms, of name]
  by (simp add: ts_headerSource_def HeaderSource_Token_def Let_def js_trim_units)

lemma defaultSource_agrees:
  assumes "same_headers h headers"
  shows "ts_defaultSource table headers = map_option units (source_token orbit DefaultSource h)"
proof -
  have proxy: "ts_oauth2ProxyAccessToken table headers =
      map_option units (source_token orbit OAuth2ProxyAccessToken h)"
    unfolding ts_oauth2ProxyAccessToken_def OAuth2ProxyAccessToken_def HEADER_lower source_token.simps
    by (rule ts_headerSource_plain [OF assms])
  have bearer: "ts_authorizationBearer table headers =
      map_option units (source_token orbit AuthorizationBearer h)"
    unfolding ts_authorizationBearer_def AuthorizationBearer_def HEADER_lower source_token.simps
    by (rule ts_headerSource_agrees [OF assms]) simp
  show ?thesis
    by (simp add: ts_defaultSource_def DefaultSource_def proxy bearer split: option.split)
qed

text \<open>On ASCII headers the TypeScript package finds the same token as the Go package: the
  forwarded access token first, then the bearer token, each trimmed, the scheme in any letter
  case.\<close>

lemma ts_defaultSource_agrees:
  assumes "same_headers h headers"
  shows "ts_defaultSource table headers = map_option units (source_token orbit DefaultSource h)"
  by (rule defaultSource_agrees [OF assms])

lemma ts_splitAndTrim_agrees:
  assumes "is_ascii s"
  shows "ts_splitAndTrim (units s) (units '','') = map units (elems (splitAndTrim s '',''))"
proof -
  have "is_ascii p" if "p \<in> set (split_str s '','')" for p
    using assms that
    by (induction s rule: split_byte_induct [where d = "CHR '',''"])
      (auto simp: split_byte_none split_byte_cons)
  then have "map js_trim (map units (split_str s '','')) = map units (map trim_space (split_str s '',''))"
    by (simp add: js_trim_units)
  then have "ts_splitAndTrim (units s) (units '','') =
      filter (\<lambda>part. part \<noteq> []) (map units (map trim_space (split_str s '','')))"
    unfolding ts_splitAndTrim_def js_split_units by (rule arg_cong)
  also have "\<dots> = map units (filter (\<lambda>t. t \<noteq> []) (map trim_space (split_str s '','')))"
    by (simp add: filter_map o_def)
  also have "\<dots> = map units (elems (splitAndTrim s '',''))"
    by (simp add: splitAndTrim_def Let_def)
  finally show ?thesis .
qed

subsection \<open>Claims\<close>

text \<open>
  One claim as each language decodes it: the same string, an array with the same strings at the
  same places, or neither a string nor an array.
\<close>

definition same_item :: "any \<Rightarrow> js_value \<Rightarrow> bool" where
  "same_item a x \<longleftrightarrow> (case a of AString s \<Rightarrow> x = JsString (units s) | _ \<Rightarrow> \<nexists>s. x = JsString s)"

definition same_claim :: "any option \<Rightarrow> js_value \<Rightarrow> bool" where
  "same_claim a x \<longleftrightarrow>
     (case a of
        Some (AString s) \<Rightarrow> x = JsString (units s)
      | Some (AStrings ss) \<Rightarrow> x = JsArray (map (\<lambda>s. JsString (units s)) (elems ss))
      | Some (AArray items) \<Rightarrow> (\<exists>xs. x = JsArray xs \<and> list_all2 same_item (elems items) xs)
      | _ \<Rightarrow> (\<nexists>s. x = JsString s) \<and> (\<nexists>xs. x = JsArray xs))"

text \<open>A token's payload in the two languages.\<close>

definition same_token :: "jwt_token \<Rightarrow> js_payload \<Rightarrow> bool" where
  "same_token token payload \<longleftrightarrow>
     (\<forall>name. same_claim (tok_Field token name) (js_member payload (units name))) \<and>
     same_claim (map_option AString (tok_Subject token)) (js_member payload (units ''sub''))"

definition same_mapper :: "ClaimsMapper \<Rightarrow> ts_mapper \<Rightarrow> bool" where
  "same_mapper m mapper \<longleftrightarrow>
     mapper = ts_claimsMapper (Some (units (NameClaim m))) (Some (units (EmailClaim m)))
       (Some (units (RolesClaim m)))"

lemma js_strings_agrees:
  "list_all2 same_item items xs \<Longrightarrow> js_strings xs = map units (strings_of items)"
  by (induction rule: list_all2_induct) (auto simp: same_item_def split: any.splits js_value.splits)

lemma js_strings_map [simp]: "js_strings (map (\<lambda>s. JsString (units s)) ss) = map units ss"
  by (induction ss) simp_all

lemma ts_stringClaim_agrees:
  "same_claim (tok_Field token name) (js_member payload name') \<Longrightarrow>
     ts_stringClaim payload name' = units (stringClaim token name)"
  by (auto simp: same_claim_def ts_stringClaim_def stringClaim_def
      split: option.splits any.splits js_value.splits)

lemma ts_claimValues_agrees:
  assumes "same_claim (tok_Field token name) (js_member payload name')"
  shows "ts_claimValues payload name' = map units (elems (claimValues token name))"
proof (cases "tok_Field token name")
  case None
  with assms show ?thesis
    by (auto simp: same_claim_def ts_claimValues_def claimValues_def split: js_value.splits)
next
  case (Some a)
  with assms show ?thesis
    by (cases a) (auto simp: same_claim_def ts_claimValues_def claimValues_def stringsFrom_def
        js_strings_agrees split: js_value.splits)
qed

definition same_identity :: "identity \<Rightarrow> ts_identity \<Rightarrow> bool" where
  "same_identity i j \<longleftrightarrow>
     ts_subject j = units (Subject i) \<and> ts_name j = JsString (units (Name i)) \<and>
     ts_email j = JsString (units (Email i)) \<and> ts_roles j = map units (elems (Roles i)) \<and>
     ts_token j = units (Token i)"

lemma identityFromClaims_agrees:
  assumes "same_token token payload" and "same_mapper m mapper"
  shows "same_identity (mapper_identity m token raw)
     (ts_identityFromClaims mapper payload (units raw))"
proof -
  have claims: "same_claim (tok_Field token name) (js_member payload (units name))" for name
    using assms(1) by (simp add: same_token_def)
  have names: "ts_nameClaim mapper = units (NameClaim (withDefaults m))"
    "ts_emailClaim mapper = units (EmailClaim (withDefaults m))"
    "ts_rolesClaim mapper = units (RolesClaim (withDefaults m))"
    using assms(2) by (simp_all add: same_mapper_def ts_claimsMapper_def js_or_def)
  have "ts_stringClaim payload (units ''sub'') = units (subject_of token)"
    using assms(1)
    by (auto simp: same_token_def same_claim_def ts_stringClaim_def subject_of_def
        split: option.splits js_value.splits)
  then show ?thesis
    by (simp add: same_identity_def ts_identityFromClaims_def mapper_identity_def Let_def names
        ts_stringClaim_agrees [OF claims] ts_claimValues_agrees [OF claims] del: withDefaults_sel)
qed

text \<open>From the same verified token both packages make the same identity: subject, name, email
  and roles, in all shapes a roles claim comes in, under the same configured claim names.\<close>

lemma ts_identityFromClaims_agrees:
  assumes "same_token token payload" and "same_mapper m mapper"
  shows "same_identity (mapper_identity m token raw)
     (ts_identityFromClaims mapper payload (units raw))"
  by (rule identityFromClaims_agrees [OF assms])

lemma same_identity_role:
  assumes "same_identity i j"
  shows "ts_hasRole j (units r) \<longleftrightarrow> HasRole i r"
  using assms by (auto simp: same_identity_def ts_hasRole_def HasRole_iff)

lemma same_identity_roles:
  "same_identity i j \<Longrightarrow> ts_hasAnyRole j (map units roles) \<longleftrightarrow> HasAnyRole i roles"
  by (simp add: ts_hasAnyRole_def HasAnyRole_iff list_ex_iff same_identity_role)

end
