(* ===== verification/Ts_Verify.thy ===== *)
theory Ts_Verify
  imports Ts_Identity Profile
begin

text \<open>
  \<open>ts/src/userinfo.ts\<close>, \<open>discovery.ts\<close>, \<open>verify.ts\<close> and \<open>profile.ts\<close>: the verifying authenticator
  of the TypeScript package. The \<open>jose\<close> library and \<open>fetch\<close> are arguments: \<open>ts_world\<close> is what they
  answer during one call. A response is its status and what its \<open>json()\<close> resolves to, \<open>None\<close> when
  that rejects. Times are milliseconds.
\<close>

section \<open>Userinfo\<close>

datatype ts_fetched = FetchRejects | Fetched nat "js_value option"

type_synonym ts_net = "js_value \<Rightarrow> js_string \<Rightarrow> ts_fetched"

definition response_ok :: "nat \<Rightarrow> bool" where
  "response_ok status \<longleftrightarrow> 200 \<le> status \<and> status \<le> 299"

definition ts_userinfoTTL :: int where
  "ts_userinfoTTL = 60 * 60 * 1000"

record ts_entry =
  te_name :: js_value
  te_email :: js_value
  te_fetchedAt :: int

datatype ts_effect = TsFetch js_value js_string | TsWarn log_event

record ts_state =
  ts_cache :: "js_string \<Rightarrow> ts_entry option"
  ts_trace :: "ts_effect list"

definition ts_emit :: "ts_effect list \<Rightarrow> ts_state \<Rightarrow> ts_state" where
  "ts_emit es st = st\<lparr>ts_trace := ts_trace st @ es\<rparr>"

definition ts_display :: "ts_identity \<Rightarrow> js_value \<Rightarrow> js_value \<Rightarrow> ts_identity" where
  "ts_display i name email = i\<lparr>ts_name := name, ts_email := email\<rparr>"

type_synonym ts_cache_map = "js_string \<Rightarrow> ts_entry option"

definition ts_cached :: "ts_cache_map \<Rightarrow> js_string \<Rightarrow> int \<Rightarrow> ts_entry option" where
  "ts_cached c subject now =
     (case c subject of
        Some e \<Rightarrow> if now - te_fetchedAt e < ts_userinfoTTL then Some e else None
      | None \<Rightarrow> None)"

definition ts_store :: "ts_cache_map \<Rightarrow> js_string \<Rightarrow> js_value \<times> js_value \<Rightarrow> int \<Rightarrow> ts_cache_map" where
  "ts_store c subject ne now =
     c(subject \<mapsto> \<lparr>te_name = fst ne, te_email = snd ne, te_fetchedAt = now\<rparr>)"

text \<open>
  \<open>fill\<close>. Reading a property of the body is outside its \<open>try\<close> blocks, so a body that has no
  properties rejects the call.
\<close>

definition ts_fill ::
    "js_value \<Rightarrow> ts_net \<Rightarrow> int \<Rightarrow> int \<Rightarrow> js_string \<Rightarrow> ts_identity \<Rightarrow> ts_state \<Rightarrow>
     (ts_error, ts_identity) result \<times> ts_state" where
  "ts_fill uri net t_check t_store accessToken i st =
     (case ts_cached (ts_cache st) (ts_subject i) t_check of
        Some e \<Rightarrow> (Inr (ts_display i (te_name e) (te_email e)), st)
      | None \<Rightarrow>
          let authorization = units ''Bearer '' @ accessToken;
              asked = ts_emit [TsFetch uri authorization] st
          in case net uri authorization of
            FetchRejects \<Rightarrow> (Inr i, ts_emit [TsWarn UserinfoRequestFailed] asked)
          | Fetched status json \<Rightarrow>
              if \<not> response_ok status then (Inr i, ts_emit [TsWarn (UserinfoRefused status)] asked)
              else case json of
                None \<Rightarrow> (Inr i, ts_emit [TsWarn UserinfoUndecodable] asked)
              | Some body \<Rightarrow>
                  (case (js_get body (units ''sub''), js_get body (units ''name''), js_get body (units ''email'')) of
                     (Some sub, Some name, Some email) \<Rightarrow>
                       if sub \<noteq> JsString (ts_subject i) then (Inr i, asked)
                       else
                         let name = js_default name (JsString []);
                             email = js_default email (JsString [])
                         in (Inr (ts_display i name email),
                             asked\<lparr>ts_cache := ts_store (ts_cache asked) (ts_subject i) (name, email) t_store\<rparr>)
                   | _ \<Rightarrow> (Inl (Thrown TypeError), asked)))"

section \<open>Discovery\<close>

text \<open>\<open>x ? ... : ...\<close> on a dynamic value. The falsy numbers are the two zeros and the NaNs.\<close>

definition js_truthy :: "js_value \<Rightarrow> bool" where
  "js_truthy x =
     (case x of
        JsUndefined \<Rightarrow> False
      | JsNull \<Rightarrow> False
      | JsBool b \<Rightarrow> b
      | JsNumber n \<Rightarrow> \<not> (n mod 2 ^ 63 = 0 \<or> 2047 * 2 ^ 52 < n mod 2 ^ 63)
      | JsString s \<Rightarrow> s \<noteq> []
      | _ \<Rightarrow> True)"

record ts_endpoints =
  ts_jwksUri :: js_value
  ts_userinfoUri :: js_value

datatype ts_startup_error =
    TsIssuerRequired
  | TsFetchFailed js_string
  | TsFetchStatus js_string nat
  | TsNotJson
  | TsTypeError
  | TsWrongIssuer js_string js_value
  | TsNoJwksUri js_string

definition ts_well_known :: "js_string \<Rightarrow> js_string" where
  "ts_well_known issuer =
     (if issuer \<noteq> [] \<and> last issuer = of_char CHR ''/'' then butlast issuer else issuer) @
     units ''/.well-known/openid-configuration''"

definition ts_discover ::
    "js_string \<Rightarrow> (js_string \<Rightarrow> ts_fetched) \<Rightarrow> (ts_startup_error, ts_endpoints) result" where
  "ts_discover issuer net =
     (let wellKnown = ts_well_known issuer in
      case net wellKnown of
        FetchRejects \<Rightarrow> Inl (TsFetchFailed wellKnown)
      | Fetched status json \<Rightarrow>
          if \<not> response_ok status then Inl (TsFetchStatus wellKnown status)
          else case json of
            None \<Rightarrow> Inl TsNotJson
          | Some document \<Rightarrow>
              (case (js_get document (units ''issuer''), js_get document (units ''jwks_uri''),
                     js_get document (units ''userinfo_endpoint'')) of
                 (Some iss, Some jwks, Some userinfo) \<Rightarrow>
                   if iss \<noteq> JsString issuer then Inl (TsWrongIssuer wellKnown iss)
                   else if \<not> js_truthy jwks then Inl (TsNoJwksUri wellKnown)
                   else Inr \<lparr>ts_jwksUri = jwks, ts_userinfoUri = js_default userinfo (JsString [])\<rparr>
               | _ \<Rightarrow> Inl TsTypeError))"

section \<open>The verifier\<close>

record 'k ts_verifier =
  tsv_keys :: 'k
  tsv_source :: ts_source
  tsv_mapper :: ts_mapper
  tsv_issuer :: js_string
  tsv_audience :: js_string
  tsv_userinfo :: "js_value option"

text \<open>
  Outside during one call: \<open>jwtVerify\<close> with the key argument, the token, the demanded issuer and
  audience, its clock and its cached key set being what they are then; \<open>fetch\<close>; and the two
  readings of the clock in \<open>fill\<close>.
\<close>

record 'k ts_world =
  tw_jwtVerify :: "'k \<Rightarrow> js_string \<Rightarrow> js_string \<Rightarrow> js_string option \<Rightarrow> (string, js_payload) result"
  tw_fetch :: ts_net
  tw_check :: int
  tw_store :: int

definition ts_verify :: "'k ts_verifier \<Rightarrow> 'k ts_world \<Rightarrow> js_string \<Rightarrow> (string, js_payload) result" where
  "ts_verify v w raw =
     tw_jwtVerify w (tsv_keys v) raw (tsv_issuer v)
       (if tsv_audience v \<noteq> [] then Some (tsv_audience v) else None)"

definition ts_verifier_authenticate ::
    "'k ts_verifier \<Rightarrow> 'k ts_world \<Rightarrow> js_headers \<Rightarrow> ts_state \<Rightarrow>
     (ts_error, ts_identity) result \<times> ts_state" where
  "ts_verifier_authenticate v w headers st =
     (case tsv_source v headers of
        None \<Rightarrow> (Inl NoCredentialError, st)
      | Some raw \<Rightarrow>
          (case ts_verify v w raw of
             Inl err \<Rightarrow> (Inl InvalidTokenError, ts_emit [TsWarn (TokenRejected err)] st)
           | Inr payload \<Rightarrow>
               let i = ts_identityFromClaims (tsv_mapper v) payload raw in
               case tsv_userinfo v of
                 Some uri \<Rightarrow>
                   if ts_name i = JsString [] \<and> ts_email i = JsString []
                   then ts_fill uri (tw_fetch w) (tw_check w) (tw_store w) raw i st
                   else (Inr i, st)
               | None \<Rightarrow> (Inr i, st)))"

definition ts_verifier_auth :: "'k ts_verifier \<Rightarrow> 'k ts_world \<Rightarrow> ts_state ts_authenticator" where
  "ts_verifier_auth v w = \<lparr>ts_authenticate = ts_verifier_authenticate v w, ts_enabled = True\<rparr>"

definition ts_headerTrust :: "'s ts_authenticator" where
  "ts_headerTrust =
     \<lparr>ts_authenticate = (\<lambda>headers s.
        let subject = header_text headers HEADER_user; email = header_text headers HEADER_email in
        if subject = [] \<and> email = [] then (Inl NoCredentialError, s)
        else
          let name = (if subject \<noteq> [] then subject else email) in
          (Inr \<lparr>ts_subject = subject, ts_name = JsString name, ts_email = JsString email,
                ts_roles = ts_splitAndTrim (header_text headers HEADER_groups) (units '',''),
                ts_token = header_text headers HEADER_accessToken, ts_claims = []\<rparr>, s)),
      ts_enabled = True\<rparr>"

section \<open>Construction\<close>

text \<open>
  The options of \<open>createVerifier\<close>; a field left out is \<open>None\<close>, and a logger has no counterpart.
  \<open>to_endpoints\<close> is the pair of its two optional members.
\<close>

record 'k ts_options =
  to_issuer :: js_string
  to_audience :: "js_string option"
  to_source :: "ts_source option"
  to_nameClaim :: "js_string option"
  to_emailClaim :: "js_string option"
  to_rolesClaim :: "js_string option"
  to_userinfoFallback :: "bool option"
  to_jwks :: "'k option"
  to_endpoints :: "(js_string option \<times> js_string option) option"

text \<open>\<open>remote\<close> is \<open>createRemoteJWKSet(new URL(...))\<close>, \<open>None\<close> when \<open>URL\<close> throws.\<close>

definition ts_createVerifier ::
    "(js_string \<Rightarrow> js_string) \<Rightarrow> (js_value \<Rightarrow> 'k option) \<Rightarrow> (js_string \<Rightarrow> ts_fetched) \<Rightarrow> 'k ts_options \<Rightarrow>
     (ts_startup_error, 'k ts_verifier) result" where
  "ts_createVerifier table remote net opts =
     (if to_issuer opts = [] then Inl TsIssuerRequired
      else
        let source = (case to_source opts of Some s \<Rightarrow> s | None \<Rightarrow> ts_defaultSource table);
            mapper = ts_claimsMapper (to_nameClaim opts) (to_emailClaim opts) (to_rolesClaim opts);
            text = (\<lambda>x. JsString (case x of Some s \<Rightarrow> s | None \<Rightarrow> []));
            endpoints =
              (case to_endpoints opts of
                 Some (jwks, userinfo) \<Rightarrow> Inr \<lparr>ts_jwksUri = text jwks, ts_userinfoUri = text userinfo\<rparr>
               | None \<Rightarrow>
                   if to_jwks opts \<noteq> None
                   then Inr \<lparr>ts_jwksUri = JsString [], ts_userinfoUri = JsString []\<rparr>
                   else ts_discover (to_issuer opts) net)
        in case endpoints of
             Inl err \<Rightarrow> Inl err
           | Inr endpoints \<Rightarrow>
               (case (case to_jwks opts of Some keys \<Rightarrow> Some keys | None \<Rightarrow> remote (ts_jwksUri endpoints)) of
                  None \<Rightarrow> Inl TsTypeError
                | Some keys \<Rightarrow>
                    Inr \<lparr>tsv_keys = keys, tsv_source = source, tsv_mapper = mapper,
                         tsv_issuer = to_issuer opts,
                         tsv_audience = (case to_audience opts of Some a \<Rightarrow> a | None \<Rightarrow> []),
                         tsv_userinfo =
                           (if to_userinfoFallback opts = Some True \<and> js_truthy (ts_userinfoUri endpoints)
                            then Some (ts_userinfoUri endpoints) else None)\<rparr>))"

definition ts_oauth2ProxyOIDC ::
    "(js_string \<Rightarrow> js_string) \<Rightarrow> (js_value \<Rightarrow> 'k option) \<Rightarrow> (js_string \<Rightarrow> ts_fetched) \<Rightarrow>
     js_string \<Rightarrow> 'k ts_options \<Rightarrow> (ts_startup_error, 'k ts_verifier) result" where
  "ts_oauth2ProxyOIDC table remote net issuer opts =
     ts_createVerifier table remote net (opts\<lparr>to_issuer := issuer,
       to_source := (case to_source opts of None \<Rightarrow> Some (ts_defaultSource table) | s \<Rightarrow> s),
       to_userinfoFallback := (case to_userinfoFallback opts of None \<Rightarrow> Some True | b \<Rightarrow> b)\<rparr>)"

section \<open>The userinfo fallback\<close>

text \<open>The cache is an instance of the same interface as Go's.\<close>

interpretation ts_ui: ttl_cache ts_cached ts_store "\<lambda>e. (te_name e, te_email e)" ts_userinfoTTL
  by unfold_locales (simp_all add: ts_cached_def ts_store_def)

lemma ts_emit_sel [simp]: "ts_cache (ts_emit es st) = ts_cache st"
  by (simp add: ts_emit_def)

definition ts_same_authorization :: "ts_identity \<Rightarrow> ts_identity \<Rightarrow> bool" where
  "ts_same_authorization i j \<longleftrightarrow> ts_subject i = ts_subject j \<and> ts_roles i = ts_roles j \<and>
     ts_token i = ts_token j \<and> ts_claims i = ts_claims j"

lemma ts_same_authorization_display [simp]:
  "ts_same_authorization i i"
  "ts_same_authorization (ts_display i n e) j \<longleftrightarrow> ts_same_authorization i j"
  by (simp_all add: ts_same_authorization_def ts_display_def)

lemma ts_display_sel [simp]:
  "ts_name (ts_display i n e) = n" "ts_email (ts_display i n e) = e"
  by (simp_all add: ts_display_def)

text \<open>An answer about a subject: a 2xx response whose body names it, with what it says.\<close>

definition ts_answer :: "ts_fetched \<Rightarrow> js_string \<Rightarrow> js_value \<Rightarrow> js_value \<Rightarrow> bool" where
  "ts_answer fetched subject name email \<longleftrightarrow>
     (\<exists>status body n e. fetched = Fetched status (Some body) \<and> response_ok status \<and>
        js_get body (units ''sub'') = Some (JsString subject) \<and>
        js_get body (units ''name'') = Some n \<and> name = js_default n (JsString []) \<and>
        js_get body (units ''email'') = Some e \<and> email = js_default e (JsString []))"

text \<open>The one answer that makes the call throw: a 2xx body of \<open>null\<close>, which has no properties.\<close>

definition nullish_answer :: "ts_fetched \<Rightarrow> bool" where
  "nullish_answer fetched \<longleftrightarrow>
     (\<exists>status body. fetched = Fetched status (Some body) \<and> response_ok status \<and>
        body \<in> {JsNull, JsUndefined})"

lemma js_get_cases:
  "body \<in> {JsNull, JsUndefined} \<and> (\<forall>name. js_get body name = None) \<or>
   body \<notin> {JsNull, JsUndefined} \<and> (\<forall>name. \<exists>x. js_get body name = Some x)"
  by (cases body) (simp_all add: js_get_def)

lemma ts_fill_cases:
  obtains (hit) e where "ts_cached (ts_cache st) (ts_subject i) t = Some e"
      "ts_fill uri net t t' tok i st = (Inr (ts_display i (te_name e) (te_email e)), st)"
  | (kept) st' where "ts_cached (ts_cache st) (ts_subject i) t = None"
      "\<not> nullish_answer (net uri (units ''Bearer '' @ tok))"
      "ts_fill uri net t t' tok i st = (Inr i, st')" "ts_cache st' = ts_cache st"
  | (shown) n e st' where "ts_cached (ts_cache st) (ts_subject i) t = None"
      "ts_answer (net uri (units ''Bearer '' @ tok)) (ts_subject i) n e"
      "ts_fill uri net t t' tok i st = (Inr (ts_display i n e), st')"
      "ts_cache st' = ts_store (ts_cache st) (ts_subject i) (n, e) t'"
  | (thrown) st' where "ts_cached (ts_cache st) (ts_subject i) t = None"
      "nullish_answer (net uri (units ''Bearer '' @ tok))"
      "ts_fill uri net t t' tok i st = (Inl (Thrown TypeError), st')" "ts_cache st' = ts_cache st"
proof (cases "ts_cached (ts_cache st) (ts_subject i) t")
  case (Some e)
  with hit show thesis by (simp add: ts_fill_def)
next
  case none: None
  show thesis
  proof (cases "\<exists>status body. net uri (units ''Bearer '' @ tok) = Fetched status (Some body) \<and> response_ok status")
    case True
    then obtain status body where f: "net uri (units ''Bearer '' @ tok) = Fetched status (Some body)"
      and ok: "response_ok status"
      by blast
    consider "body \<in> {JsNull, JsUndefined}" "\<forall>name. js_get body name = None"
      | "body \<notin> {JsNull, JsUndefined}" "\<forall>name. \<exists>x. js_get body name = Some x"
      using js_get_cases [of body] by metis
    then show thesis
    proof cases
      case 1
      with none f ok show thesis
        by (intro thrown [of "snd (ts_fill uri net t t' tok i st)"]) (auto simp: ts_fill_def nullish_answer_def Let_def)
    next
      case 2
      then obtain sub n e where get: "js_get body (units ''sub'') = Some sub"
        "js_get body (units ''name'') = Some n" "js_get body (units ''email'') = Some e"
        by metis
      show thesis
      proof (cases "sub = JsString (ts_subject i)")
        case True
        with none f ok get show thesis
          by (intro shown [of "js_default n (JsString [])" "js_default e (JsString [])"
                "snd (ts_fill uri net t t' tok i st)"])
            (simp_all add: ts_fill_def ts_answer_def Let_def del: units_simps)
      next
        case False
        with none f ok get 2(1) show thesis
          by (intro kept [of "snd (ts_fill uri net t t' tok i st)"]) (simp_all add: ts_fill_def nullish_answer_def Let_def del: units_simps)
      qed
    qed
  next
    case False
    with none show thesis
      by (intro kept [of "snd (ts_fill uri net t t' tok i st)"]) (auto simp: ts_fill_def nullish_answer_def Let_def
          split: ts_fetched.split option.split)
  qed
qed

text \<open>The TypeScript fallback displays a cached answer less than an hour old or the endpoint's
  present answer, in both cases about the very subject of the token, and changes nothing else.\<close>

lemma ts_fill_sound:
  assumes "ts_fill uri net t t' tok i st = (Inr j, st')"
  shows "ts_same_authorization j i \<and>
     (j = i \<or>
      (\<exists>e. ts_cache st (ts_subject i) = Some e \<and> t - te_fetchedAt e < 3600000 \<and>
         j = ts_display i (te_name e) (te_email e) \<and> st' = st) \<or>
      (\<exists>n e. ts_answer (net uri (units ''Bearer '' @ tok)) (ts_subject i) n e \<and>
         j = ts_display i n e))"
proof (cases rule: ts_fill_cases [where uri = uri and net = net and t = t and t' = t'
      and tok = tok and i = i and st = st])
  case (hit e)
  with assms have "j = ts_display i (te_name e) (te_email e)" "st' = st" by simp_all
  moreover from hit(1) have "ts_cache st (ts_subject i) = Some e" "t - te_fetchedAt e < 3600000"
    by (auto simp: ts_cached_def ts_userinfoTTL_def split: option.splits if_splits)
  ultimately show ?thesis by auto
next
  case (kept st'')
  with assms show ?thesis by simp
next
  case (shown n e st'')
  with assms have "j = ts_display i n e" by simp
  with shown(2) show ?thesis by auto
next
  case (thrown st'')
  with assms show ?thesis by simp
qed

text \<open>After an answer was displayed, every call for that subject within the hour displays it, and
  asks nothing, whatever the endpoint would answer by then.\<close>

lemma ts_fill_cached_hour:
  assumes "ts_cached (ts_cache st) (ts_subject i) t = None"
    and "ts_answer (net uri (units ''Bearer '' @ tok)) (ts_subject i) n e"
    and "ts_subject j = ts_subject i" and "now - t' < 3600000"
  shows "ts_fill uri net' now t'' tok' j (snd (ts_fill uri net t t' tok i st)) =
     (Inr (ts_display j n e), snd (ts_fill uri net t t' tok i st))"
proof -
  let ?st = "snd (ts_fill uri net t t' tok i st)"
  obtain status body n0 e0 where "net uri (units ''Bearer '' @ tok) = Fetched status (Some body)"
    and "response_ok status" and "js_get body (units ''sub'') = Some (JsString (ts_subject i))"
    and "js_get body (units ''name'') = Some n0" and "js_get body (units ''email'') = Some e0"
    and "n = js_default n0 (JsString [])" and "e = js_default e0 (JsString [])"
    using assms(2) unfolding ts_answer_def by blast
  with assms(1) have c: "ts_cache ?st = ts_store (ts_cache st) (ts_subject i) (n, e) t'"
    by (simp add: ts_fill_def Let_def del: units_simps)
  have "map_option (\<lambda>e. (te_name e, te_email e)) (ts_cached (ts_cache ?st) (ts_subject j) now) = Some (n, e)"
    unfolding c assms(3) using assms(4) by (intro ts_ui.fresh) (simp add: ts_userinfoTTL_def)
  then obtain en where "ts_cached (ts_cache ?st) (ts_subject j) now = Some en" "te_name en = n" "te_email en = e"
    by auto
  then show ?thesis
    by (simp add: ts_fill_def [of uri net' now])
qed

section \<open>Authentication\<close>

lemma ts_authenticate_cases:
  "ts_authenticate (ts_verifier_auth v w) headers st =
     (case tsv_source v headers of
        None \<Rightarrow> (Inl NoCredentialError, st)
      | Some raw \<Rightarrow>
          (case ts_verify v w raw of
             Inl err \<Rightarrow> (Inl InvalidTokenError, ts_emit [TsWarn (TokenRejected err)] st)
           | Inr payload \<Rightarrow>
               let i = ts_identityFromClaims (tsv_mapper v) payload raw in
               if tsv_userinfo v \<noteq> None \<and> ts_name i = JsString [] \<and> ts_email i = JsString []
               then ts_fill (the (tsv_userinfo v)) (tw_fetch w) (tw_check w) (tw_store w) raw i st
               else (Inr i, st)))"
  by (simp add: ts_verifier_auth_def ts_verifier_authenticate_def Let_def
      split: option.split sum.split)

text \<open>Whether the userinfo endpoint is asked about a verified caller, and throws.\<close>

definition userinfo_throws :: "'k ts_verifier \<Rightarrow> 'k ts_world \<Rightarrow> js_string \<Rightarrow> js_payload \<Rightarrow> ts_state \<Rightarrow> bool" where
  "userinfo_throws v w raw payload st \<longleftrightarrow>
     (let i = ts_identityFromClaims (tsv_mapper v) payload raw in
      \<exists>uri. tsv_userinfo v = Some uri \<and> ts_name i = JsString [] \<and> ts_email i = JsString [] \<and>
        ts_cached (ts_cache st) (ts_subject i) (tw_check w) = None \<and>
        nullish_answer (tw_fetch w uri (units ''Bearer '' @ raw)))"

lemma ts_fill_error_iff:
  "fst (ts_fill uri net t t' tok i st) = Inl e \<longleftrightarrow>
     e = Thrown TypeError \<and> ts_cached (ts_cache st) (ts_subject i) t = None \<and>
     nullish_answer (net uri (units ''Bearer '' @ tok))"
proof (cases rule: ts_fill_cases [where uri = uri and net = net and t = t and t' = t'
      and tok = tok and i = i and st = st])
  case (shown n e' st')
  then have "\<not> nullish_answer (net uri (units ''Bearer '' @ tok))"
    by (auto simp: ts_answer_def nullish_answer_def js_get_def)
  with shown show ?thesis by simp
qed auto

lemma ts_errors_iff:
  "fst (ts_authenticate (ts_verifier_auth v w) headers st) = Inl e \<longleftrightarrow>
     (case tsv_source v headers of
        None \<Rightarrow> e = NoCredentialError
      | Some raw \<Rightarrow>
          (case ts_verify v w raw of
             Inl _ \<Rightarrow> e = InvalidTokenError
           | Inr payload \<Rightarrow> e = Thrown TypeError \<and> userinfo_throws v w raw payload st))"
  by (auto simp: ts_authenticate_cases userinfo_throws_def ts_fill_error_iff Let_def
      split: option.split sum.split)

text \<open>C32: every rejection of the TypeScript verifier: no token, a token \<open>jose\<close> refuses, and, besides
  what the interface documents, a \<open>TypeError\<close> for a verified caller whose userinfo answer is
  \<open>null\<close>.\<close>

theorem ts_authenticate_errors:
  "fst (ts_authenticate (ts_verifier_auth v w) headers st) = Inl e \<longleftrightarrow>
     (case tsv_source v headers of
        None \<Rightarrow> e = NoCredentialError
      | Some raw \<Rightarrow>
          (case ts_verify v w raw of
             Inl _ \<Rightarrow> e = InvalidTokenError
           | Inr payload \<Rightarrow> e = Thrown TypeError \<and> userinfo_throws v w raw payload st))"
  by (rule ts_errors_iff)

text \<open>
  What \<open>jwtVerify\<close> documents: it resolves only to the payload of a token whose signature a key of
  the argument verifies and whose time claims hold (\<open>valid\<close>), of the demanded issuer and for the
  demanded audience.
\<close>

definition for_audience :: "js_payload \<Rightarrow> js_string \<Rightarrow> bool" where
  "for_audience payload aud \<longleftrightarrow>
     (case js_member payload (units ''aud'') of
        JsString a \<Rightarrow> a = aud
      | JsArray xs \<Rightarrow> JsString aud \<in> set xs
      | _ \<Rightarrow> False)"

definition jose_contract :: "('k \<Rightarrow> js_string \<Rightarrow> js_payload \<Rightarrow> bool) \<Rightarrow> 'k ts_world \<Rightarrow> bool" where
  "jose_contract valid w \<longleftrightarrow>
     (\<forall>keys raw iss aud payload. tw_jwtVerify w keys raw iss aud = Inr payload \<longrightarrow>
        valid keys raw payload \<and> js_member payload (units ''iss'') = JsString iss \<and>
        (\<forall>a. aud = Some a \<longrightarrow> for_audience payload a))"

lemma ts_verified:
  assumes "jose_contract valid w"
    and "ts_authenticate (ts_verifier_auth v w) headers st = (Inr j, st')"
  shows "\<exists>payload. tsv_source v headers = Some (ts_token j) \<and>
     valid (tsv_keys v) (ts_token j) payload \<and>
     js_member payload (units ''iss'') = JsString (tsv_issuer v) \<and>
     (tsv_audience v \<noteq> [] \<longrightarrow> for_audience payload (tsv_audience v)) \<and>
     ts_subject j = ts_stringClaim payload (units ''sub'') \<and>
     ts_roles j = ts_claimValues payload (ts_rolesClaim (tsv_mapper v)) \<and> ts_claims j = payload"
proof -
  obtain raw payload where raw: "tsv_source v headers = Some raw" and verify: "ts_verify v w raw = Inr payload"
    using assms(2) by (auto simp: ts_authenticate_cases split: option.splits sum.splits)
  let ?i = "ts_identityFromClaims (tsv_mapper v) payload raw"
  have "ts_same_authorization j ?i"
  proof (cases "tsv_userinfo v \<noteq> None \<and> ts_name ?i = JsString [] \<and> ts_email ?i = JsString []")
    case True
    let ?f = "ts_fill (the (tsv_userinfo v)) (tw_fetch w) (tw_check w) (tw_store w) raw ?i st"
    from True assms(2) raw verify have "?f = (Inr j, st')"
      by (simp add: ts_authenticate_cases Let_def)
    then show ?thesis
      by (cases rule: ts_fill_cases [where uri = "the (tsv_userinfo v)" and net = "tw_fetch w"
            and t = "tw_check w" and t' = "tw_store w" and tok = raw and i = ?i and st = st]) auto
  next
    case False
    with assms(2) raw verify have "j = ?i"
      by (auto simp: ts_authenticate_cases Let_def split: if_splits)
    then show ?thesis by simp
  qed
  moreover have "valid (tsv_keys v) raw payload" "js_member payload (units ''iss'') = JsString (tsv_issuer v)"
    "tsv_audience v \<noteq> [] \<longrightarrow> for_audience payload (tsv_audience v)"
    using assms(1) verify unfolding jose_contract_def ts_verify_def by (auto split: if_splits)
  ultimately show ?thesis
    using raw by (auto simp: ts_same_authorization_def ts_identityFromClaims_def)
qed

text \<open>The TypeScript verifier resolves to an identity only for its source's token, verified
  under its keys, of the configured issuer and audience; subject, roles, token and claims are
  that token's, whatever the userinfo fallback did.\<close>

lemma ts_authenticate_sound:
  assumes "jose_contract valid w"
    and "ts_authenticate (ts_verifier_auth v w) headers st = (Inr j, st')"
  shows "\<exists>payload. tsv_source v headers = Some (ts_token j) \<and>
     valid (tsv_keys v) (ts_token j) payload \<and>
     js_member payload (units ''iss'') = JsString (tsv_issuer v) \<and>
     (tsv_audience v \<noteq> [] \<longrightarrow> for_audience payload (tsv_audience v)) \<and>
     ts_subject j = ts_stringClaim payload (units ''sub'') \<and>
     ts_roles j = ts_claimValues payload (ts_rolesClaim (tsv_mapper v)) \<and> ts_claims j = payload"
  by (rule ts_verified [OF assms])

end
