(* ===== verification/Gate.thy ===== *)
theory Gate
  imports Identity
begin

text \<open>
  What the three adapters promise in common, as one abstract decision: a request is
  unauthenticated, authenticated but forbidden, or admitted with an identity. The locale
  \<open>gated\<close> says that an adapter is this decision followed by its own three continuations, and
  derives from it what may depend on the protected handler. Each adapter interprets it.
\<close>

datatype verdict = Unauthenticated auth_error | Forbidden | Admitted identity

text \<open>
  \<open>demand\<close> is what the adapter asks of an identity; it is not asked when the authenticator
  reports that it verifies nothing.
\<close>

definition gate ::
    "'s authenticator \<Rightarrow> (identity \<Rightarrow> bool) \<Rightarrow> headers \<Rightarrow> 's \<Rightarrow> verdict \<times> 's" where
  "gate auth demand h s =
     (case Authenticate auth h s of
        (Inl e, s') \<Rightarrow> (Unauthenticated e, s')
      | (Inr i, s') \<Rightarrow>
          if Enabled auth \<and> \<not> demand i then (Forbidden, s') else (Admitted i, s'))"

lemma gate_admitted_iff [gate]:
  "gate auth demand h s = (Admitted i, s') \<longleftrightarrow>
     Authenticate auth h s = (Inr i, s') \<and> (Enabled auth \<longrightarrow> demand i)"
  by (auto simp: gate_def split: prod.split sum.split)

lemma gate_state: "snd (gate auth demand h s) = snd (Authenticate auth h s)"
  by (auto simp: gate_def split: prod.split sum.split)

lemma gate_no_demand:
  "gate auth (\<lambda>_. True) h s =
     (case Authenticate auth h s of
        (Inl e, s') \<Rightarrow> (Unauthenticated e, s') | (Inr i, s') \<Rightarrow> (Admitted i, s'))"
  by (simp add: gate_def cong: if_cong split: prod.split sum.split)

text \<open>
  An adapter: \<open>run k q s\<close> is the outcome of request \<open>q\<close> with \<open>k\<close> behind the gate. A
  \<open>public\<close> request passes without a decision.
\<close>

locale gated =
  fixes auth :: "'s authenticator"
    and demand :: "'q \<Rightarrow> identity \<Rightarrow> bool"
    and public :: "'q \<Rightarrow> bool"
    and headers_of :: "'q \<Rightarrow> headers"
    and unauthenticated :: "auth_error \<Rightarrow> 'q \<Rightarrow> 's \<Rightarrow> 'o"
    and forbidden :: "'q \<Rightarrow> 's \<Rightarrow> 'o"
    and pass :: "'k \<Rightarrow> 'q \<Rightarrow> 's \<Rightarrow> 'o"
    and admitted :: "'k \<Rightarrow> identity \<Rightarrow> 'q \<Rightarrow> 's \<Rightarrow> 'o"
    and run :: "'k \<Rightarrow> 'q \<Rightarrow> 's \<Rightarrow> 'o"
  assumes run_public: "public q \<Longrightarrow> run k q s = pass k q s"
    and run_gate: "\<not> public q \<Longrightarrow> run k q s =
       (case gate auth (demand q) (headers_of q) s of
          (Unauthenticated e, s') \<Rightarrow> unauthenticated e q s'
        | (Forbidden, s') \<Rightarrow> forbidden q s'
        | (Admitted i, s') \<Rightarrow> admitted k i q s')"
begin

text \<open>Only an admitted request can tell which handler is behind the gate.\<close>

lemma handler_reached:
  assumes "\<not> public q" and "run k q s \<noteq> run k' q s"
  obtains i s' where "Authenticate auth (headers_of q) s = (Inr i, s')"
    and "Enabled auth \<longrightarrow> demand q i"
    and "run k q s = admitted k i q s'"
proof -
  obtain v s' where v: "gate auth (demand q) (headers_of q) s = (v, s')" by fastforce
  with assms obtain i where "v = Admitted i"
    by (cases v) (auto simp: run_gate)
  with v have adm: "gate auth (demand q) (headers_of q) s = (Admitted i, s')" by simp
  then have "run k q s = admitted k i q s'"
    by (simp add: run_gate assms(1))
  with adm that show thesis
    by (simp add: gate_admitted_iff)
qed

lemma run_unauthenticated:
  "\<not> public q \<Longrightarrow> Authenticate auth (headers_of q) s = (Inl e, s') \<Longrightarrow> run k q s = unauthenticated e q s'"
  by (simp add: run_gate gate_def)

lemma run_forbidden:
  "\<not> public q \<Longrightarrow> Authenticate auth (headers_of q) s = (Inr i, s') \<Longrightarrow> Enabled auth \<Longrightarrow> \<not> demand q i \<Longrightarrow>
     run k q s = forbidden q s'"
  by (simp add: run_gate gate_def)

lemma run_admitted:
  "\<not> public q \<Longrightarrow> Authenticate auth (headers_of q) s = (Inr i, s') \<Longrightarrow> Enabled auth \<longrightarrow> demand q i \<Longrightarrow>
     run k q s = admitted k i q s'"
  by (auto simp: run_gate gate_def)

end

end
