(* ===== verification/Fiber_Mw.thy ===== *)
theory Fiber_Mw
  imports Gate
begin

text \<open>
  \<open>adapters/fibermw/fibermw.go\<close>: the Fiber v3 middleware. The framework's request context is a
  parameter: the record \<open>fiber\<close> holds the methods of it that are called, and the predicate
  \<open>fiber_contract\<close> what the code relies on, that a value set under a key is read back under
  it. A handler runs on a context and the authenticator's state; \<open>c.Next()\<close> is the handler
  behind the middleware.
\<close>

section \<open>The framework\<close>

record 'c fiber =
  fib_Get :: "'c \<Rightarrow> string \<Rightarrow> string"
  fib_Locals :: "'c \<Rightarrow> ctx_key \<Rightarrow> ctx_value option"
  fib_SetLocals :: "ctx_key \<Rightarrow> ctx_value \<Rightarrow> 'c \<Rightarrow> 'c"
  fib_UserValue :: "'c \<Rightarrow> ctx_key \<Rightarrow> ctx_value option"
  fib_SetUserValue :: "ctx_key \<Rightarrow> ctx_value \<Rightarrow> 'c \<Rightarrow> 'c"

text \<open>
  Both stores return what was set last under a key. Setting a user value leaves the locals alone,
  unless the framework keeps both in one place: then it sets the same value.
\<close>

definition fiber_contract :: "'c fiber \<Rightarrow> bool" where
  "fiber_contract fib \<longleftrightarrow>
     (\<forall>c k v. fib_Locals fib (fib_SetLocals fib k v c) k = Some v \<and>
        fib_UserValue fib (fib_SetUserValue fib k v c) k = Some v \<and>
        fib_Locals fib (fib_SetUserValue fib k v c) k \<in> {fib_Locals fib c k, Some v})"

text \<open>The errors a handler returns: \<open>fiber.NewError(status, message)\<close>, or another.\<close>

datatype handler_error = FiberError nat string | AppError string

type_synonym ('c, 's) fiber_handler = "'c \<Rightarrow> 's \<Rightarrow> handler_error option \<times> 'c \<times> 's"

section \<open>Operations\<close>

definition StatusUnauthorized :: nat where
  "StatusUnauthorized = 401"

definition StatusForbidden :: nat where
  "StatusForbidden = 403"

definition fiberHeaders :: "'c fiber \<Rightarrow> 'c \<Rightarrow> headers" where
  "fiberHeaders fib c = (\<lambda>name. fib_Get fib c name)"

text \<open>
  \<open>errors.Is\<close> compares with the two sentinels; \<open>OtherError\<close> is an error that wraps neither.
\<close>

definition statusFor :: "auth_error \<Rightarrow> handler_error" where
  "statusFor err =
     (case err of
        ErrNoCredential \<Rightarrow> FiberError StatusUnauthorized
          ''authentication required: reach this service through the gateway''
      | ErrInvalidToken \<Rightarrow> FiberError StatusUnauthorized ''invalid credential''
      | OtherError _ \<Rightarrow> FiberError StatusUnauthorized ''authentication failed'')"

definition attach :: "'c fiber \<Rightarrow> 'c \<Rightarrow> identity \<Rightarrow> 'c" where
  "attach fib c identity =
     fib_SetUserValue fib ContextKey (CIdentity identity)
       (fib_SetLocals fib ContextKey (CIdentity identity) c)"

definition Require ::
    "'c fiber \<Rightarrow> 's authenticator \<Rightarrow> ('c, 's) fiber_handler \<Rightarrow> ('c, 's) fiber_handler" where
  "Require fib auth nxt c s =
     (case Authenticate auth (fiberHeaders fib c) s of
        (Inl err, s) \<Rightarrow> (Some (statusFor err), c, s)
      | (Inr identity, s) \<Rightarrow> nxt (attach fib c identity) s)"

definition Optional ::
    "'c fiber \<Rightarrow> 's authenticator \<Rightarrow> ('c, 's) fiber_handler \<Rightarrow> ('c, 's) fiber_handler" where
  "Optional fib auth nxt c s =
     (case Authenticate auth (fiberHeaders fib c) s of
        (Inr identity, s) \<Rightarrow> nxt (attach fib c identity) s
      | (Inl err, s) \<Rightarrow> nxt c s)"

definition RequireRoles ::
    "'c fiber \<Rightarrow> 's authenticator \<Rightarrow> string list \<Rightarrow> ('c, 's) fiber_handler \<Rightarrow> ('c, 's) fiber_handler"
where
  "RequireRoles fib auth roles nxt c s =
     (case Authenticate auth (fiberHeaders fib c) s of
        (Inl err, s) \<Rightarrow> (Some (statusFor err), c, s)
      | (Inr identity, s) \<Rightarrow>
          if Enabled auth \<and> \<not> HasAnyRole identity roles
          then (Some (FiberError StatusForbidden ''your account holds none of the required roles''), c, s)
          else nxt (attach fib c identity) s)"

definition From :: "'c fiber \<Rightarrow> 'c \<Rightarrow> identity option" where
  "From fib c = as_identity (fib_Locals fib c ContextKey)"

text \<open>
  What \<open>gatewayauth.FromContext\<close> finds in a net/http handler adapted into Fiber, whose context
  reads the user values.
\<close>

definition adapted_FromContext :: "'c fiber \<Rightarrow> 'c \<Rightarrow> identity option" where
  "adapted_FromContext fib c = as_identity (fib_UserValue fib c ContextKey)"

section \<open>The middleware is a gate\<close>

text \<open>\<open>Require\<close> demands nothing of an identity, so it never answers 403.\<close>

interpretation require: gated auth "\<lambda>_ _. True" "\<lambda>_. False" "fiberHeaders fib"
  "\<lambda>e c s. (Some (statusFor e), c, s)" 
  "\<lambda>c s. (Some (FiberError StatusForbidden []), c, s)" "\<lambda>nxt c s. nxt c s" "\<lambda>nxt i c s. nxt (attach fib c i) s"
  "Require fib auth" for fib auth
  by unfold_locales (auto simp: Require_def gate_def split: prod.split sum.split)

interpretation require_roles: gated auth "\<lambda>_ i. HasAnyRole i roles" "\<lambda>_. False" "fiberHeaders fib"
  "\<lambda>e c s. (Some (statusFor e), c, s)"
  "\<lambda>c s. (Some (FiberError StatusForbidden ''your account holds none of the required roles''), c, s)"
  "\<lambda>nxt c s. nxt c s" "\<lambda>nxt i c s. nxt (attach fib c i) s" "RequireRoles fib auth roles" for fib auth roles
  by unfold_locales (auto simp: RequireRoles_def gate_def split: prod.split sum.split)

section \<open>Who reaches the handler\<close>

lemma attach_visible:
  assumes "fiber_contract fib"
  shows "From fib (attach fib c i) = Some i" and "adapted_FromContext fib (attach fib c i) = Some i"
proof -
  let ?c = "fib_SetLocals fib ContextKey (CIdentity i) c"
  have "fib_Locals fib ?c ContextKey = Some (CIdentity i)"
    using assms by (simp add: fiber_contract_def)
  moreover have "fib_Locals fib (attach fib c i) ContextKey \<in>
      {fib_Locals fib ?c ContextKey, Some (CIdentity i)}"
    using assms unfolding fiber_contract_def attach_def by blast
  ultimately show "From fib (attach fib c i) = Some i"
    by (auto simp: From_def as_identity_def)
  show "adapted_FromContext fib (attach fib c i) = Some i"
    using assms by (simp add: fiber_contract_def adapted_FromContext_def attach_def as_identity_def)
qed

text \<open>C22: the handler behind \<open>RequireRoles\<close> can influence the outcome only for a request that
  authenticates and, unless the authenticator is disabled, holds one of the roles; it then finds
  exactly that identity, through Fiber's locals and through an adapted context alike.\<close>

theorem RequireRoles_handler_reached:
  assumes "fiber_contract fib"
    and "RequireRoles fib auth roles nxt c s \<noteq> RequireRoles fib auth roles nxt' c s"
  shows "\<exists>i s' c'. Authenticate auth (fiberHeaders fib c) s = (Inr i, s') \<and>
     (Enabled auth \<longrightarrow> HasAnyRole i roles) \<and>
     RequireRoles fib auth roles nxt c s = nxt c' s' \<and>
     From fib c' = Some i \<and> adapted_FromContext fib c' = Some i"
proof -
  obtain i s' where "Authenticate auth (fiberHeaders fib c) s = (Inr i, s')"
    and "Enabled auth \<longrightarrow> HasAnyRole i roles"
    and "RequireRoles fib auth roles nxt c s = nxt (attach fib c i) s'"
    using require_roles.handler_reached [OF _ assms(2)] by auto
  with attach_visible [OF assms(1)] show ?thesis by blast
qed

text \<open>The outcome of \<open>RequireRoles\<close> in every case: 401 without a valid credential, 403 for a
  verified caller without any of the roles, else the handler's own outcome on the context
  with the identity attached.\<close>

lemma RequireRoles_outcome:
  "RequireRoles fib auth roles nxt c s =
     (case gate auth (\<lambda>i. \<exists>r \<in> set roles. HasRole i r) (fiberHeaders fib c) s of
        (Unauthenticated e, s') \<Rightarrow> (Some (statusFor e), c, s')
      | (Forbidden, s') \<Rightarrow>
          (Some (FiberError 403 ''your account holds none of the required roles''), c, s')
      | (Admitted i, s') \<Rightarrow> nxt (attach fib c i) s')"
  unfolding require_roles.run_gate [simplified] StatusForbidden_def HasAnyRole_iff ..

text \<open>\<open>Require\<close> lets exactly the authenticated requests through, whatever their roles, with
  their identity attached for both kinds of handler; every other one gets 401.\<close>

lemma Require_outcome:
  assumes "fiber_contract fib"
  shows "case Authenticate auth (fiberHeaders fib c) s of
     (Inl e, s') \<Rightarrow> \<exists>msg. Require fib auth nxt c s = (Some (FiberError 401 msg), c, s')
   | (Inr i, s') \<Rightarrow> \<exists>c'. Require fib auth nxt c s = nxt c' s' \<and>
       From fib c' = Some i \<and> adapted_FromContext fib c' = Some i"
  using attach_visible [OF assms]
  by (auto simp: Require_def statusFor_def StatusUnauthorized_def
      split: prod.split sum.split auth_error.split)

text \<open>\<open>Optional\<close> never rejects: the handler always runs, with the identity of a valid
  credential or on the untouched context.\<close>

lemma Optional_outcome:
  assumes "fiber_contract fib"
  shows "case Authenticate auth (fiberHeaders fib c) s of
     (Inl e, s') \<Rightarrow> Optional fib auth nxt c s = nxt c s'
   | (Inr i, s') \<Rightarrow> \<exists>c'. Optional fib auth nxt c s = nxt c' s' \<and>
       From fib c' = Some i \<and> adapted_FromContext fib c' = Some i"
  using attach_visible [OF assms] by (auto simp: Optional_def split: prod.split sum.split)

section \<open>Status codes\<close>

text \<open>A failed authentication is 401 whatever the error, and of an error that is not a
  sentinel nothing reaches the caller.\<close>

lemma statusFor_unauthorized:
  "(\<exists>msg. statusFor e = FiberError 401 msg) \<and> statusFor (OtherError m) = statusFor (OtherError m') \<and>
   (statusFor e = statusFor e' \<longleftrightarrow> e = e' \<or> (\<exists>m m'. e = OtherError m \<and> e' = OtherError m'))"
  by (cases e; cases e') (simp_all add: statusFor_def StatusUnauthorized_def)

text \<open>An authenticator that keeps the interface's promise never gets the fallback message.\<close>

context authenticator
begin

lemma fiber_message:
  assumes "fst (RequireRoles fib auth roles (\<lambda>c s. (None, c, s)) c s) = Some (FiberError 401 msg)"
  shows "msg \<in> {''authentication required: reach this service through the gateway'',
     ''invalid credential''}"
  using assms sentinel [of "fiberHeaders fib c" s]
  by (auto simp: RequireRoles_def statusFor_def StatusUnauthorized_def StatusForbidden_def
      split: prod.splits sum.splits if_splits auth_error.splits)

end

section \<open>A framework\<close>

record example_ctx =
  fx_headers :: headers
  fx_locals :: "ctx_key \<Rightarrow> ctx_value option"
  fx_values :: "ctx_key \<Rightarrow> ctx_value option"

definition example_fiber :: "example_ctx fiber" where
  "example_fiber =
     \<lparr>fib_Get = fx_headers, fib_Locals = fx_locals,
      fib_SetLocals = (\<lambda>k v c. c\<lparr>fx_locals := (fx_locals c)(k \<mapsto> v)\<rparr>),
      fib_UserValue = fx_values,
      fib_SetUserValue = (\<lambda>k v c. c\<lparr>fx_values := (fx_values c)(k \<mapsto> v)\<rparr>)\<rparr>"

lemma example_fiber_contract: "fiber_contract example_fiber"
  by (simp add: fiber_contract_def example_fiber_def)

definition example_request :: example_ctx where
  "example_request = \<lparr>fx_headers = (\<lambda>_. []), fx_locals = (\<lambda>_. None), fx_values = (\<lambda>_. None)\<rparr>"

theorem RequireRoles_handler_reached_witness:
  "\<exists>i. Authenticate (NewDisabled (Some [''op'']) :: unit authenticator)
     (fiberHeaders example_fiber example_request) () = (Inr i, ())"
proof -
  have "RequireRoles example_fiber (NewDisabled (Some [''op''])) [''op''] (\<lambda>c s. (None, c, s)) example_request () \<noteq>
      RequireRoles example_fiber (NewDisabled (Some [''op''])) [''op''] (\<lambda>c s. (Some (AppError []), c, s))
        example_request ()"
    by (simp add: RequireRoles_def NewDisabled_def)
  from RequireRoles_handler_reached [OF example_fiber_contract this] show ?thesis by fastforce
qed

lemma Require_outcome_witness:
  "\<exists>c'. Require example_fiber (NewDisabled None) (\<lambda>c s. (None, c, s)) example_request () = (None, c', ()) \<and>
     map_option Subject (From example_fiber c') = Some ''local''"
  using Require_outcome [OF example_fiber_contract, where auth = "NewDisabled None" and s = "()"
      and c = example_request and nxt = "\<lambda>c s. (None, c, s)"]
  by (auto simp: NewDisabled_def)

lemma Optional_outcome_witness:
  "\<exists>c'. Optional example_fiber (NewDisabled None) (\<lambda>c s. (None, c, s)) example_request () = (None, c', ()) \<and>
     map_option Subject (adapted_FromContext example_fiber c') = Some ''local''"
  using Optional_outcome [OF example_fiber_contract, where auth = "NewDisabled None" and s = "()"
      and c = example_request and nxt = "\<lambda>c s. (None, c, s)"]
  by (auto simp: NewDisabled_def)

end
