(* ===== verification/Sign_Out.thy ===== *)
theory Sign_Out
  imports Go_Url
begin

text \<open>
  \<open>signout.go\<close>: the sign-out URL of a gateway-auth exposure. The base is the proxy prefix with
  one leading and no trailing slash and \<open>/sign_out\<close> behind it; the redirect target becomes
  the \<open>rd\<close> parameter of the query.
\<close>

definition SignOutURL :: "string \<Rightarrow> string \<Rightarrow> string" where
  "SignOutURL proxyPrefix redirectTo =
     (let proxyPrefix = (if proxyPrefix = [] then ''/oauth2'' else proxyPrefix);
          proxyPrefix = (if \<not> has_prefix proxyPrefix ''/'' then ''/'' @ proxyPrefix
                         else proxyPrefix);
          base = trim_right_bytes proxyPrefix ''/'' @ ''/sign_out''
      in if redirectTo = [] then base
         else base @ ''?rd='' @ query_escape redirectTo)"

section \<open>Shape of the base\<close>

lemma SignOutURL_split:
  "SignOutURL p r = SignOutURL p [] @ (if r = [] then [] else ''?rd='' @ query_escape r)"
  by (simp add: SignOutURL_def Let_def)

lemma trim_right_bytes_append:
  "set w \<subseteq> set cs \<Longrightarrow> trim_right_bytes (s @ w) cs = trim_right_bytes s cs"
  by (induction w rule: rev_induct) (auto simp: trim_right_bytes_def simp flip: append_assoc)

lemma has_prefix_append: "s \<noteq> [] \<Longrightarrow> has_prefix (s @ w) [c] = has_prefix s [c]"
  by (cases s) (auto simp: has_prefix_def)

lemma trim_right_bytes_slash_hd:
  "has_prefix s ''/'' \<Longrightarrow> trim_right_bytes s ''/'' = [] \<or> hd (trim_right_bytes s ''/'') = CHR ''/''"
  using trim_right_bytes_split [of s "''/''"]
  by (cases "trim_right_bytes s ''/''") (auto simp: has_prefix_def)

text \<open>Whatever the prefix, the sign-out URL is a rooted path: it starts with a slash and
  ends in \<open>/sign_out\<close> with no doubled slash before it.\<close>

lemma SignOutURL_shape:
  "\<exists>base. SignOutURL p [] = base @ ''/sign_out'' \<and>
     hd (SignOutURL p []) = CHR ''/'' \<and> (\<nexists>b. base = b @ ''/'')"
proof -
  define q where "q = (let p = (if p = [] then ''/oauth2'' else p)
    in if \<not> has_prefix p ''/'' then ''/'' @ p else p)"
  define base where "base = trim_right_bytes q ''/''"
  have url: "SignOutURL p [] = base @ ''/sign_out''"
    by (simp add: SignOutURL_def q_def base_def Let_def)
  have "has_prefix q ''/''"
    by (simp add: q_def has_prefix_def Let_def)
  then have "base = [] \<or> hd base = CHR ''/''"
    unfolding base_def by (rule trim_right_bytes_slash_hd)
  then have "hd (SignOutURL p []) = CHR ''/''"
    unfolding url by (cases base) auto
  moreover have "\<nexists>b. base = b @ ''/''"
    using trim_right_bytes_last [of q "''/''"] by (auto simp: base_def)
  ultimately show ?thesis
    using url by blast
qed

lemma SignOutURL_rooted: "\<exists>u. SignOutURL p r = CHR ''/'' # u"
  using SignOutURL_shape [of p] SignOutURL_split [of p r] by (cases "SignOutURL p []") auto

text \<open>Slashes around a prefix make no difference.\<close>

lemma SignOutURL_normalises:
  assumes "p \<noteq> []" and "set w \<subseteq> {CHR ''/''}"
  shows "SignOutURL (p @ w) r = SignOutURL p r \<and>
     (\<not> has_prefix p ''/'' \<longrightarrow> SignOutURL (''/'' @ p) r = SignOutURL p r)"
proof -
  have "trim_right_bytes (q @ w) ''/'' = trim_right_bytes q ''/''" for q
    using assms(2) by (intro trim_right_bytes_append) auto
  from this [of p] this [of "''/'' @ p"] assms(1) show ?thesis
    by (simp add: SignOutURL_def Let_def has_prefix_append) (simp add: has_prefix_def)
qed

lemma SignOutURL_normalises_witness:
  "SignOutURL ''_gwauth//'' ''/'' = SignOutURL ''/_gwauth'' ''/''"
  using SignOutURL_normalises [of "''_gwauth''" "''//''" "''/''"] by (simp add: has_prefix_def)

section \<open>The redirect parameter\<close>

text \<open>C40: the proxy recovers the redirect target exactly, and the target cannot add a second
  query parameter or a fragment to the URL.\<close>

theorem SignOutURL_redirect_roundtrip:
  assumes "r \<noteq> []"
  shows "\<exists>e. SignOutURL p r = SignOutURL p [] @ ''?rd='' @ e \<and> query_unescape e = Some r \<and>
     set e \<inter> {CHR ''&'', CHR ''='', CHR ''#'', CHR ''?'', CHR '';'', CHR '' ''} = {}"
proof (intro exI conjI)
  show "SignOutURL p r = SignOutURL p [] @ ''?rd='' @ query_escape r"
    using assms by (subst SignOutURL_split) simp
qed (rule query_unescape_escape query_escape_no_delims)+

theorem SignOutURL_redirect_roundtrip_witness:
  "\<exists>e. SignOutURL ''/_gwauth'' ''/a b?c=d&e'' = ''/_gwauth/sign_out?rd='' @ e \<and>
     query_unescape e = Some ''/a b?c=d&e''"
proof -
  have "SignOutURL ''/_gwauth'' [] = ''/_gwauth/sign_out''" by code_simp
  then show ?thesis
    using SignOutURL_redirect_roundtrip [of "''/a b?c=d&e''" "''/_gwauth''"] by auto
qed

lemma SignOutURL_redirect_inj: "SignOutURL p r = SignOutURL p r' \<Longrightarrow> r = r'"
  by (simp add: SignOutURL_def Let_def split: if_split_asm) (simp_all add: query_escape_inj)

end
