(* ===== verification/Ts_Adapters.thy ===== *)
theory Ts_Adapters
  imports Ts_Verify Fiber_Mw Sign_Out
begin

text \<open>
  \<open>ts/src/adapters.ts\<close> and \<open>signout.ts\<close>, and the comparison of the TypeScript package with the Go
  package it mirrors: where they decide alike, and the answers on which they part.
\<close>

section \<open>Headers\<close>

text \<open>Node's headers: a value, several values of a repeated header, or \<open>undefined\<close>.\<close>

datatype node_header = OneValue js_string | ManyValues "js_string list"

type_synonym node_headers = "js_string \<Rightarrow> node_header option"

definition fromNodeHeaders :: "(js_string \<Rightarrow> js_string) \<Rightarrow> node_headers \<Rightarrow> js_headers" where
  "fromNodeHeaders table headers name =
     (case headers (js_lower table name) of
        None \<Rightarrow> None
      | Some (OneValue val) \<Rightarrow> Some val
      | Some (ManyValues vals) \<Rightarrow> Some (js_join vals (units '', '')))"

text \<open>\<open>get\<close> is \<open>Headers.get\<close>, with \<open>None\<close> for the \<open>null\<close> of an absent header.\<close>

definition fromFetchHeaders :: "(js_string \<Rightarrow> js_string option) \<Rightarrow> js_headers" where
  "fromFetchHeaders get name = get name"

section \<open>Middleware\<close>

record ts_request =
  tr_headers :: node_headers
  tr_identity :: "ts_identity option"

text \<open>A reply of the middleware, or what the handlers behind \<open>next\<close> make of the request.\<close>

datatype 'o ts_outcome = TsReply nat string | TsNext 'o

definition sendAuthError :: "ts_error \<Rightarrow> 'o ts_outcome" where
  "sendAuthError err =
     (case err of
        NoCredentialError \<Rightarrow>
          TsReply 401 ''authentication required: reach this service through the gateway''
      | InvalidTokenError \<Rightarrow> TsReply 401 ''invalid credential''
      | Thrown _ \<Rightarrow> TsReply 401 ''authentication failed'')"

definition authenticateThen ::
    "(js_string \<Rightarrow> js_string) \<Rightarrow> 's ts_authenticator \<Rightarrow> js_string list option \<Rightarrow>
     (ts_request \<Rightarrow> 's \<Rightarrow> 'o \<times> 's) \<Rightarrow> ts_request \<Rightarrow> 's \<Rightarrow> 'o ts_outcome \<times> 's" where
  "authenticateThen table auth roles nxt req s =
     (case ts_authenticate auth (fromNodeHeaders table (tr_headers req)) s of
        (Inl err, s) \<Rightarrow> (sendAuthError err, s)
      | (Inr identity, s) \<Rightarrow>
          if roles \<noteq> None \<and> 0 < length (the roles) \<and> ts_enabled auth \<and>
             \<not> ts_hasAnyRole identity (the roles)
          then (TsReply 403 ''your account holds none of the required roles'', s)
          else case nxt (req\<lparr>tr_identity := Some identity\<rparr>) s of (o', s) \<Rightarrow> (TsNext o', s))"

definition ts_middleware ::
    "(js_string \<Rightarrow> js_string) \<Rightarrow> 's ts_authenticator \<Rightarrow>
     (ts_request \<Rightarrow> 's \<Rightarrow> 'o \<times> 's) \<Rightarrow> ts_request \<Rightarrow> 's \<Rightarrow> 'o ts_outcome \<times> 's" where
  "ts_middleware table auth = authenticateThen table auth None"

definition ts_requireRoles ::
    "(js_string \<Rightarrow> js_string) \<Rightarrow> 's ts_authenticator \<Rightarrow> js_string list \<Rightarrow>
     (ts_request \<Rightarrow> 's \<Rightarrow> 'o \<times> 's) \<Rightarrow> ts_request \<Rightarrow> 's \<Rightarrow> 'o ts_outcome \<times> 's" where
  "ts_requireRoles table auth roles = authenticateThen table auth (Some roles)"

section \<open>Sign-out\<close>

text \<open>The link; \<open>None\<close> is the \<open>URIError\<close> of \<open>encodeURIComponent\<close>.\<close>

definition ts_signOutUrl :: "js_string option \<Rightarrow> js_string option \<Rightarrow> js_string option" where
  "ts_signOutUrl proxyPrefix redirectTo =
     (let proxyPrefix = (case proxyPrefix of Some p \<Rightarrow> p | None \<Rightarrow> units ''/oauth2'');
          prefix = (if js_startsWith proxyPrefix (units ''/'') then proxyPrefix
                    else units ''/'' @ proxyPrefix);
          slash = of_char CHR ''/'';
          base = rev (dropWhile (\<lambda>u. u = slash) (rev prefix)) @ units ''/sign_out''
      in case redirectTo of
           None \<Rightarrow> Some base
         | Some target \<Rightarrow>
             if target = [] then Some base
             else map_option (\<lambda>e. base @ units ''?rd='' @ e) (encodeURIComponent target))"

section \<open>Who reaches the handler\<close>

text \<open>C17: behind \<open>requireRoles\<close> with a verifier, the handlers are reached only with an identity on
  the request that was verified for the request's own token, for the configured issuer and audience,
  and that holds one of the roles, unless the list of roles is empty: the comment's 403 is then never
  sent, and every identity so verified gets through.\<close>

theorem ts_requireRoles_reached:
  assumes "jose_contract valid w"
    and "ts_requireRoles table (ts_verifier_auth v w) roles (\<lambda>req s. (req, s)) req st = (TsNext req', st')"
  shows "\<exists>j payload. tr_identity req' = Some j \<and> tr_headers req' = tr_headers req \<and>
     tsv_source v (fromNodeHeaders table (tr_headers req)) = Some (ts_token j) \<and>
     valid (tsv_keys v) (ts_token j) payload \<and>
     js_member payload (units ''iss'') = JsString (tsv_issuer v) \<and>
     (tsv_audience v \<noteq> [] \<longrightarrow> for_audience payload (tsv_audience v)) \<and>
     (roles = [] \<or> (\<exists>r \<in> set roles. r \<in> set (ts_claimValues payload (ts_rolesClaim (tsv_mapper v)))))"
proof -
  obtain j where auth: "ts_authenticate (ts_verifier_auth v w) (fromNodeHeaders table (tr_headers req)) st =
      (Inr j, st')"
    and roles: "roles = [] \<or> ts_hasAnyRole j roles" and req': "req' = req\<lparr>tr_identity := Some j\<rparr>"
    using assms(2)
    by (auto simp: ts_requireRoles_def authenticateThen_def ts_verifier_auth_def sendAuthError_def
        split: prod.splits sum.splits if_splits ts_error.splits)
  from ts_verified [OF assms(1) auth] obtain payload where
    "tsv_source v (fromNodeHeaders table (tr_headers req)) = Some (ts_token j)"
    "valid (tsv_keys v) (ts_token j) payload" "js_member payload (units ''iss'') = JsString (tsv_issuer v)"
    "tsv_audience v \<noteq> [] \<longrightarrow> for_audience payload (tsv_audience v)"
    "ts_roles j = ts_claimValues payload (ts_rolesClaim (tsv_mapper v))"
    by blast
  with roles req' show ?thesis
    by (auto simp: ts_hasAnyRole_def ts_hasRole_def list_ex_iff)
qed

section \<open>The two packages\<close>

text \<open>
  Two verifiers configured alike: the default source, the same claim names, and libraries that at
  this time accept the same ASCII tokens with the same payloads.
\<close>

definition mirrors ::
    "'ks library \<Rightarrow> verifier \<Rightarrow> 'ks option \<Rightarrow> int \<Rightarrow> (js_string \<Rightarrow> js_string) \<Rightarrow> 'k ts_verifier \<Rightarrow>
     'k ts_world \<Rightarrow> bool" where
  "mirrors lib v ks now table tv tw \<longleftrightarrow>
     v_source v = DefaultSource \<and> tsv_source tv = ts_defaultSource table \<and>
     same_mapper (v_mapper v) (tsv_mapper tv) \<and>
     (\<forall>raw. is_ascii raw \<longrightarrow>
        (case v_parse lib v ks now raw of
           Inl _ \<Rightarrow> (\<exists>err. ts_verify tv tw (units raw) = Inl err)
         | Inr token \<Rightarrow> (\<exists>payload. ts_verify tv tw (units raw) = Inr payload \<and> same_token token payload)))"

lemma source_ascii:
  assumes "same_headers h headers" and "source_token orbit DefaultSource h = Some raw"
  shows "is_ascii raw"
proof -
  have "is_ascii t" if "HeaderSource_Token orbit name scheme h = Some t" for name scheme t
    using that same_headers_text(2) [OF assms(1), of name]
    by (auto simp: HeaderSource_Token_def Let_def split: if_splits
        intro!: is_ascii_trim_space is_ascii_drop)
  with assms(2) show ?thesis
    by (auto simp: DefaultSource_def OAuth2ProxyAccessToken_def AuthorizationBearer_def
        split: option.splits)
qed

text \<open>What the two verifiers make of one request, before their display fallbacks.\<close>

lemma mirrored_request:
  assumes "mirrors lib v ks now table tv tw" and "same_headers h headers"
  obtains (none) "source_token (lib_orbit lib) (v_source v) h = None" and "tsv_source tv headers = None"
  | (refused) raw err err' where "source_token (lib_orbit lib) (v_source v) h = Some raw"
      and "tsv_source tv headers = Some (units raw)"
      and "v_parse lib v ks now raw = Inl err" and "ts_verify tv tw (units raw) = Inl err'"
  | (verified) raw token payload where "source_token (lib_orbit lib) (v_source v) h = Some raw"
      and "tsv_source tv headers = Some (units raw)"
      and "v_parse lib v ks now raw = Inr token" and "ts_verify tv tw (units raw) = Inr payload"
      and "same_identity (mapper_identity (v_mapper v) token raw)
        (ts_identityFromClaims (tsv_mapper tv) payload (units raw))"
proof -
  have src: "v_source v = DefaultSource" "tsv_source tv = ts_defaultSource table"
    and mapper: "same_mapper (v_mapper v) (tsv_mapper tv)"
    using assms(1) by (simp_all add: mirrors_def)
  have agree: "tsv_source tv headers = map_option units (source_token (lib_orbit lib) (v_source v) h)"
    unfolding src by (rule defaultSource_agrees [OF assms(2)])
  show thesis
  proof (cases "source_token (lib_orbit lib) (v_source v) h")
    case None
    with agree show thesis by (intro none) simp_all
  next
    case (Some raw)
    with src(1) have "is_ascii raw"
      using source_ascii [OF assms(2)] by simp
    with assms(1) have parse: "case v_parse lib v ks now raw of
        Inl _ \<Rightarrow> (\<exists>err. ts_verify tv tw (units raw) = Inl err)
      | Inr token \<Rightarrow> (\<exists>payload. ts_verify tv tw (units raw) = Inr payload \<and> same_token token payload)"
      by (simp add: mirrors_def)
    show thesis
    proof (cases "v_parse lib v ks now raw")
      case (Inl err)
      with parse obtain err' where "ts_verify tv tw (units raw) = Inl err'" by auto
      with Some Inl agree show thesis by (intro refused) simp_all
    next
      case (Inr token)
      with parse obtain payload where "ts_verify tv tw (units raw) = Inr payload" "same_token token payload"
        by auto
      with Some Inr agree identityFromClaims_agrees [OF _ mapper] show thesis
        by (intro verified) simp_all
    qed
  qed
qed

lemma go_verified:
  assumes "source_token (lib_orbit lib) (v_source v) h = Some raw"
    and "v_parse lib v (keySet_Set (g_keys st)) (now_parse w) raw = Inr token"
  shows "\<exists>i st'. Authenticate (verifier_auth lib v w) h st = (Inr i, st') \<and>
     same_authorization i (mapper_identity (v_mapper v) token raw)"
proof -
  let ?m = "mapper_identity (v_mapper v) token raw"
  let ?ks = "keySet_Set (refreshed lib w (g_keys st))"
  obtain i ui where i: "fill_display lib v w h raw ?ks ?m (g_ui st) = (i, ui)"
    by fastforce
  with assms have "Authenticate (verifier_auth lib v w) h st =
      (Inr i, \<lparr>g_keys = refreshed lib w (g_keys st), g_ui = ui\<rparr>)"
    by (simp add: verifier_auth_def verifier_Authenticate_eq)
  moreover have "same_authorization i ?m"
    using fill_display_frame [of lib v w h raw ?ks ?m "g_ui st"] i by simp
  ultimately show ?thesis by blast
qed

lemma ts_verified_identity:
  assumes "tsv_source v headers = Some raw" and "ts_verify v w raw = Inr payload"
    and "\<And>x. fst (ts_authenticate (ts_verifier_auth v w) headers st) \<noteq> Inl (Thrown x)"
  shows "\<exists>j st'. ts_authenticate (ts_verifier_auth v w) headers st = (Inr j, st') \<and>
     ts_same_authorization j (ts_identityFromClaims (tsv_mapper v) payload raw)"
proof -
  let ?i = "ts_identityFromClaims (tsv_mapper v) payload raw"
  let ?f = "ts_fill (the (tsv_userinfo v)) (tw_fetch w) (tw_check w) (tw_store w) raw ?i st"
  have eq: "ts_authenticate (ts_verifier_auth v w) headers st =
      (if tsv_userinfo v \<noteq> None \<and> ts_name ?i = JsString [] \<and> ts_email ?i = JsString []
       then ?f else (Inr ?i, st))"
    using assms(1,2) by (simp add: ts_authenticate_cases Let_def)
  have fill: "\<exists>j st'. ?f = (Inr j, st') \<and> ts_same_authorization j ?i" if "fst ?f \<noteq> Inl (Thrown TypeError)"
    using that
    by (cases rule: ts_fill_cases [where uri = "the (tsv_userinfo v)" and net = "tw_fetch w"
          and t = "tw_check w" and t' = "tw_store w" and tok = raw and i = ?i and st = st]) auto
  show ?thesis
  proof (cases "tsv_userinfo v \<noteq> None \<and> ts_name ?i = JsString [] \<and> ts_email ?i = JsString []")
    case True
    then have "ts_authenticate (ts_verifier_auth v w) headers st = ?f"
      unfolding eq by (rule if_P)
    with fill assms(3) show ?thesis by metis
  next
    case False
    then have "ts_authenticate (ts_verifier_auth v w) headers st = (Inr ?i, st)"
      unfolding eq by (rule if_not_P)
    then show ?thesis by auto
  qed
qed

text \<open>C16: the two packages decide alike: behind verifiers configured alike, on the same ASCII
  request and the same roles, \<open>requireRoles\<close> replies exactly the status and text that Fiber's
  \<open>RequireRoles\<close> returns as an error, and calls the handlers exactly when Fiber does, unless the
  TypeScript verifier throws or the list of roles is empty: then every caller that authenticates
  gets through in TypeScript, and Fiber answers each of them 403.\<close>

theorem ts_fiber_agree:
  assumes "mirrors lib v (keySet_Set (g_keys st)) (now_parse w) table tv tw"
    and "same_headers (fiberHeaders fib c) (fromNodeHeaders table (tr_headers req))"
    and "\<And>x. fst (ts_authenticate (ts_verifier_auth tv tw) (fromNodeHeaders table (tr_headers req)) ts) \<noteq>
      Inl (Thrown x)"
  shows "case fst (ts_requireRoles table (ts_verifier_auth tv tw) (map units roles) nxt' req ts) of
     TsReply code text \<Rightarrow>
       fst (RequireRoles fib (verifier_auth lib v w) roles nxt c st) = Some (FiberError code text)
   | TsNext _ \<Rightarrow>
       (\<exists>i st'. Authenticate (verifier_auth lib v w) (fiberHeaders fib c) st = (Inr i, st') \<and>
          (if roles = []
           then RequireRoles fib (verifier_auth lib v w) roles nxt c st =
             (Some (FiberError 403 ''your account holds none of the required roles''), c, st')
           else HasAnyRole i roles \<and>
             RequireRoles fib (verifier_auth lib v w) roles nxt c st = nxt (attach fib c i) st'))"
  using assms(1,2)
proof (cases rule: mirrored_request)
  case none
  then show ?thesis
    by (simp add: ts_requireRoles_def authenticateThen_def ts_authenticate_cases sendAuthError_def
        RequireRoles_def verifier_auth_def verifier_Authenticate_eq statusFor_def StatusUnauthorized_def)
next
  case (refused raw err err')
  then show ?thesis
    by (simp add: ts_requireRoles_def authenticateThen_def ts_authenticate_cases sendAuthError_def
        RequireRoles_def verifier_auth_def verifier_Authenticate_eq statusFor_def StatusUnauthorized_def)
next
  case (verified raw token payload)
  obtain i st' where i: "Authenticate (verifier_auth lib v w) (fiberHeaders fib c) st = (Inr i, st')"
    "same_authorization i (mapper_identity (v_mapper v) token raw)"
    using go_verified [OF verified(1,3)] by blast
  obtain j ts' where j: "ts_authenticate (ts_verifier_auth tv tw) (fromNodeHeaders table (tr_headers req)) ts =
      (Inr j, ts')"
    "ts_same_authorization j (ts_identityFromClaims (tsv_mapper tv) payload (units raw))"
    using ts_verified_identity [OF verified(2,4) assms(3)] by blast
  have "ts_roles j = map units (elems (Roles i))"
    using i(2) j(2) verified(5)
    by (simp add: same_authorization_def ts_same_authorization_def same_identity_def
        del: mapper_identity_sel)
  then have roles: "ts_hasAnyRole j (map units roles) \<longleftrightarrow> HasAnyRole i roles"
    by (auto simp: ts_hasAnyRole_def ts_hasRole_def HasAnyRole_iff HasRole_iff list_ex_iff)
  have "ts_enabled (ts_verifier_auth tv tw)" "Enabled (verifier_auth lib v w)"
    by (simp_all add: ts_verifier_auth_def verifier_auth_def)
  with i(1) j(1) roles show ?thesis
    by (cases "roles = []") (simp_all add: ts_requireRoles_def authenticateThen_def RequireRoles_def
        StatusForbidden_def HasAnyRole_def split: prod.split)
qed

section \<open>The sign-out link\<close>

lemma uri_unescape_char:
  "query_unescape (uri_escape_char c @ s) = map_option ((#) c) (query_unescape s)"
proof (cases "uri_unreserved c")
  case True
  then have "c \<noteq> CHR ''%''" "c \<noteq> CHR ''+''"
    by (auto simp: uri_unreserved_def dest: unreserved_not_special)
  with True show ?thesis
    by (simp add: uri_escape_char_def)
next
  case False
  then show ?thesis
    by (simp add: uri_escape_char_def high_nibble)
qed

lemma uri_unescape: "query_unescape (concat (map uri_escape_char s)) = Some s"
  by (induction s) (simp_all add: uri_unescape_char)

lemma code_points_ascii: "is_ascii s \<Longrightarrow> code_points (units s) = Some (bytes s)"
  by (induction s) (auto simp: is_surrogate_def)

lemma utf8_ascii: "is_ascii s \<Longrightarrow> utf8 (bytes s) = s"
  by (induction s) (simp_all add: utf8_def encode_rune_def)

lemma dropWhile_slash:
  "dropWhile (\<lambda>u. u = of_char d) (units s) = units (dropWhile (\<lambda>c. c \<in> set [d]) s)"
  by (induction s) simp_all

lemma ts_signOutUrl_base:
  assumes "p \<noteq> []"
  shows "ts_signOutUrl (Some (units p)) None = Some (units (SignOutURL p []))"
proof -
  have start: "js_startsWith (units p) (units ''/'') \<longleftrightarrow> has_prefix p ''/''"
    by (simp add: js_startsWith_def has_prefix_def units_take del: units_simps(2))
  have "rev (dropWhile (\<lambda>u. u = of_char CHR ''/'') (rev (units q))) = units (trim_right_bytes q ''/'')" for q
    unfolding rev_units dropWhile_slash trim_right_bytes_def ..
  from this [of p] this [of "''/'' @ p"] show ?thesis
    using assms start by (simp add: ts_signOutUrl_def SignOutURL_def Let_def)
qed

text \<open>With a prefix given, the TypeScript sign-out link has the path of the Go link, and
  although the two escape differently, the proxy reads the same redirect target from both.\<close>

lemma ts_signOutUrl_agrees:
  assumes "p \<noteq> []" and "is_ascii r" and "r \<noteq> []"
  shows "\<exists>e e'. ts_signOutUrl (Some (units p)) (Some (units r)) =
       Some (units (SignOutURL p [] @ ''?rd='' @ e)) \<and> query_unescape e = Some r \<and>
     SignOutURL p r = SignOutURL p [] @ ''?rd='' @ e' \<and> query_unescape e' = Some r"
proof -
  let ?e = "concat (map uri_escape_char r)"
  have "encodeURIComponent (units r) = Some (units ?e)"
    using assms(2) by (simp add: encodeURIComponent_def code_points_ascii utf8_ascii)
  moreover have "ts_signOutUrl (Some (units p)) (Some (units r)) =
      Option.bind (ts_signOutUrl (Some (units p)) None)
        (\<lambda>base. map_option (\<lambda>e. base @ units ''?rd='' @ e) (encodeURIComponent (units r)))"
    using assms(3) by (simp add: ts_signOutUrl_def Let_def)
  ultimately have "ts_signOutUrl (Some (units p)) (Some (units r)) =
      Some (units (SignOutURL p [] @ ''?rd='' @ ?e))"
    using ts_signOutUrl_base [OF assms(1)] by simp
  moreover have "SignOutURL p r = SignOutURL p [] @ ''?rd='' @ query_escape r"
    using SignOutURL_split [of p r] assms(3) by simp
  ultimately show ?thesis
    using uri_unescape [of r] query_unescape_escape [of r] by blast
qed

text \<open>An empty prefix is the default prefix in Go; in TypeScript only a missing one is.\<close>

lemma ts_signOutUrl_empty_prefix:
  "ts_signOutUrl (Some []) None = Some (units ''/sign_out'') \<and> SignOutURL [] [] = ''/oauth2/sign_out''"
  by code_simp

section \<open>A userinfo answer of null\<close>

lemma fill_null_answer:
  assumes "net uri (''Bearer '' @ tok) = Response \<lparr>StatusCode = 200, body_bytes = ''null'', body_fails = False\<rparr>"
    and "cached_entry (cache ui) (Subject i) t = None" and "Subject i \<noteq> []"
  shows "fst (fill uri net t t' tok i ui) = i"
proof -
  have "json_decode ''null'' = Some JNull"
    by code_simp
  then have "decode_struct userinfo_fields ''null'' = Some (\<lambda>_. [])"
    by (simp add: decode_struct_def)
  with assms(1) have "ask_userinfo uri net tok = Answer [] [] []"
    by (simp add: ask_userinfo_def StatusOK_def)
  with assms(2,3) show ?thesis
    by (simp add: fill_def Let_def)
qed

text \<open>C18: a userinfo answer that is the JSON value \<open>null\<close> costs a verified caller without a name
  the request in TypeScript: reading a property of it throws outside the fallback's \<open>try\<close>. The Go
  package reads the same answer as naming nobody and returns the identity without a name.\<close>

theorem null_userinfo_divides:
  assumes "mirrors lib v (keySet_Set (g_keys st)) (now_parse w) table tv tw"
    and "same_headers h headers"
    and "source_token (lib_orbit lib) (v_source v) h = Some raw"
    and "v_parse lib v (keySet_Set (g_keys st)) (now_parse w) raw = Inr token"
    and "m = mapper_identity (v_mapper v) token raw" and "Name m = []" and "Email m = []"
    and "Subject m \<noteq> []"
    and "v_displayCookie v = []" and "v_userinfo v = Some uri"
    and "cached_entry (cache (g_ui st)) (Subject m) (now_check w) = None"
    and "endpoint w uri (''Bearer '' @ raw) =
      Response \<lparr>StatusCode = 200, body_bytes = ''null'', body_fails = False\<rparr>"
    and "tsv_userinfo tv = Some uri'" and "ts_cached (ts_cache ts) (units (Subject m)) (tw_check tw) = None"
    and "tw_fetch tw uri' (units (''Bearer '' @ raw)) = Fetched 200 (Some JsNull)"
  shows "fst (Authenticate (verifier_auth lib v w) h st) = Inr m \<and>
     fst (ts_authenticate (ts_verifier_auth tv tw) headers ts) = Inl (Thrown TypeError)"
proof
  have "fst (fill_display lib v w h raw ks m ui) = fst (fill uri (endpoint w) (now_check w) (now_store w) raw m ui)"
    for ks ui
    using assms(6,7,9,10) by (simp add: fill_display_def fillFromDisplayCookie_def fill_userinfo_def)
  then have "fst (fill_display lib v w h raw ks m (g_ui st)) = m" for ks
    using fill_null_answer [of "endpoint w" uri raw, OF assms(12,11,8)] by simp
  then show "fst (Authenticate (verifier_auth lib v w) h st) = Inr m"
    using assms(3-5) by (simp add: verifier_auth_def verifier_Authenticate_eq split_beta)
  show "fst (ts_authenticate (ts_verifier_auth tv tw) headers ts) = Inl (Thrown TypeError)"
    using assms(1,2)
  proof (cases rule: mirrored_request)
    case (verified raw' token' payload)
    let ?j = "ts_identityFromClaims (tsv_mapper tv) payload (units raw)"
    have same: "raw' = raw" "token' = token"
      using verified(1,3) assms(3,4) by simp_all
    then have id: "same_identity m ?j"
      using verified(5) assms(5) by simp
    have "tw_fetch tw uri' (units ''Bearer '' @ units raw) = Fetched 200 (Some JsNull)"
      using assms(15) unfolding units_simps(3) .
    then have "nullish_answer (tw_fetch tw uri' (units ''Bearer '' @ units raw))"
      by (simp add: nullish_answer_def response_ok_def del: units_simps)
    then have "userinfo_throws tv tw (units raw) payload ts"
      using id assms(6,7,13,14) by (simp add: userinfo_throws_def Let_def same_identity_def)
    then show ?thesis
      using verified(2,4) same unfolding ts_errors_iff by simp
  qed (use assms(3,4) in simp_all)
qed

end
