(* ===== verification/Ts_Service.thy ===== *)
theory Ts_Service
  imports Ts_Verify
begin

text \<open>
  The TypeScript verifier in service: any number of \<open>authenticate\<close> calls on one event loop, which
  interleave at their \<open>await\<close>s. Between two of them a call runs alone: up to \<open>jwtVerify\<close>; from its
  result to the lookup in the userinfo cache and the request; and from the response to the store.
\<close>

section \<open>State and steps\<close>

text \<open>The part of \<open>fill\<close> behind its \<open>await\<close>s: the result and the cache.\<close>

definition ts_resume ::
    "ts_identity \<Rightarrow> ts_fetched \<Rightarrow> int \<Rightarrow> ts_cache_map \<Rightarrow> (ts_error, ts_identity) result \<times> ts_cache_map" where
  "ts_resume i fetched now c =
     (case fetched of
        FetchRejects \<Rightarrow> (Inr i, c)
      | Fetched status json \<Rightarrow>
          if \<not> response_ok status then (Inr i, c)
          else case json of
            None \<Rightarrow> (Inr i, c)
          | Some body \<Rightarrow>
              (case (js_get body (units ''sub''), js_get body (units ''name''), js_get body (units ''email'')) of
                 (Some sub, Some name, Some email) \<Rightarrow>
                   if sub \<noteq> JsString (ts_subject i) then (Inr i, c)
                   else
                     let name = js_default name (JsString []);
                         email = js_default email (JsString [])
                     in (Inr (ts_display i name email), ts_store c (ts_subject i) (name, email) now)
               | _ \<Rightarrow> (Inl (Thrown TypeError), c)))"

datatype ts_pc =
    TsReceived
  | TsVerifying js_string
  | TsAsking ts_identity js_string
  | TsAnswered "(ts_error, ts_identity) result"

record ts_call =
  tc_headers :: js_headers
  tc_pc :: ts_pc

text \<open>The cache, the calls, and as history the tokens sent to the userinfo endpoint
  with its responses.\<close>

record ts_service =
  tss_cache :: ts_cache_map
  tss_calls :: "nat \<Rightarrow> ts_call option"
  tss_answers :: "(js_string \<times> ts_fetched) set"

abbreviation ts_move :: "ts_service \<Rightarrow> nat \<Rightarrow> ts_call \<Rightarrow> ts_pc \<Rightarrow> ts_service" where
  "ts_move s k c pc \<equiv> s\<lparr>tss_calls := (tss_calls s)(k \<mapsto> c\<lparr>tc_pc := pc\<rparr>)\<rparr>"

definition ts_asks :: "'k ts_verifier \<Rightarrow> ts_identity \<Rightarrow> bool" where
  "ts_asks v i \<longleftrightarrow> tsv_userinfo v \<noteq> None \<and> ts_name i = JsString [] \<and> ts_email i = JsString []"

text \<open>\<open>W\<close> are the worlds a verification may meet.\<close>

inductive ts_step :: "'k ts_verifier \<Rightarrow> 'k ts_world set \<Rightarrow> ts_service \<Rightarrow> ts_service \<Rightarrow> bool" for v W where
  arrive: "tss_calls s k = None \<Longrightarrow>
     ts_step v W s (s\<lparr>tss_calls := (tss_calls s)(k \<mapsto> \<lparr>tc_headers = h, tc_pc = TsReceived\<rparr>)\<rparr>)"
| no_credential: "tss_calls s k = Some c \<Longrightarrow> tc_pc c = TsReceived \<Longrightarrow>
     tsv_source v (tc_headers c) = None \<Longrightarrow>
     ts_step v W s (ts_move s k c (TsAnswered (Inl NoCredentialError)))"
| verify: "tss_calls s k = Some c \<Longrightarrow> tc_pc c = TsReceived \<Longrightarrow>
     tsv_source v (tc_headers c) = Some raw \<Longrightarrow>
     ts_step v W s (ts_move s k c (TsVerifying raw))"
| refused: "tss_calls s k = Some c \<Longrightarrow> tc_pc c = TsVerifying raw \<Longrightarrow> w \<in> W \<Longrightarrow>
     ts_verify v w raw = Inl err \<Longrightarrow>
     ts_step v W s (ts_move s k c (TsAnswered (Inl InvalidTokenError)))"
| accepted: "tss_calls s k = Some c \<Longrightarrow> tc_pc c = TsVerifying raw \<Longrightarrow> w \<in> W \<Longrightarrow>
     ts_verify v w raw = Inr payload \<Longrightarrow> i = ts_identityFromClaims (tsv_mapper v) payload raw \<Longrightarrow>
     \<not> ts_asks v i \<Longrightarrow>
     ts_step v W s (ts_move s k c (TsAnswered (Inr i)))"
| hit: "tss_calls s k = Some c \<Longrightarrow> tc_pc c = TsVerifying raw \<Longrightarrow> w \<in> W \<Longrightarrow>
     ts_verify v w raw = Inr payload \<Longrightarrow> i = ts_identityFromClaims (tsv_mapper v) payload raw \<Longrightarrow>
     ts_asks v i \<Longrightarrow> ts_cached (tss_cache s) (ts_subject i) now = Some e \<Longrightarrow>
     ts_step v W s (ts_move s k c (TsAnswered (Inr (ts_display i (te_name e) (te_email e)))))"
| miss: "tss_calls s k = Some c \<Longrightarrow> tc_pc c = TsVerifying raw \<Longrightarrow> w \<in> W \<Longrightarrow>
     ts_verify v w raw = Inr payload \<Longrightarrow> i = ts_identityFromClaims (tsv_mapper v) payload raw \<Longrightarrow>
     ts_asks v i \<Longrightarrow> ts_cached (tss_cache s) (ts_subject i) now = None \<Longrightarrow>
     ts_step v W s (ts_move s k c (TsAsking i raw))"
| resume: "tss_calls s k = Some c \<Longrightarrow> tc_pc c = TsAsking i raw \<Longrightarrow>
     ts_resume i fetched now (tss_cache s) = (r, cache') \<Longrightarrow>
     ts_step v W s (ts_move (s\<lparr>tss_cache := cache', tss_answers := insert (raw, fetched) (tss_answers s)\<rparr>)
       k c (TsAnswered r))"

definition ts_start :: ts_service where
  "ts_start = \<lparr>tss_cache = (\<lambda>_. None), tss_calls = (\<lambda>_. None), tss_answers = {}\<rparr>"

inductive ts_reachable :: "'k ts_verifier \<Rightarrow> 'k ts_world set \<Rightarrow> ts_service \<Rightarrow> bool" for v W where
  init: "ts_reachable v W ts_start"
| step: "ts_reachable v W s \<Longrightarrow> ts_step v W s s' \<Longrightarrow> ts_reachable v W s'"

section \<open>The invariant\<close>

definition ts_said :: "ts_service \<Rightarrow> js_string \<Rightarrow> js_value \<Rightarrow> js_value \<Rightarrow> bool" where
  "ts_said s subject n e \<longleftrightarrow> (\<exists>raw fetched. (raw, fetched) \<in> tss_answers s \<and> ts_answer fetched subject n e)"

text \<open>\<open>m\<close> is the identity of a payload that a verification accepted for the token \<open>raw\<close> of \<open>h\<close>.\<close>

definition ts_verified_as ::
    "'k ts_verifier \<Rightarrow> 'k ts_world set \<Rightarrow> js_headers \<Rightarrow> js_string \<Rightarrow> ts_identity \<Rightarrow> bool" where
  "ts_verified_as v W h raw m \<longleftrightarrow> tsv_source v h = Some raw \<and>
     (\<exists>w \<in> W. \<exists>payload. ts_verify v w raw = Inr payload \<and>
        m = ts_identityFromClaims (tsv_mapper v) payload raw)"

fun ts_pc_ok :: "'k ts_verifier \<Rightarrow> 'k ts_world set \<Rightarrow> ts_service \<Rightarrow> js_headers \<Rightarrow> ts_pc \<Rightarrow> bool" where
  "ts_pc_ok v W s h TsReceived = True"
| "ts_pc_ok v W s h (TsVerifying raw) = (tsv_source v h = Some raw)"
| "ts_pc_ok v W s h (TsAsking i raw) = (ts_verified_as v W h raw i \<and> ts_asks v i)"
| "ts_pc_ok v W s h (TsAnswered (Inr j)) =
     (\<exists>raw m. ts_verified_as v W h raw m \<and>
        (j = m \<or> ts_asks v m \<and>
         (\<exists>n e. j = ts_display m n e \<and> ts_said s (ts_subject m) n e)))"
| "ts_pc_ok v W s h (TsAnswered (Inl err)) =
     (case tsv_source v h of
        None \<Rightarrow> err = NoCredentialError
      | Some raw \<Rightarrow> err = InvalidTokenError \<and> (\<exists>w \<in> W. \<exists>why. ts_verify v w raw = Inl why) \<or>
          err = Thrown TypeError \<and> (\<exists>m. ts_verified_as v W h raw m \<and> ts_asks v m) \<and>
          (\<exists>raw' fetched. (raw', fetched) \<in> tss_answers s \<and> nullish_answer fetched))"

definition ts_inv :: "'k ts_verifier \<Rightarrow> 'k ts_world set \<Rightarrow> ts_service \<Rightarrow> bool" where
  "ts_inv v W s \<longleftrightarrow>
     (\<forall>subject e. tss_cache s subject = Some e \<longrightarrow> ts_said s subject (te_name e) (te_email e)) \<and>
     (\<forall>k c. tss_calls s k = Some c \<longrightarrow> ts_pc_ok v W s (tc_headers c) (tc_pc c)) \<and>
     (\<forall>raw fetched. (raw, fetched) \<in> tss_answers s \<longrightarrow> (\<exists>h i. ts_verified_as v W h raw i))"

lemma ts_said_mono: "tss_answers s \<subseteq> tss_answers s' \<Longrightarrow> ts_said s a n e \<Longrightarrow> ts_said s' a n e"
  by (auto simp: ts_said_def)

lemma ts_pc_ok_mono:
  assumes "tss_answers s \<subseteq> tss_answers s'" and "ts_pc_ok v W s h pc"
  shows "ts_pc_ok v W s' h pc"
proof -
  note said = ts_said_mono [OF assms(1)]
  consider (other) "\<And>r. pc \<noteq> TsAnswered r" | (err) err where "pc = TsAnswered (Inl err)"
    | (ok) j where "pc = TsAnswered (Inr j)"
    by (metis sum.exhaust)
  then show ?thesis
  proof cases
    case other
    with assms(2) show ?thesis by (cases pc) auto
  next
    case err
    with assms show ?thesis by (auto split: option.splits)
  next
    case ok
    with assms(2) show ?thesis by simp (metis said)
  qed
qed

lemma ts_resume_cases:
  obtains (kept) "ts_resume i f now c = (Inr i, c)"
  | (shown) n e where "ts_resume i f now c = (Inr (ts_display i n e), ts_store c (ts_subject i) (n, e) now)"
      and "ts_answer f (ts_subject i) n e"
  | (thrown) "ts_resume i f now c = (Inl (Thrown TypeError), c)" and "nullish_answer f"
proof (cases "\<exists>status body. f = Fetched status (Some body) \<and> response_ok status")
  case True
  then obtain status body where f: "f = Fetched status (Some body)" and ok: "response_ok status" by blast
  from js_get_cases [of body] show thesis
  proof
    assume *: "body \<in> {JsNull, JsUndefined} \<and> (\<forall>name. js_get body name = None)"
    with f ok show thesis
      by (intro thrown) (auto simp: ts_resume_def nullish_answer_def simp del: units_simps)
  next
    assume "body \<notin> {JsNull, JsUndefined} \<and> (\<forall>name. \<exists>x. js_get body name = Some x)"
    then obtain sub n e where get: "js_get body (units ''sub'') = Some sub"
        "js_get body (units ''name'') = Some n" "js_get body (units ''email'') = Some e"
      by metis
    show thesis
    proof (cases "sub = JsString (ts_subject i)")
      case True
      with f ok get show thesis
        by (intro shown [of "js_default n (JsString [])" "js_default e (JsString [])"])
          (simp_all add: ts_resume_def ts_answer_def Let_def del: units_simps)
    next
      case False
      with f ok get show thesis
        by (intro kept) (simp add: ts_resume_def del: units_simps)
    qed
  qed
next
  case False
  then show thesis
    by (intro kept) (auto simp: ts_resume_def split: ts_fetched.split option.split)
qed

text \<open>\<open>fill\<close> is the lookup, and behind a miss \<open>ts_resume\<close> on the response.\<close>

lemma ts_fill_resume:
  "fst (ts_fill uri net t t' tok i st) =
     (case ts_cached (ts_cache st) (ts_subject i) t of
        Some e \<Rightarrow> Inr (ts_display i (te_name e) (te_email e))
      | None \<Rightarrow> fst (ts_resume i (net uri (units ''Bearer '' @ tok)) t' (ts_cache st)))"
  "ts_cache (snd (ts_fill uri net t t' tok i st)) =
     (case ts_cached (ts_cache st) (ts_subject i) t of
        Some _ \<Rightarrow> ts_cache st
      | None \<Rightarrow> snd (ts_resume i (net uri (units ''Bearer '' @ tok)) t' (ts_cache st)))"
  by (simp_all add: ts_fill_def ts_resume_def Let_def del: units_simps
      split: option.split ts_fetched.split)

section \<open>Every reachable state\<close>

lemma ts_inv_call: "ts_inv v W s \<Longrightarrow> tss_calls s k = Some c \<Longrightarrow> ts_pc_ok v W s (tc_headers c) (tc_pc c)"
  by (simp add: ts_inv_def)

text \<open>A step that moves one call to a point it may be at, and leaves the cache, keeps the invariant.\<close>

lemma ts_inv_move:
  assumes "ts_inv v W s" and "tss_calls s k = Some c" and "ts_pc_ok v W s (tc_headers c) pc"
  shows "ts_inv v W (ts_move s k c pc)"
proof -
  have "ts_pc_ok v W (ts_move s k c pc) h pc' = ts_pc_ok v W s h pc'" for h pc'
    by (intro iffI) (erule ts_pc_ok_mono [rotated]; simp)+
  with assms show ?thesis
    by (auto simp: ts_inv_def ts_said_def)
qed

lemma ts_step_inv:
  assumes "ts_inv v W s" and "ts_step v W s s'"
  shows "ts_inv v W s'"
  using assms(2)
proof cases
  case (arrive k h)
  have "ts_pc_ok v W s' h' pc = ts_pc_ok v W s h' pc" for h' pc
    unfolding arrive(1) by (intro iffI) (erule ts_pc_ok_mono [rotated]; simp)+
  with assms(1) show ?thesis
    unfolding arrive(1) by (auto simp: ts_inv_def ts_said_def)
next
  case (no_credential k c)
  then show ?thesis by (simp add: ts_inv_move [OF assms(1)])
next
  case (verify k c raw)
  then show ?thesis by (simp add: ts_inv_move [OF assms(1)])
next
  case (refused k c raw w err)
  with ts_inv_call [OF assms(1)] have "tsv_source v (tc_headers c) = Some raw" by fastforce
  with refused show ?thesis by (fastforce intro!: ts_inv_move [OF assms(1)])
next
  case (accepted k c raw w payload i)
  with ts_inv_call [OF assms(1)] have "tsv_source v (tc_headers c) = Some raw" by fastforce
  with accepted have "ts_verified_as v W (tc_headers c) raw i" by (auto simp: ts_verified_as_def)
  then show ?thesis unfolding accepted(1) by (intro ts_inv_move [OF assms(1) accepted(2)]) auto
next
  case (hit k c raw w payload i now e)
  with ts_inv_call [OF assms(1)] have "tsv_source v (tc_headers c) = Some raw" by fastforce
  with hit have "ts_verified_as v W (tc_headers c) raw i" by (auto simp: ts_verified_as_def)
  moreover from hit have "tss_cache s (ts_subject i) = Some e"
    by (auto simp: ts_cached_def split: option.splits if_splits)
  with assms(1) have "ts_said s (ts_subject i) (te_name e) (te_email e)" by (simp add: ts_inv_def)
  ultimately show ?thesis
    using hit(7) unfolding hit(1) by (intro ts_inv_move [OF assms(1) hit(2)]) (simp, blast)
next
  case (miss k c raw w payload i now)
  with ts_inv_call [OF assms(1)] have "tsv_source v (tc_headers c) = Some raw" by fastforce
  with miss have "ts_verified_as v W (tc_headers c) raw i" by (auto simp: ts_verified_as_def)
  with miss show ?thesis by (auto intro!: ts_inv_move [OF assms(1)])
next
  case (resume k c i raw fetched now r cache')
  let ?s = "s\<lparr>tss_cache := cache', tss_answers := insert (raw, fetched) (tss_answers s)\<rparr>"
  from ts_inv_call [OF assms(1) resume(2)] resume(3)
  have i: "ts_verified_as v W (tc_headers c) raw i" "ts_asks v i" by simp_all
  have said: "ts_said s a n e \<Longrightarrow> ts_said ?s a n e" for a n e
    by (erule ts_said_mono [rotated]) auto
  have pcs: "ts_pc_ok v W s h pc \<Longrightarrow> ts_pc_ok v W ?s h pc" for h pc
    by (erule ts_pc_ok_mono [rotated]) auto
  have keep: "ts_inv v W ?s"
    if "cache' = tss_cache s \<or> (\<exists>n e. cache' = ts_store (tss_cache s) (ts_subject i) (n, e) now \<and>
          ts_said ?s (ts_subject i) n e)"
    using assms(1) that said pcs i(1) unfolding ts_inv_def ts_store_def by (fastforce split: if_splits)
  have raw: "tsv_source v (tc_headers c) = Some raw" using i by (simp add: ts_verified_as_def)
  show ?thesis
  proof (cases rule: ts_resume_cases [where i = i and f = fetched and now = now and c = "tss_cache s"])
    case kept
    with resume(4) have "r = Inr i" "cache' = tss_cache s" by simp_all
    have "ts_pc_ok v W ?s (tc_headers c) (TsAnswered r)" using i \<open>r = Inr i\<close> by auto
    then show ?thesis unfolding resume(1) using keep \<open>cache' = _\<close> resume(2) by (intro ts_inv_move) auto
  next
    case (shown n e)
    with resume(4) have r: "r = Inr (ts_display i n e)" "cache' = ts_store (tss_cache s) (ts_subject i) (n, e) now"
      by simp_all
    have a: "ts_said ?s (ts_subject i) n e" using shown(2) by (auto simp: ts_said_def)
    have "ts_pc_ok v W ?s (tc_headers c) (TsAnswered r)" using i a r by auto
    then show ?thesis unfolding resume(1) using keep r a resume(2) by (intro ts_inv_move) auto
  next
    case thrown
    with resume(4) have r: "r = Inl (Thrown TypeError)" "cache' = tss_cache s" by simp_all
    have "ts_pc_ok v W ?s (tc_headers c) (TsAnswered r)" using i raw r thrown(2) by auto
    then show ?thesis unfolding resume(1) using keep r resume(2) by (intro ts_inv_move) auto
  qed
qed

lemma ts_reachable_inv: "ts_reachable v W s \<Longrightarrow> ts_inv v W s"
proof (induction rule: ts_reachable.induct)
  case init
  show ?case by (simp add: ts_inv_def ts_start_def)
qed (rule ts_step_inv)

text \<open>Whatever the other calls did meanwhile: an identity is answered only for the call's own token,
  verified; what it displays beyond the token's claims, the endpoint said about that subject.\<close>

lemma ts_answered_identity:
  assumes "ts_reachable v W s" and "tss_calls s k = Some c" and "tc_pc c = TsAnswered (Inr j)"
    and "\<forall>w\<in>W. jose_contract valid w"
  shows "\<exists>payload m. tsv_source v (tc_headers c) = Some (ts_token j) \<and>
     valid (tsv_keys v) (ts_token j) payload \<and>
     js_member payload (units ''iss'') = JsString (tsv_issuer v) \<and>
     (tsv_audience v \<noteq> [] \<longrightarrow> for_audience payload (tsv_audience v)) \<and>
     m = ts_identityFromClaims (tsv_mapper v) payload (ts_token j) \<and>
     (j = m \<or> ts_asks v m \<and>
      (\<exists>n e. j = ts_display m n e \<and> ts_said s (ts_subject m) n e))"
proof -
  have "ts_pc_ok v W s (tc_headers c) (TsAnswered (Inr j))"
    using ts_inv_call [OF ts_reachable_inv [OF assms(1)] assms(2)] assms(3) by simp
  then obtain raw m where m: "ts_verified_as v W (tc_headers c) raw m"
      and j: "j = m \<or> ts_asks v m \<and> (\<exists>n e. j = ts_display m n e \<and> ts_said s (ts_subject m) n e)"
    by auto
  from m obtain w payload where w: "w \<in> W" "tsv_source v (tc_headers c) = Some raw"
      "ts_verify v w raw = Inr payload" "m = ts_identityFromClaims (tsv_mapper v) payload raw"
    by (auto simp: ts_verified_as_def)
  from assms(4) w(1,3) have "valid (tsv_keys v) raw payload"
      "js_member payload (units ''iss'') = JsString (tsv_issuer v)"
      "tsv_audience v \<noteq> [] \<longrightarrow> for_audience payload (tsv_audience v)"
    unfolding jose_contract_def ts_verify_def by (auto split: if_splits)
  moreover have "ts_token j = raw"
    using j w(4) by (auto simp: ts_identityFromClaims_def ts_display_def)
  ultimately show ?thesis using j w(2,4) by metis
qed

section \<open>One call alone\<close>

text \<open>Steps that take a call to its answer, and the cache they leave, with no other call in between.\<close>

definition ts_runs ::
    "'k ts_verifier \<Rightarrow> 'k ts_world set \<Rightarrow> ts_service \<Rightarrow> nat \<Rightarrow> ts_call \<Rightarrow>
     (ts_error, ts_identity) result \<Rightarrow> ts_cache_map \<Rightarrow> bool" where
  "ts_runs v W s k c r cache' \<longleftrightarrow>
     (\<exists>s'. (ts_step v W)\<^sup>*\<^sup>* s s' \<and> tss_cache s' = cache' \<and>
        tss_calls s' = (tss_calls s)(k \<mapsto> c\<lparr>tc_pc := TsAnswered r\<rparr>))"

lemma ts_runs_now:
  assumes "ts_step v W s (ts_move (s\<lparr>tss_cache := cache', tss_answers := A\<rparr>) k c (TsAnswered r))"
  shows "ts_runs v W s k c r cache'"
  unfolding ts_runs_def using r_into_rtranclp [of "ts_step v W", OF assms] by fastforce

lemma ts_runs_more:
  assumes "ts_step v W s (ts_move s k c pc)"
    and "ts_runs v W (ts_move s k c pc) k (c\<lparr>tc_pc := pc\<rparr>) r cache'"
  shows "ts_runs v W s k c r cache'"
  using assms(2) converse_rtranclp_into_rtranclp [of "ts_step v W", OF assms(1)]
  unfolding ts_runs_def by fastforce

lemma ts_fill_runs:
  assumes c: "tss_calls s k = Some c" "tc_pc c = TsVerifying raw" and w: "w \<in> W"
    and ok: "ts_verify v w raw = Inr payload" "i = ts_identityFromClaims (tsv_mapper v) payload raw" "ts_asks v i"
    and "ts_cache st = tss_cache s"
    and "ts_fill (the (tsv_userinfo v)) (tw_fetch w) (tw_check w) (tw_store w) raw i st = (r, st')"
  shows "ts_runs v W s k c r (ts_cache st')"
proof (cases "ts_cached (tss_cache s) (ts_subject i) (tw_check w)")
  case (Some e)
  have "ts_step v W s (ts_move s k c (TsAnswered (Inr (ts_display i (te_name e) (te_email e)))))"
    by (rule hit [OF c w ok Some])
  moreover have "r = Inr (ts_display i (te_name e) (te_email e))" "ts_cache st' = tss_cache s"
    using assms(7,8) Some by (auto simp: ts_fill_def)
  ultimately show ?thesis by (intro ts_runs_now [where A = "tss_answers s"]) simp
next
  case None
  let ?f = "tw_fetch w (the (tsv_userinfo v)) (units ''Bearer '' @ raw)"
  have res: "ts_resume i ?f (tw_store w) (tss_cache (ts_move s k c (TsAsking i raw))) = (r, ts_cache st')"
    using ts_fill_resume [of "the (tsv_userinfo v)" "tw_fetch w" "tw_check w" "tw_store w" raw i st]
      assms(7,8) None by (auto simp: prod_eq_iff)
  show ?thesis
    by (rule ts_runs_more [OF miss [OF c w ok None] ts_runs_now [OF resume [OF _ _ res]]]) simp_all
qed

text \<open>They are \<open>authenticate\<close>: its answer, and its cache.\<close>

lemma ts_authenticate_runs:
  assumes c: "tss_calls s k = Some c" "tc_pc c = TsReceived" and w: "w \<in> W"
    and st: "ts_cache st = tss_cache s"
    and run: "ts_authenticate (ts_verifier_auth v w) (tc_headers c) st = (r, st')"
  shows "ts_runs v W s k c r (ts_cache st')"
proof (cases "tsv_source v (tc_headers c)")
  case None
  with run have r: "r = Inl NoCredentialError" "st' = st" by (simp_all add: ts_authenticate_cases)
  with no_credential [OF c None, where W = W] show ?thesis
    by (intro ts_runs_now [where A = "tss_answers s"]) (simp add: st)
next
  case raw: (Some raw)
  let ?s = "ts_move s k c (TsVerifying raw)" let ?c = "c\<lparr>tc_pc := TsVerifying raw\<rparr>"
  have c': "tss_calls ?s k = Some ?c" "tc_pc ?c = TsVerifying raw" by simp_all
  have "ts_runs v W ?s k ?c r (ts_cache st')"
  proof (cases "ts_verify v w raw")
    case (Inl err)
    with raw run have "r = Inl InvalidTokenError" "ts_cache st' = ts_cache st"
      by (auto simp: ts_authenticate_cases)
    with refused [OF c' w Inl] show ?thesis
      by (intro ts_runs_now [where A = "tss_answers s"]) (simp add: st)
  next
    case (Inr payload)
    define i where i: "i = ts_identityFromClaims (tsv_mapper v) payload raw"
    show ?thesis
    proof (cases "ts_asks v i")
      case True
      with raw Inr run st show ?thesis
        by (intro ts_fill_runs [OF c' w Inr i True, where st = st])
          (simp_all add: ts_authenticate_cases ts_asks_def i [symmetric] Let_def)
    next
      case False
      with raw Inr run have "r = Inr i" "st' = st"
        by (auto simp: ts_authenticate_cases ts_asks_def i [symmetric] Let_def split: if_splits)
      with accepted [OF c' w Inr i False] show ?thesis
        by (intro ts_runs_now [where A = "tss_answers s"]) (simp add: st)
    qed
  qed
  with verify [OF c raw] show ?thesis by (rule ts_runs_more)
qed

section \<open>The properties\<close>

text \<open>C33: in the TypeScript service, whatever calls interleave at their \<open>await\<close>s, an identity is
  answered only for the call's own token, accepted by \<open>jose\<close> under the configured keys, issuer and
  audience; it is that token's identity, and where the userinfo fallback changed the display, to
  what the endpoint answered about the same subject.\<close>

theorem ts_service_sound:
  assumes "ts_reachable v W s" and "tss_calls s k = Some c" and "tc_pc c = TsAnswered (Inr j)"
    and "\<forall>w\<in>W. jose_contract valid w"
  shows "\<exists>payload m. tsv_source v (tc_headers c) = Some (ts_token j) \<and>
     valid (tsv_keys v) (ts_token j) payload \<and>
     js_member payload (units ''iss'') = JsString (tsv_issuer v) \<and>
     (tsv_audience v \<noteq> [] \<longrightarrow> for_audience payload (tsv_audience v)) \<and>
     m = ts_identityFromClaims (tsv_mapper v) payload (ts_token j) \<and>
     (j = m \<or> ts_asks v m \<and>
      (\<exists>n e. j = ts_display m n e \<and> ts_said s (ts_subject m) n e))"
  by (rule ts_answered_identity [OF assms])

text \<open>Only tokens that a verification accepted are sent to the userinfo endpoint.\<close>

lemma ts_only_verified_sent:
  "ts_reachable v W s \<Longrightarrow> (raw, fetched) \<in> tss_answers s \<Longrightarrow>
     \<exists>h w payload. tsv_source v h = Some raw \<and> w \<in> W \<and> ts_verify v w raw = Inr payload"
  using ts_reachable_inv [of v W s] unfolding ts_inv_def ts_verified_as_def by blast

text \<open>Any request can arrive and be answered as \<open>authenticate\<close> answers it.\<close>

lemma ts_reachable_steps: "(ts_step v W)\<^sup>*\<^sup>* s s' \<Longrightarrow> ts_reachable v W s \<Longrightarrow> ts_reachable v W s'"
  by (induction rule: rtranclp_induct) (auto intro: ts_reachable.step)

lemma ts_served:
  assumes "w \<in> W" and "ts_cache st = (\<lambda>_. None)"
    and "ts_authenticate (ts_verifier_auth v w) h st = (r, st')"
  shows "\<exists>s. ts_reachable v W s \<and> tss_calls s k = Some \<lparr>tc_headers = h, tc_pc = TsAnswered r\<rparr>"
proof -
  let ?c = "\<lparr>tc_headers = h, tc_pc = TsReceived\<rparr>"
  let ?s = "ts_start\<lparr>tss_calls := (tss_calls ts_start)(k \<mapsto> ?c)\<rparr>"
  have "ts_reachable v W ?s"
    by (rule ts_reachable.step [OF ts_reachable.init ts_step.arrive]) (simp add: ts_start_def)
  moreover have "ts_runs v W ?s k ?c r (ts_cache st')"
    by (rule ts_authenticate_runs [OF _ _ assms(1) _, where st = st])
      (simp_all add: ts_start_def assms(2,3))
  then obtain s' where "(ts_step v W)\<^sup>*\<^sup>* ?s s'"
    and "tss_calls s' = (tss_calls ?s)(k \<mapsto> ?c\<lparr>tc_pc := TsAnswered r\<rparr>)"
    unfolding ts_runs_def by blast
  ultimately show ?thesis
    using ts_reachable_steps by fastforce
qed

section \<open>Types\<close>

text \<open>The declared type of \<open>name\<close> and \<open>email\<close>, and of the body that \<open>fill\<close> casts the answer to.\<close>

definition ts_typed :: "ts_identity \<Rightarrow> bool" where
  "ts_typed i \<longleftrightarrow> (\<exists>n e. ts_name i = JsString n \<and> ts_email i = JsString e)"

definition optional_string :: "js_value option \<Rightarrow> bool" where
  "optional_string x \<longleftrightarrow> (case x of Some (JsNumber _) \<Rightarrow> False | Some (JsBool _) \<Rightarrow> False
     | Some (JsArray _) \<Rightarrow> False | Some (JsObject _) \<Rightarrow> False | _ \<Rightarrow> True)"

definition typed_answer :: "ts_fetched \<Rightarrow> bool" where
  "typed_answer fetched \<longleftrightarrow>
     (case fetched of
        Fetched _ (Some body) \<Rightarrow>
          optional_string (js_get body (units ''name'')) \<and> optional_string (js_get body (units ''email''))
      | _ \<Rightarrow> True)"

lemma optional_string_default:
  "optional_string (Some x) \<longleftrightarrow> (\<exists>n. js_default x (JsString []) = JsString n)"
  by (cases x) (simp_all add: optional_string_def js_default_def)

lemma typed_answer_iff:
  "ts_answer fetched subject n e \<Longrightarrow>
     typed_answer fetched \<longleftrightarrow> (\<exists>n' e'. n = JsString n' \<and> e = JsString e')"
  unfolding ts_answer_def typed_answer_def by (auto simp: optional_string_default simp del: units_simps)

text \<open>An answer that is not of the declared type is displayed as it is.\<close>

lemma ill_typed_displayed:
  assumes "ts_answer fetched (ts_subject i) n e" and "\<not> typed_answer fetched"
  shows "fst (ts_resume i fetched now c) = Inr (ts_display i n e) \<and> \<not> ts_typed (ts_display i n e)"
  using assms typed_answer_iff [OF assms(1)]
  by (auto simp: ts_answer_def ts_resume_def ts_typed_def Let_def simp del: units_simps)

text \<open>C38: every identity the TypeScript service answers is of its declared type, whatever types the
  token's claims have, provided the userinfo endpoint's bodies are of the type \<open>fill\<close> casts them
  to; one that is not, \<open>fill\<close> displays unchecked.\<close>

theorem ts_identity_typed:
  assumes "ts_reachable v W s" and "tss_calls s k = Some c" and "tc_pc c = TsAnswered (Inr j)"
    and "\<forall>(raw, fetched) \<in> tss_answers s. typed_answer fetched"
  shows "ts_typed j"
proof -
  have "ts_pc_ok v W s (tc_headers c) (TsAnswered (Inr j))"
    using ts_inv_call [OF ts_reachable_inv [OF assms(1)] assms(2)] assms(3) by simp
  then obtain raw m where m: "ts_verified_as v W (tc_headers c) raw m"
      and "j = m \<or> (\<exists>n e. j = ts_display m n e \<and> ts_said s (ts_subject m) n e)"
    by auto
  then consider "j = m" | n e where "j = ts_display m n e" "ts_said s (ts_subject m) n e" by blast
  then show ?thesis
  proof cases
    case 1
    with m show ?thesis by (auto simp: ts_verified_as_def ts_typed_def ts_identityFromClaims_def)
  next
    case (2 n e)
    then obtain raw' fetched where "(raw', fetched) \<in> tss_answers s" "ts_answer fetched (ts_subject m) n e"
      unfolding ts_said_def by blast
    with assms(4) 2(1) show ?thesis
      by (auto simp: ts_typed_def typed_answer_iff)
  qed
qed

end
