(* ===== verification/Ts_Examples.thy ===== *)
theory Ts_Examples
  imports Ts_Adapters Ts_Progress
begin

text \<open>
  One request to the TypeScript package and its Go counterpart: a token both libraries accept, the
  two views of its headers, and the two verifiers configured alike.
\<close>

section \<open>A token in both languages\<close>

definition js_payload_of :: "(string \<times> js_value) list \<Rightarrow> js_payload" where
  "js_payload_of ps = map (\<lambda>(k, x). (units k, x)) ps"

lemma js_member_payload:
  "js_member (js_payload_of ps) (units name) =
     (case map_of ps name of Some x \<Rightarrow> x | None \<Rightarrow> JsUndefined)"
  by (induction ps) (auto simp: js_payload_of_def js_member_def)

lemma same_claims_of:
  assumes "list_all2 (\<lambda>(k, a) (k', x). k = k' \<and> same_claim (Some a) x) cs ps"
  shows "same_claim (map_of cs name) (js_member (js_payload_of ps) (units name))"
  unfolding js_member_payload using assms
proof (induction rule: list_all2_induct)
  case Nil
  show ?case by (simp add: same_claim_def)
next
  case (Cons ka cs kx ps)
  then show ?case by (cases ka; cases kx) simp
qed

definition mirror_token :: jwt_token where
  "mirror_token = example_token (Some ''u'')
     [(''sub'', AString ''u''), (''iss'', AString ''https://i''), (''aud'', AString ''api''),
      (''groups'', AArray (Some [AString ''op'', ABool True]))]"

definition mirror_payload :: js_payload where
  "mirror_payload = js_payload_of
     [(''sub'', JsString (units ''u'')), (''iss'', JsString (units ''https://i'')),
      (''aud'', JsString (units ''api'')), (''groups'', JsArray [JsString (units ''op''), JsBool True])]"

lemma mirror_same_token: "same_token mirror_token mirror_payload"
proof -
  have "same_claim (tok_Field mirror_token name) (js_member mirror_payload (units name))" for name
    unfolding mirror_token_def mirror_payload_def example_token_def jwt_token.select_convs
    by (rule same_claims_of) (simp add: same_claim_def same_item_def)
  moreover have "same_claim (map_option AString (tok_Subject mirror_token))
      (js_member mirror_payload (units ''sub''))"
    unfolding mirror_payload_def js_member_payload
    by (simp add: mirror_token_def example_token_def same_claim_def)
  ultimately show ?thesis
    unfolding same_token_def by blast
qed

section \<open>A request in both languages\<close>

definition mirror_headers :: headers where
  "mirror_headers name =
     (if map to_lower name = ''x-auth-request-access-token'' then ''tok'' else [])"

definition mirror_node_headers :: node_headers where
  "mirror_node_headers name =
     (if name = HEADER_accessToken then Some (OneValue (units ''tok'')) else None)"

definition mirror_request :: ts_request where
  "mirror_request = \<lparr>tr_headers = mirror_node_headers, tr_identity = None\<rparr>"

lemma to_lower_idem [simp]: "to_lower (to_lower c) = to_lower c"
proof -
  have "of_char (to_lower (to_lower c)) = (of_char (to_lower c) :: nat)"
    by (simp add: of_char_to_lower Let_def)
  then show ?thesis by (simp only: of_char_eq_iff)
qed

lemma js_lower_lower: "js_lower (\<lambda>s. s) (units (map to_lower s)) = units (map to_lower s)"
proof (cases "is_ascii (map to_lower s)")
  case True
  then show ?thesis by (simp add: js_lower_units)
next
  case False
  then show ?thesis by (simp add: js_lower_def)
qed

lemma mirror_same_headers:
  "same_headers mirror_headers (fromNodeHeaders (\<lambda>s. s) (tr_headers mirror_request))"
proof -
  have "fromNodeHeaders (\<lambda>s. s) mirror_node_headers (units (map to_lower name)) =
      (if map to_lower name = ''x-auth-request-access-token'' then Some (units ''tok'') else None)" for name
    unfolding fromNodeHeaders_def js_lower_lower mirror_node_headers_def HEADER_accessToken_def units_inject
    by simp
  then show ?thesis
    by (simp add: same_headers_def mirror_headers_def mirror_request_def)
qed

section \<open>Two verifiers configured alike\<close>

definition mirror_lib :: "string list library" where
  "mirror_lib = example_lib\<lparr>lib_ParseString := (\<lambda>opts now raw.
     if raw = ''tok'' then Inr mirror_token else Inl ''malformed'')\<rparr>"

definition mirror_verifier :: verifier where
  "mirror_verifier = example_verifier\<lparr>v_userinfo := Some ''https://i/u'', v_displayCookie := []\<rparr>"

definition mirror_world :: world where
  "mirror_world = example_world\<lparr>endpoint := (\<lambda>_ _.
     Response \<lparr>StatusCode = 200, body_bytes = ''null'', body_fails = False\<rparr>)\<rparr>"

definition mirror_ts_verifier :: "unit ts_verifier" where
  "mirror_ts_verifier =
     \<lparr>tsv_keys = (), tsv_source = ts_defaultSource (\<lambda>s. s), tsv_mapper = ts_claimsMapper None None None,
      tsv_issuer = units ''https://i'', tsv_audience = units ''api'',
      tsv_userinfo = Some (JsString (units ''https://i/u''))\<rparr>"

definition mirror_ts_world :: "js_value \<Rightarrow> unit ts_world" where
  "mirror_ts_world body =
     \<lparr>tw_jwtVerify = (\<lambda>keys raw iss aud.
        if raw = units ''tok'' \<and> iss = units ''https://i'' \<and> (\<forall>a \<in> set_option aud. a = units ''api'')
        then Inr mirror_payload else Inl ''refused''),
      tw_fetch = (\<lambda>_ _. Fetched 200 (Some body)), tw_check = 0, tw_store = 1\<rparr>"

definition mirror_valid :: "unit \<Rightarrow> js_string \<Rightarrow> js_payload \<Rightarrow> bool" where
  "mirror_valid keys raw payload \<longleftrightarrow> raw = units ''tok'' \<and> payload = mirror_payload"

definition ts_empty :: ts_state where
  "ts_empty = \<lparr>ts_cache = (\<lambda>_. None), ts_trace = []\<rparr>"

lemma mirror_payload_members:
  "js_member mirror_payload (units ''sub'') = JsString (units ''u'')"
  "js_member mirror_payload (units ''iss'') = JsString (units ''https://i'')"
  "js_member mirror_payload (units ''aud'') = JsString (units ''api'')"
  "js_member mirror_payload (units ''groups'') = JsArray [JsString (units ''op''), JsBool True]"
  "js_member mirror_payload (units ''name'') = JsUndefined"
  "js_member mirror_payload (units ''email'') = JsUndefined"
  unfolding mirror_payload_def js_member_payload by simp_all

lemma mirror_contract: "jose_contract mirror_valid (mirror_ts_world body)"
  by (auto simp: jose_contract_def mirror_ts_world_def mirror_valid_def for_audience_def
      mirror_payload_members simp del: units_simps split: if_splits)

lemma mirror_parse:
  "v_parse mirror_lib mirror_verifier ks now raw =
     (if raw = ''tok'' then Inr mirror_token else Inl ''parse token: malformed'')"
  by (simp add: v_parse_def mirror_lib_def)

lemma mirror_ts_verify:
  "ts_verify mirror_ts_verifier (mirror_ts_world body) (units raw) =
     (if raw = ''tok'' then Inr mirror_payload else Inl ''refused'')"
  by (simp add: ts_verify_def mirror_ts_verifier_def mirror_ts_world_def units_inject del: units_simps(2))

lemma mirror_mirrors:
  "mirrors mirror_lib mirror_verifier ks now (\<lambda>s. s) mirror_ts_verifier (mirror_ts_world body)"
proof -
  have "same_mapper (v_mapper mirror_verifier) (tsv_mapper mirror_ts_verifier)"
    by (simp add: same_mapper_def mirror_verifier_def example_verifier_def mirror_ts_verifier_def
        ts_claimsMapper_def js_or_def)
  moreover have "v_source mirror_verifier = DefaultSource"
    "tsv_source mirror_ts_verifier = ts_defaultSource (\<lambda>s. s)"
    by (simp_all add: mirror_verifier_def mirror_ts_verifier_def)
  ultimately show ?thesis
    unfolding mirrors_def mirror_parse mirror_ts_verify by (auto simp: mirror_same_token)
qed

section \<open>The properties on this request\<close>

lemma mirror_sources:
  "source_token orbit DefaultSource mirror_headers = Some ''tok''"
  "ts_defaultSource (\<lambda>s. s) (fromNodeHeaders (\<lambda>s. s) (tr_headers mirror_request)) = Some (units ''tok'')"
proof -
  show "source_token orbit DefaultSource mirror_headers = Some ''tok''"
    by (simp add: DefaultSource_token mirror_headers_def header_names_lower go_eval)
  then show "ts_defaultSource (\<lambda>s. s) (fromNodeHeaders (\<lambda>s. s) (tr_headers mirror_request)) = Some (units ''tok'')"
    unfolding defaultSource_agrees [OF mirror_same_headers, of _ orbit] by simp
qed

lemma ts_defaultSource_agrees_witness:
  "ts_defaultSource (\<lambda>s. s) (fromNodeHeaders (\<lambda>s. s) (tr_headers mirror_request)) =
     map_option units (source_token (\<lambda>_ _. False) DefaultSource mirror_headers)"
  by (rule ts_defaultSource_agrees [OF mirror_same_headers])

definition mirror_mapper :: ts_mapper where
  "mirror_mapper = ts_claimsMapper None None None"

definition mirror_identity :: ts_identity where
  "mirror_identity = ts_identityFromClaims mirror_mapper mirror_payload (units ''tok'')"

lemma mirror_identity_sel:
  "ts_subject mirror_identity = units ''u''" "ts_name mirror_identity = JsString []"
  "ts_email mirror_identity = JsString []" "ts_roles mirror_identity = [units ''op'']"
  "ts_token mirror_identity = units ''tok''"
  unfolding mirror_identity_def ts_identityFromClaims_def mirror_mapper_def ts_claimsMapper_def js_or_def
    ts_stringClaim_def ts_claimValues_def
  by (simp_all add: mirror_payload_members del: units_simps)

lemma ts_identityFromClaims_agrees_witness:
  "same_identity (mapper_identity (v_mapper example_verifier) mirror_token ''tok'') mirror_identity"
  unfolding mirror_identity_def
  by (rule ts_identityFromClaims_agrees [OF mirror_same_token])
    (simp add: same_mapper_def mirror_mapper_def example_verifier_def ts_claimsMapper_def js_or_def)

definition ada_body :: js_value where
  "ada_body = JsObject (js_payload_of [(''sub'', JsString (units ''u'')), (''name'', JsString (units ''Ada''))])"

lemma ada_answer:
  "js_get ada_body (units ''sub'') = Some (JsString (units ''u''))"
  "js_get ada_body (units ''name'') = Some (JsString (units ''Ada''))"
  "js_get ada_body (units ''email'') = Some JsUndefined"
  unfolding ada_body_def js_get_def js_value.case js_member_payload by simp_all

lemma mirror_fill:
  "fst (ts_fill uri (\<lambda>_ _. Fetched 200 (Some ada_body)) t t' tok mirror_identity ts_empty) =
     Inr (ts_display mirror_identity (JsString (units ''Ada'')) (JsString []))"
  unfolding ts_fill_def Let_def
  by (simp add: ts_cached_def ts_empty_def mirror_identity_sel ada_answer response_ok_def js_default_def
      del: units_simps)

lemma ts_fill_sound_witness:
  "ts_same_authorization (ts_display mirror_identity (JsString (units ''Ada'')) (JsString [])) mirror_identity"
proof -
  obtain st' where "ts_fill JsNull (\<lambda>_ _. Fetched 200 (Some ada_body)) 0 1 (units ''tok'') mirror_identity ts_empty =
      (Inr (ts_display mirror_identity (JsString (units ''Ada'')) (JsString [])), st')"
    using mirror_fill [of JsNull 0 1 "units ''tok''"] by (metis prod.collapse)
  from ts_fill_sound [OF this] show ?thesis by blast
qed

lemma mirror_source:
  "tsv_source mirror_ts_verifier (fromNodeHeaders (\<lambda>s. s) (tr_headers mirror_request)) = Some (units ''tok'')"
  unfolding mirror_ts_verifier_def ts_verifier.select_convs by (rule mirror_sources)

lemma mirror_authenticated:
  "ts_authenticate (ts_verifier_auth mirror_ts_verifier (mirror_ts_world ada_body))
     (fromNodeHeaders (\<lambda>s. s) (tr_headers mirror_request)) ts_empty =
   (Inr (ts_display mirror_identity (JsString (units ''Ada'')) (JsString [])),
    snd (ts_fill (JsString (units ''https://i/u'')) (\<lambda>_ _. Fetched 200 (Some ada_body)) 0 1
      (units ''tok'') mirror_identity ts_empty))"
proof -
  have verify: "ts_verify mirror_ts_verifier (mirror_ts_world ada_body) (units ''tok'') = Inr mirror_payload"
    unfolding mirror_ts_verify by simp
  have sel: "ts_identityFromClaims (tsv_mapper mirror_ts_verifier) mirror_payload (units ''tok'') = mirror_identity"
    "tsv_userinfo mirror_ts_verifier = Some (JsString (units ''https://i/u''))"
    "tw_fetch (mirror_ts_world ada_body) = (\<lambda>_ _. Fetched 200 (Some ada_body))"
    "tw_check (mirror_ts_world ada_body) = 0" "tw_store (mirror_ts_world ada_body) = 1"
    by (simp_all add: mirror_identity_def mirror_mapper_def mirror_ts_verifier_def mirror_ts_world_def)
  show ?thesis
    unfolding ts_authenticate_cases mirror_source option.case verify sum.case Let_def sel mirror_identity_sel option.sel
    using mirror_fill by (simp add: prod_eq_iff del: units_simps)
qed

theorem ts_service_sound_witness:
  "\<exists>payload. mirror_valid () (ts_token (ts_display mirror_identity (JsString (units ''Ada'')) (JsString []))) payload \<and>
     js_member payload (units ''iss'') = JsString (units ''https://i'')"
proof -
  obtain s where s: "ts_reachable mirror_ts_verifier {mirror_ts_world ada_body} s"
    "tss_calls s 0 = Some \<lparr>tc_headers = fromNodeHeaders (\<lambda>s. s) (tr_headers mirror_request),
       tc_pc = TsAnswered (Inr (ts_display mirror_identity (JsString (units ''Ada'')) (JsString [])))\<rparr>"
    using ts_served [OF _ _ mirror_authenticated] by (metis singletonI ts_empty_def ts_state.select_convs(1))
  have contract: "\<forall>w \<in> {mirror_ts_world ada_body}. jose_contract mirror_valid w"
    by (simp add: mirror_contract)
  from ts_service_sound [OF s _ contract] show ?thesis
    by (auto simp: mirror_valid_def mirror_ts_verifier_def simp del: units_simps)
qed

theorem ts_identity_typed_witness:
  "ts_typed (ts_display mirror_identity (JsString (units ''Ada'')) (JsString []))"
proof -
  let ?v = mirror_ts_verifier let ?w = "mirror_ts_world ada_body" let ?f = "Fetched 200 (Some ada_body)"
  let ?h = "fromNodeHeaders (\<lambda>s. s) (tr_headers mirror_request)"
  let ?j = "ts_display mirror_identity (JsString (units ''Ada'')) (JsString [])"
  let ?c = "\<lambda>pc. \<lparr>tc_headers = ?h, tc_pc = pc\<rparr>"
  let ?s = "\<lambda>pc. ts_start\<lparr>tss_calls := [0 \<mapsto> ?c pc]\<rparr>"
  have i: "mirror_identity = ts_identityFromClaims (tsv_mapper ?v) mirror_payload (units ''tok'')"
    by (simp add: mirror_identity_def mirror_mapper_def mirror_ts_verifier_def)
  have ok: "ts_verify ?v ?w (units ''tok'') = Inr mirror_payload" unfolding mirror_ts_verify by simp
  have asks: "ts_asks ?v mirror_identity"
    unfolding ts_asks_def mirror_identity_sel by (simp add: mirror_ts_verifier_def)
  have res: "ts_resume mirror_identity ?f 1 (\<lambda>_. None) =
      (Inr ?j, ts_store (\<lambda>_. None) (units ''u'') (JsString (units ''Ada''), JsString []) 1)"
    unfolding ts_resume_def Let_def
    by (simp add: mirror_identity_sel ada_answer response_ok_def js_default_def del: units_simps)
  have "ts_reachable ?v {?w} (?s TsReceived)"
    using ts_reachable.step [OF ts_reachable.init ts_step.arrive] by (simp add: ts_start_def)
  moreover have "ts_step ?v {?w} (?s TsReceived) (?s (TsVerifying (units ''tok'')))"
    using ts_step.verify [of "?s TsReceived" 0 "?c TsReceived" ?v "units ''tok''" "{?w}"] mirror_source by simp
  moreover have "ts_step ?v {?w} (?s (TsVerifying (units ''tok''))) (?s (TsAsking mirror_identity (units ''tok'')))"
    using ts_step.miss [OF _ _ _ ok i asks, of "?s (TsVerifying (units ''tok''))" 0 "?c (TsVerifying (units ''tok''))" "{?w}" 0]
    by (simp add: ts_cached_def ts_start_def)
  ultimately have "ts_reachable ?v {?w} (?s (TsAsking mirror_identity (units ''tok'')))"
    by (blast intro: ts_reachable.step)
  then obtain s where s: "ts_reachable ?v {?w} s" "tss_calls s 0 = Some (?c (TsAnswered (Inr ?j)))"
      "tss_answers s = {(units ''tok'', ?f)}"
    using ts_step.resume [of "?s (TsAsking mirror_identity (units ''tok''))" 0
        "?c (TsAsking mirror_identity (units ''tok''))" mirror_identity "units ''tok''" ?f 1 "Inr ?j" _ ?v "{?w}"] res
    by (fastforce dest: ts_reachable.step simp: ts_start_def)
  have "typed_answer ?f"
    unfolding typed_answer_def by (simp add: ada_answer optional_string_def del: units_simps)
  with s show ?thesis by (intro ts_identity_typed [OF s(1,2)]) simp_all
qed


lemma ts_authenticate_sound_witness:
  "mirror_valid () (units ''tok'') mirror_payload \<and> mirror_payload = ts_claims mirror_identity"
  using ts_authenticate_sound [OF mirror_contract mirror_authenticated]
  by (auto simp: mirror_valid_def mirror_identity_def ts_identityFromClaims_def)

lemma mirror_has_role: "ts_hasAnyRole (ts_display mirror_identity n e) [units ''op'']"
  by (simp add: ts_hasAnyRole_def ts_hasRole_def ts_display_def mirror_identity_sel del: units_simps)

theorem ts_requireRoles_reached_witness:
  "\<exists>payload. mirror_valid () (units ''tok'') payload \<and>
     units ''op'' \<in> set (ts_claimValues payload (units ''groups''))"
proof -
  let ?j = "ts_display mirror_identity (JsString (units ''Ada'')) (JsString [])"
  obtain st' where run: "ts_requireRoles (\<lambda>s. s)
      (ts_verifier_auth mirror_ts_verifier (mirror_ts_world ada_body)) [units ''op'']
      (\<lambda>req s. (req, s)) mirror_request ts_empty = (TsNext (mirror_request\<lparr>tr_identity := Some ?j\<rparr>), st')"
    by (simp add: ts_requireRoles_def authenticateThen_def mirror_authenticated mirror_has_role
        del: units_simps)
  have claim: "ts_rolesClaim (tsv_mapper mirror_ts_verifier) = units ''groups''"
    by (simp add: mirror_ts_verifier_def ts_claimsMapper_def js_or_def)
  from ts_requireRoles_reached [OF mirror_contract run] obtain j :: ts_identity and payload where
    valid: "mirror_valid (tsv_keys mirror_ts_verifier) (ts_token j) payload"
    and "[units ''op''] = [] \<or> (\<exists>r \<in> set [units ''op'']. r \<in> set (ts_claimValues payload (units ''groups'')))"
    unfolding claim by blast
  then have "units ''op'' \<in> set (ts_claimValues payload (units ''groups''))"
    by (simp only: list.set bex_simps list.simps) auto
  with valid show ?thesis
    unfolding mirror_valid_def by blast
qed

theorem ts_fiber_agree_witness:
  "\<exists>i st'. RequireRoles example_fiber (verifier_auth mirror_lib mirror_verifier mirror_world) [''op'']
     (\<lambda>c s. (None, c, s)) (example_request\<lparr>fx_headers := mirror_headers\<rparr>) example_state =
     (None, attach example_fiber (example_request\<lparr>fx_headers := mirror_headers\<rparr>) i, st')"
proof -
  let ?c = "example_request\<lparr>fx_headers := mirror_headers\<rparr>"
  have headers: "same_headers (fiberHeaders example_fiber ?c)
      (fromNodeHeaders (\<lambda>s. s) (tr_headers mirror_request))"
    using mirror_same_headers by (simp add: fiberHeaders_def example_fiber_def)
  have no_throw: "fst (ts_authenticate (ts_verifier_auth mirror_ts_verifier (mirror_ts_world ada_body))
      (fromNodeHeaders (\<lambda>s. s) (tr_headers mirror_request)) ts_empty) \<noteq> Inl (Thrown x)" for x
    by (simp add: mirror_authenticated)
  obtain q where q: "fst (ts_requireRoles (\<lambda>s. s)
      (ts_verifier_auth mirror_ts_verifier (mirror_ts_world ada_body)) (map units [''op''])
      (\<lambda>req s. (req, s)) mirror_request ts_empty) = TsNext q"
    by (simp add: ts_requireRoles_def authenticateThen_def mirror_authenticated mirror_has_role
        del: units_simps)
  from ts_fiber_agree [OF mirror_mirrors headers no_throw, where roles = "[''op'']" and nxt' = "\<lambda>req s. (req, s)"
      and nxt = "\<lambda>c s. (None, c, s)" and w = mirror_world and st = example_state]
  show ?thesis
    unfolding q ts_outcome.case by auto
qed

lemma ts_signOutUrl_agrees_witness:
  "\<exists>e. ts_signOutUrl (Some (units ''_gwauth/'')) (Some (units ''/a b'')) =
     Some (units (SignOutURL ''_gwauth/'' [] @ ''?rd='' @ e)) \<and> query_unescape e = Some ''/a b''"
proof -
  have "''_gwauth/'' \<noteq> []" "is_ascii ''/a b''" "''/a b'' \<noteq> []"
    by simp_all
  from ts_signOutUrl_agrees [OF this] show ?thesis by blast
qed

theorem null_userinfo_divides_witness:
  "fst (Authenticate (verifier_auth mirror_lib mirror_verifier mirror_world) mirror_headers example_state) =
     Inr (mapper_identity (v_mapper mirror_verifier) mirror_token ''tok'') \<and>
   fst (ts_authenticate (ts_verifier_auth mirror_ts_verifier (mirror_ts_world JsNull))
     (fromNodeHeaders (\<lambda>s. s) (tr_headers mirror_request)) ts_empty) = Inl (Thrown TypeError)"
proof (rule null_userinfo_divides [OF mirror_mirrors mirror_same_headers, where raw = "''tok''"
      and token = mirror_token and uri = "''https://i/u''" and uri' = "JsString (units ''https://i/u'')"])
  let ?m = "mapper_identity (v_mapper mirror_verifier) mirror_token ''tok''"
  show "source_token (lib_orbit mirror_lib) (v_source mirror_verifier) mirror_headers = Some ''tok''"
    by (simp add: mirror_verifier_def mirror_sources)
  show "v_parse mirror_lib mirror_verifier (keySet_Set (g_keys example_state)) (now_parse mirror_world) ''tok'' =
      Inr mirror_token"
    by (simp add: mirror_parse)
  show "Name ?m = []" "Email ?m = []" "Subject ?m \<noteq> []"
    by (simp_all add: stringClaim_def mirror_token_def example_token_def mirror_verifier_def
        example_verifier_def subject_of_def)
  show "ts_cached (ts_cache ts_empty) (units (Subject ?m)) (tw_check (mirror_ts_world JsNull)) = None"
    by (simp add: ts_cached_def ts_empty_def)
qed (simp_all add: mirror_verifier_def mirror_world_def mirror_ts_verifier_def mirror_ts_world_def
    example_state_def cached_entry_def)

end
