(* ===== verification/Huma_Mw.thy ===== *)
theory Huma_Mw
  imports Gate
begin

text \<open>
  \<open>adapters/humamw/humamw.go\<close>: the Huma v2 adapter: the security scheme it registers in the
  OpenAPI document, the roles an operation declares under it, and the enforcing middleware. The
  framework's context is a parameter, the record \<open>huma\<close>; of \<open>huma.WithValue\<close> the code
  relies on reading the value back, which is the predicate \<open>huma_contract\<close>.
\<close>

section \<open>The framework\<close>

text \<open>
  A security requirement maps scheme names to scopes; an operation lists alternatives. Scopes and
  the list may be nil.
\<close>

type_synonym requirement = "string \<Rightarrow> string slice option"

record operation =
  op_Security :: "requirement slice"

record 'c huma =
  hum_Header :: "'c \<Rightarrow> string \<Rightarrow> string"
  hum_Operation :: "'c \<Rightarrow> operation option"
  hum_Context :: "'c \<Rightarrow> go_context"
  hum_WithValue :: "'c \<Rightarrow> ctx_key \<Rightarrow> ctx_value \<Rightarrow> 'c"
  hum_WriteErr :: "'c \<Rightarrow> nat \<Rightarrow> string \<Rightarrow> 'c"

definition huma_contract :: "'c huma \<Rightarrow> bool" where
  "huma_contract hum \<longleftrightarrow>
     (\<forall>c k v. ctx_Value (hum_Context hum (hum_WithValue hum c k v)) k = Some v)"

text \<open>A handler writes its response into the context.\<close>

type_synonym ('c, 's) huma_handler = "'c \<Rightarrow> 's \<Rightarrow> 'c \<times> 's"

section \<open>The security scheme\<close>

definition SchemeName :: string where
  "SchemeName = ''gatewayAuth''"

record security_scheme =
  sch_Type :: string
  sch_Scheme :: string
  sch_BearerFormat :: string
  sch_Description :: string

text \<open>
  The part of the document that is touched: the components may be nil, and so may the map of
  schemes in them. \<open>'x\<close> are the other components; \<open>zero\<close> is their value in an empty
  \<open>huma.Components\<close>.
\<close>

record 'x components =
  SecuritySchemes :: "(string \<Rightarrow> security_scheme option) option"
  comp_rest :: 'x

definition gateway_scheme :: security_scheme where
  "gateway_scheme =
     \<lparr>sch_Type = ''http'', sch_Scheme = ''bearer'', sch_BearerFormat = ''JWT'',
      sch_Description = ''Access token forwarded by the gateway (oauth2-proxy) and re-verified '' @
        ''against the issuer'' @ [CHR 0x27] @
        ''s JWKS. The scopes of an operation list the roles it requires.''\<rparr>"

definition registerScheme :: "'x \<Rightarrow> 'x components option \<Rightarrow> 'x components option" where
  "registerScheme zero oapi =
     (let comps = (case oapi of
            None \<Rightarrow> \<lparr>SecuritySchemes = None, comp_rest = zero\<rparr> | Some comps \<Rightarrow> comps);
          schemes = (case SecuritySchemes comps of None \<Rightarrow> (\<lambda>_. None) | Some m \<Rightarrow> m)
      in Some (comps\<lparr>SecuritySchemes := Some (schemes(SchemeName \<mapsto> gateway_scheme))\<rparr>))"

section \<open>The middleware\<close>

definition humaHeaders :: "'c huma \<Rightarrow> 'c \<Rightarrow> headers" where
  "humaHeaders hum ctx = (\<lambda>name. hum_Header hum ctx name)"

fun declared_scopes :: "requirement list \<Rightarrow> string slice \<times> bool" where
  "declared_scopes [] = (None, False)"
| "declared_scopes (requirement # rest) =
     (case requirement SchemeName of
        Some scopes \<Rightarrow> (scopes, True)
      | None \<Rightarrow> declared_scopes rest)"

definition requiredRoles :: "operation option \<Rightarrow> string slice \<times> bool" where
  "requiredRoles op =
     (case op of
        None \<Rightarrow> (None, False)
      | Some op \<Rightarrow> declared_scopes (elems (op_Security op)))"

definition middleware ::
    "'c huma \<Rightarrow> 's authenticator \<Rightarrow> ('c, 's) huma_handler \<Rightarrow> ('c, 's) huma_handler" where
  "middleware hum auth nxt ctx s =
     (let (roles, required) = requiredRoles (hum_Operation hum ctx) in
      if \<not> required then nxt ctx s
      else case Authenticate auth (humaHeaders hum ctx) s of
        (Inl err, s) \<Rightarrow>
          (hum_WriteErr hum ctx 401
             ''authentication required: reach this service through the gateway'', s)
      | (Inr identity, s) \<Rightarrow>
          if Enabled auth \<and> 0 < length (elems roles) \<and> \<not> HasAnyRole identity (elems roles)
          then (hum_WriteErr hum ctx 403 ''your account holds none of the required roles'', s)
          else nxt (hum_WithValue hum ctx ContextKey (CIdentity identity)) s)"

text \<open>\<open>Register\<close>: the document with the scheme, and the middleware handed to the API.\<close>

definition Register ::
    "'x \<Rightarrow> 'c huma \<Rightarrow> 's authenticator \<Rightarrow> 'x components option \<Rightarrow>
     'x components option \<times> (('c, 's) huma_handler \<Rightarrow> ('c, 's) huma_handler)" where
  "Register zero hum auth oapi = (registerScheme zero oapi, middleware hum auth)"

section \<open>The middleware is a gate\<close>

abbreviation op_roles :: "'c huma \<Rightarrow> 'c \<Rightarrow> string list" where
  "op_roles hum ctx \<equiv> elems (fst (requiredRoles (hum_Operation hum ctx)))"

abbreviation op_guarded :: "'c huma \<Rightarrow> 'c \<Rightarrow> bool" where
  "op_guarded hum ctx \<equiv> snd (requiredRoles (hum_Operation hum ctx))"

interpretation huma: gated auth "\<lambda>ctx i. op_roles hum ctx = [] \<or> HasAnyRole i (op_roles hum ctx)"
  "\<lambda>ctx. \<not> op_guarded hum ctx" "humaHeaders hum"
  "\<lambda>e ctx s. (hum_WriteErr hum ctx 401
     ''authentication required: reach this service through the gateway'', s)"
  "\<lambda>ctx s. (hum_WriteErr hum ctx 403 ''your account holds none of the required roles'', s)"
  "\<lambda>nxt ctx s. nxt ctx s"
  "\<lambda>nxt i ctx s. nxt (hum_WithValue hum ctx ContextKey (CIdentity i)) s"
  "middleware hum auth" for hum auth
  by unfold_locales
    (auto simp: middleware_def gate_def Let_def split: prod.split sum.split)

section \<open>The declared roles\<close>

lemma declared_scopes_iff:
  "declared_scopes reqs = (scopes, True) \<longleftrightarrow>
     (\<exists>pre r post. reqs = pre @ r # post \<and> (\<forall>p \<in> set pre. p SchemeName = None) \<and>
        r SchemeName = Some scopes)"
proof (induction reqs)
  case (Cons r reqs)
  show ?case
  proof (cases "r SchemeName")
    case None
    then show ?thesis
      using Cons by (auto simp: Cons_eq_append_conv) (metis append_Cons set_ConsD)+
  next
    case (Some sc)
    then show ?thesis
      by (auto simp: Cons_eq_append_conv) (rule exI [of _ "[]"], auto)
  qed
qed simp

lemma declared_scopes_not: "\<not> snd (declared_scopes reqs) \<longleftrightarrow> (\<forall>r \<in> set reqs. r SchemeName = None)"
  by (induction reqs) (auto split: option.split)

text \<open>An operation is guarded exactly when some requirement of its list names the scheme, and
  the first that does gives the roles; an operation without one is left anonymous.\<close>

lemma requiredRoles_first:
  "(requiredRoles (Some op) = (scopes, True) \<longleftrightarrow>
     (\<exists>pre r post. elems (op_Security op) = pre @ r # post \<and>
        (\<forall>p \<in> set pre. p ''gatewayAuth'' = None) \<and> r ''gatewayAuth'' = Some scopes)) \<and>
   (snd (requiredRoles (Some op)) \<longleftrightarrow>
     (\<exists>r \<in> set (elems (op_Security op)). r ''gatewayAuth'' \<noteq> None)) \<and>
   \<not> snd (requiredRoles None)"
  using declared_scopes_iff [of "elems (op_Security op)" scopes]
    declared_scopes_not [of "elems (op_Security op)"]
  by (auto simp: requiredRoles_def SchemeName_def)

section \<open>Who reaches the handler\<close>

text \<open>The handler of a guarded operation can influence the response only for a request that
  authenticates and, when the operation lists roles and the authenticator is not disabled, holds
  one of them; it then finds exactly that identity on its context.\<close>

lemma huma_handler_reached:
  assumes "huma_contract hum"
    and "requiredRoles (hum_Operation hum ctx) = (roles, True)"
    and "middleware hum auth nxt ctx s \<noteq> middleware hum auth nxt' ctx s"
  shows "\<exists>i s' ctx'. Authenticate auth (humaHeaders hum ctx) s = (Inr i, s') \<and>
     (Enabled auth \<and> elems roles \<noteq> [] \<longrightarrow> HasAnyRole i (elems roles)) \<and>
     middleware hum auth nxt ctx s = nxt ctx' s' \<and> FromContext (hum_Context hum ctx') = Some i"
proof -
  have guarded: "\<not> \<not> op_guarded hum ctx"
    using assms(2) by simp
  obtain i s' where "Authenticate auth (humaHeaders hum ctx) s = (Inr i, s')"
    and "Enabled auth \<longrightarrow> op_roles hum ctx = [] \<or> HasAnyRole i (op_roles hum ctx)"
    and "middleware hum auth nxt ctx s = nxt (hum_WithValue hum ctx ContextKey (CIdentity i)) s'"
    by (rule huma.handler_reached [OF guarded assms(3)])
  moreover have "FromContext (hum_Context hum (hum_WithValue hum ctx ContextKey (CIdentity i))) = Some i"
    using assms(1) by (simp add: huma_contract_def FromContext_def as_identity_def)
  ultimately show ?thesis
    using assms(2) by auto
qed

text \<open>The response of the middleware in every case: an operation without the scheme goes to
  its handler untouched and unauthenticated; a guarded one gets 401 without a valid credential,
  whatever was wrong with it, 403 for a verified caller with none of the listed roles, and else
  the handler's response.\<close>

lemma huma_outcome:
  "middleware hum auth nxt ctx s =
     (case requiredRoles (hum_Operation hum ctx) of
        (roles, False) \<Rightarrow> nxt ctx s
      | (roles, True) \<Rightarrow>
          (case gate auth (\<lambda>i. elems roles = [] \<or> (\<exists>r \<in> set (elems roles). HasRole i r))
                  (humaHeaders hum ctx) s of
             (Unauthenticated e, s') \<Rightarrow>
               (hum_WriteErr hum ctx 401
                  ''authentication required: reach this service through the gateway'', s')
           | (Forbidden, s') \<Rightarrow>
               (hum_WriteErr hum ctx 403 ''your account holds none of the required roles'', s')
           | (Admitted i, s') \<Rightarrow> nxt (hum_WithValue hum ctx ContextKey (CIdentity i)) s'))"
  using huma.run_public [of hum ctx auth nxt s] huma.run_gate [of hum ctx auth nxt s]
  unfolding HasAnyRole_iff
  by (cases "requiredRoles (hum_Operation hum ctx)") (auto split: bool.split)

section \<open>Registration\<close>

text \<open>Registration adds the scheme under its name and changes nothing else of the document:
  other schemes and other components stay, nil maps and nil components are created, and a second
  registration changes nothing.\<close>

lemma registerScheme_adds:
  "\<exists>comps m. registerScheme zero oapi = Some comps \<and> SecuritySchemes comps = Some m \<and>
     m ''gatewayAuth'' = Some gateway_scheme \<and>
     (\<forall>k. k = ''gatewayAuth'' \<or>
        m k = Option.bind oapi (\<lambda>c. Option.bind (SecuritySchemes c) (\<lambda>m. m k))) \<and>
     comp_rest comps = (case oapi of None \<Rightarrow> zero | Some c \<Rightarrow> comp_rest c) \<and>
     registerScheme zero' (Some comps) = Some comps"
  by (auto simp: registerScheme_def Let_def SchemeName_def split: option.split)

section \<open>A framework\<close>

record example_huma_ctx =
  hx_headers :: headers
  hx_operation :: "operation option"
  hx_context :: go_context
  hx_written :: "(nat \<times> string) option"

definition example_huma :: "example_huma_ctx huma" where
  "example_huma =
     \<lparr>hum_Header = hx_headers, hum_Operation = hx_operation, hum_Context = hx_context,
      hum_WithValue = (\<lambda>c k v. c\<lparr>hx_context := (k, v) # hx_context c\<rparr>),
      hum_WriteErr = (\<lambda>c status msg. c\<lparr>hx_written := Some (status, msg)\<rparr>)\<rparr>"

lemma example_huma_contract: "huma_contract example_huma"
  by (simp add: huma_contract_def example_huma_def ctx_Value_def)

definition example_operation :: operation where
  "example_operation = \<lparr>op_Security = Some [(\<lambda>_. None), [SchemeName \<mapsto> Some [''op'']]]\<rparr>"

lemma requiredRoles_first_witness:
  "requiredRoles (Some example_operation) = (Some [''op''], True)"
proof -
  have "elems (op_Security example_operation) = [\<lambda>_. None] @ [[SchemeName \<mapsto> Some [''op'']]] @ []"
    by (simp add: example_operation_def)
  then have "\<exists>pre r post. elems (op_Security example_operation) = pre @ r # post \<and>
      (\<forall>p \<in> set pre. p ''gatewayAuth'' = None) \<and> r ''gatewayAuth'' = Some (Some [''op''])"
    by (intro exI [of _ "[\<lambda>_. None]"] exI [of _ "[SchemeName \<mapsto> Some [''op'']]"] exI [of _ "[]"])
      (simp add: SchemeName_def)
  with requiredRoles_first [of example_operation] show ?thesis by blast
qed

definition example_huma_request :: example_huma_ctx where
  "example_huma_request = \<lparr>hx_headers = (\<lambda>_. []), hx_operation = Some example_operation,
     hx_context = [], hx_written = None\<rparr>"

lemma huma_handler_reached_witness:
  "\<exists>i. Authenticate (NewDisabled (Some [''op'']) :: unit authenticator)
     (humaHeaders example_huma example_huma_request) () = (Inr i, ())"
proof -
  have roles: "requiredRoles (hum_Operation example_huma example_huma_request) = (Some [''op''], True)"
    by (simp add: example_huma_def example_huma_request_def example_operation_def requiredRoles_def)
  have "middleware example_huma (NewDisabled (Some [''op''])) (\<lambda>c s. (c, s)) example_huma_request () \<noteq>
      middleware example_huma (NewDisabled (Some [''op''])) (\<lambda>c s. (hum_WriteErr example_huma c 500 [], s))
        example_huma_request ()"
    by (simp add: middleware_def roles NewDisabled_def)
      (simp add: example_huma_def example_huma_request_def)
  from huma_handler_reached [OF example_huma_contract roles this] show ?thesis by fastforce
qed

end
