(* ===== verification/Connect_Mw.thy ===== *)
theory Connect_Mw
  imports Gate
begin

text \<open>
  \<open>adapters/connectmw/connectmw.go\<close>: the unary interceptors for connectrpc. A request is a
  parameter of which only \<open>Header()\<close> is called; a call behind the interceptor gets the context
  and the request and returns a response or an error.
\<close>

section \<open>Operations\<close>

datatype connect_error = CodeUnauthenticated string | OtherCode nat string

type_synonym ('q, 'a, 's) unary =
  "go_context \<Rightarrow> 'q \<Rightarrow> 's \<Rightarrow> (connect_error, 'a) result \<times> 's"

definition connectHeaders :: "http_header \<Rightarrow> headers" where
  "connectHeaders h = (\<lambda>name. http_header_get h name)"

definition Interceptor ::
    "('q \<Rightarrow> http_header) \<Rightarrow> 's authenticator \<Rightarrow> ('q, 'a, 's) unary \<Rightarrow> ('q, 'a, 's) unary" where
  "Interceptor req_Header auth nxt ctx req s =
     (case Authenticate auth (connectHeaders (req_Header req)) s of
        (Inl err, s) \<Rightarrow> (Inl (CodeUnauthenticated ''authentication required''), s)
      | (Inr identity, s) \<Rightarrow> nxt (WithIdentity ctx identity) req s)"

definition OptionalInterceptor ::
    "('q \<Rightarrow> http_header) \<Rightarrow> 's authenticator \<Rightarrow> ('q, 'a, 's) unary \<Rightarrow> ('q, 'a, 's) unary" where
  "OptionalInterceptor req_Header auth nxt ctx req s =
     (case Authenticate auth (connectHeaders (req_Header req)) s of
        (Inr identity, s) \<Rightarrow> nxt (WithIdentity ctx identity) req s
      | (Inl err, s) \<Rightarrow> nxt ctx req s)"

section \<open>The interceptor is a gate\<close>

text \<open>It demands nothing of an identity, so it never answers as forbidden.\<close>

interpretation connect: gated auth "\<lambda>_ _. True" "\<lambda>_. False" "\<lambda>(ctx, req). connectHeaders (req_Header req)"
  "\<lambda>e q s. (Inl (CodeUnauthenticated ''authentication required''), s)"
  "\<lambda>q s. (Inl (CodeUnauthenticated []), s)" "\<lambda>nxt (ctx, req) s. nxt ctx req s"
  "\<lambda>nxt i (ctx, req) s. nxt (WithIdentity ctx i) req s"
  "\<lambda>nxt (ctx, req). Interceptor req_Header auth nxt ctx req" for req_Header auth
  by unfold_locales (auto simp: Interceptor_def gate_def split: prod.split sum.split)

text \<open>Behind the interceptor a procedure runs only for an authenticated request and finds
  exactly its identity on the context; every other request is answered \<open>Unauthenticated\<close> with
  one text, whatever was wrong.\<close>

lemma Interceptor_outcome:
  "case Authenticate auth (connectHeaders (req_Header req)) s of
     (Inl e, s') \<Rightarrow> Interceptor req_Header auth nxt ctx req s =
       (Inl (CodeUnauthenticated ''authentication required''), s')
   | (Inr i, s') \<Rightarrow> \<exists>ctx'. Interceptor req_Header auth nxt ctx req s = nxt ctx' req s' \<and>
       FromContext ctx' = Some i \<and> (\<forall>k. ctx_Value ctx' (OtherKey k) = ctx_Value ctx (OtherKey k))"
  by (auto simp: Interceptor_def ctx_Value_def WithIdentity_def FromContext_def as_identity_def
      split: prod.split sum.split)

text \<open>The optional interceptor never rejects: the procedure runs with the identity of a valid
  credential, or with the context it would have had without the interceptor.\<close>

lemma OptionalInterceptor_outcome:
  "case Authenticate auth (connectHeaders (req_Header req)) s of
     (Inl e, s') \<Rightarrow> OptionalInterceptor req_Header auth nxt ctx req s = nxt ctx req s'
   | (Inr i, s') \<Rightarrow> OptionalInterceptor req_Header auth nxt ctx req s =
       Interceptor req_Header auth nxt ctx req s"
  by (auto simp: Interceptor_def OptionalInterceptor_def split: prod.split sum.split)

end
