(* ===== verification/Chart_Values.thy ===== *)
theory Chart_Values
  imports Prelude
begin

text \<open>
  The Helm chart \<open>charts/gateway-auth\<close>, its values and its naming templates (\<open>_helpers.tpl\<close>).
  The values are those Helm renders with: \<open>values.yaml\<close> overlaid by the user's, of the types that
  \<open>values.schema.json\<close> demands. A string or list that is left out is empty, which is what Sprig's
  \<open>default\<close>, \<open>required\<close> and \<open>if\<close> make of it; of the optional objects \<open>cookie\<close>, \<open>session\<close> and
  \<open>sessionStore\<close> the one member in use stands for the object.
\<close>

section \<open>Values\<close>

text \<open>What the chart passes through without looking inside.\<close>

datatype yaml =
    YNull
  | YBool bool
  | YInt int
  | YString string
  | YList "yaml list"
  | YMap "(string \<times> yaml) list"

text \<open>An absent or empty object is \<open>None\<close>.\<close>

record chart_backend =
  be_name :: string
  be_port :: "int option"

record chart_route =
  rt_name :: string
  rt_path :: string
  rt_pathType :: string
  rt_protected :: bool
  rt_authenticatedOnly :: bool
  rt_targetRouteName :: string
  rt_backend :: "chart_backend option"

record chart_gateway =
  gw_name :: string
  gw_namespace :: string
  gw_sectionName :: string

record chart_identity =
  id_mode :: string
  id_existingSecret :: string
  id_jwksUri :: string
  id_scopes :: string
  id_cluster :: bool
  id_ref :: string
  id_projectId :: string
  id_appName :: string

record chart_valkey =
  vk_shards :: int
  vk_replicas :: int
  vk_image :: string
  vk_persistence :: bool
  vk_size :: string
  vk_storageClassName :: string
  vk_reclaimPolicy :: string
  vk_resources :: yaml
  vk_config :: yaml
  vk_users :: yaml
  vk_exporter :: bool

record chart_policy =
  np_enabled :: bool
  np_port :: int
  np_fleetNamespace :: string
  np_valkeyOperatorNamespace :: string

record exposure_values =
  ex_enabled :: bool
  ex_name :: string
  ex_hostname :: string
  ex_issuer :: string
  ex_proxyPrefix :: string
  ex_dnsDomain :: string
  ex_cookieDomains :: "string list"
  ex_passAuthorizationHeader :: bool
  ex_gateway :: "chart_gateway option"
  ex_identity :: chart_identity
  ex_routes :: "chart_route list"
  ex_cookie_existingSecret :: string
  ex_sessionStore_url :: string
  ex_session_expire :: string
  ex_session_refresh :: string
  ex_groups :: "string list"
  ex_backend :: "chart_backend option"
  ex_image_repository :: string
  ex_image_tag :: string
  ex_replicas :: int
  ex_resources :: yaml
  ex_nodeSelector :: yaml
  ex_tolerations :: yaml
  ex_topologySpreadConstraints :: yaml
  ex_valkey :: chart_valkey
  ex_networkPolicy :: chart_policy

text \<open>The root context: the values, the release, and the chart that renders.\<close>

record root =
  rt_exposure :: exposure_values
  rt_clusterName :: string
  rt_commonAnnotations :: "(string \<times> string) list"
  rt_podAnnotations :: "(string \<times> string) list"
  rel_Name :: string
  rel_Namespace :: string
  rel_Service :: string
  chart_Name :: string
  chart_Version :: string

section \<open>Sprig\<close>

datatype render_error =
    Required string
  | BadName string
  | NoRoutes
  | NoGroups string
  | ScopesWithoutOffline
  | NoBackend string

definition sprig_default :: "string \<Rightarrow> string \<Rightarrow> string" where
  "sprig_default d x = (if x = [] then d else x)"

definition required :: "string \<Rightarrow> string \<Rightarrow> (render_error, string) result" where
  "required msg x = (if x = [] then Inl (Required msg) else Inr x)"

text \<open>Sprig's \<open>empty\<close>, and \<open>with\<close>, which leaves out a block whose value is empty.\<close>

fun yaml_empty :: "yaml \<Rightarrow> bool" where
  "yaml_empty YNull \<longleftrightarrow> True"
| "yaml_empty (YBool b) \<longleftrightarrow> \<not> b"
| "yaml_empty (YInt n) \<longleftrightarrow> n = 0"
| "yaml_empty (YString s) \<longleftrightarrow> s = []"
| "yaml_empty (YList xs) \<longleftrightarrow> xs = []"
| "yaml_empty (YMap ps) \<longleftrightarrow> ps = []"

definition with_yaml :: "yaml \<Rightarrow> yaml option" where
  "with_yaml x = (if yaml_empty x then None else Some x)"

text \<open>\<open>contains needle haystack\<close>.\<close>

fun sprig_contains :: "string \<Rightarrow> string \<Rightarrow> bool" where
  "sprig_contains needle [] \<longleftrightarrow> needle = []"
| "sprig_contains needle (c # cs) \<longleftrightarrow>
     take (length needle) (c # cs) = needle \<or> sprig_contains needle cs"

text \<open>What follows a fallible part of a template, in the order of the text.\<close>

definition render_then :: "('e, 'a) result \<Rightarrow> ('a \<Rightarrow> ('e, 'b) result) \<Rightarrow> ('e, 'b) result" where
  "render_then r f = (case r of Inl e \<Rightarrow> Inl e | Inr x \<Rightarrow> f x)"

lemma render_then_simps [simp]:
  "render_then (Inl e) f = Inl e"
  "render_then (Inr x) f = f x"
  by (simp_all add: render_then_def)

lemma render_then_ok [simp]:
  "render_then r f = Inr y \<longleftrightarrow> (\<exists>x. r = Inr x \<and> f x = Inr y)"
  by (cases r) simp_all

lemma render_then_error [simp]:
  "render_then r f = Inl e \<longleftrightarrow> r = Inl e \<or> (\<exists>x. r = Inr x \<and> f x = Inl e)"
  by (cases r) auto

lemma required_ok [simp]: "required msg x = Inr y \<longleftrightarrow> x \<noteq> [] \<and> y = x"
  by (auto simp: required_def)

lemma required_error [simp]: "required msg x = Inl e \<longleftrightarrow> x = [] \<and> e = Required msg"
  by (auto simp: required_def)

text \<open>The documents of a template one behind the other; the first failure is the outcome.\<close>

fun render_all :: "('e, 'a list) result list \<Rightarrow> ('e, 'a list) result" where
  "render_all [] = Inr []"
| "render_all (r # rs) = render_then r (\<lambda>xs. render_then (render_all rs) (\<lambda>ys. Inr (xs @ ys)))"

lemma render_all_mem:
  "render_all rs = Inr ys \<Longrightarrow> y \<in> set ys \<longleftrightarrow> (\<exists>xs. Inr xs \<in> set rs \<and> y \<in> set xs)"
  by (induction rs arbitrary: ys) auto

lemma render_all_Inr: "render_all (map (\<lambda>x. Inr (f x)) xs) = Inr (concat (map f xs))"
  by (induction xs) auto

lemma render_all_total: "(\<exists>ys. render_all rs = Inr ys) \<longleftrightarrow> (\<forall>r \<in> set rs. \<exists>xs. r = Inr xs)"
  by (induction rs) auto

section \<open>Names\<close>

definition lower_alnum :: "char \<Rightarrow> bool" where
  "lower_alnum c \<longleftrightarrow> c \<in> set ''abcdefghijklmnopqrstuvwxyz0123456789''"

definition label_char :: "char \<Rightarrow> bool" where
  "label_char c \<longleftrightarrow> lower_alnum c \<or> c = CHR ''-''"

text \<open>The regular expression of \<open>gateway-auth.name\<close>: one character, or at most 45 between two.\<close>

definition name_matches :: "string \<Rightarrow> bool" where
  "name_matches s =
     (case s of
        [] \<Rightarrow> False
      | c # rest \<Rightarrow> lower_alnum c \<and>
          (rest = [] \<or>
           length (butlast rest) \<le> 45 \<and> list_all label_char (butlast rest) \<and> lower_alnum (last rest)))"

definition chart_name :: "root \<Rightarrow> (render_error, string) result" where
  "chart_name r =
     (let name = sprig_default (rel_Name r) (ex_name (rt_exposure r)) in
      if \<not> name_matches name then Inl (BadName name) else Inr name)"

definition proxyName :: "string \<Rightarrow> string" where
  "proxyName name = name @ ''-oauth2-proxy''"

definition valkeyName :: "string \<Rightarrow> string" where
  "valkeyName name = name @ ''-sessions''"

definition valkeyHost :: "string \<Rightarrow> string" where
  "valkeyHost name = ''valkey-'' @ valkeyName name"

definition oidcSecretName :: "exposure_values \<Rightarrow> string \<Rightarrow> (render_error, string) result" where
  "oidcSecretName e name =
     (if sprig_default ''zitadel'' (id_mode (ex_identity e)) = ''static''
      then required ''exposure.identity.existingSecret is required when identity.mode is static''
             (id_existingSecret (ex_identity e))
      else Inr (name @ ''-oidc-client''))"

definition cookieName :: "exposure_values \<Rightarrow> string \<Rightarrow> string" where
  "cookieName e name =
     (if ex_cookie_existingSecret e \<noteq> [] then ex_cookie_existingSecret e else name @ ''-cookie'')"

definition dnsDomain :: "exposure_values \<Rightarrow> string" where
  "dnsDomain e = sprig_default ''cluster.local'' (ex_dnsDomain e)"

definition jwtProviderName :: "exposure_values \<Rightarrow> string" where
  "jwtProviderName e = sprig_default ''zitadel'' (id_mode (ex_identity e))"

definition chart_labels :: "root \<Rightarrow> string \<Rightarrow> (string \<times> string) list" where
  "chart_labels r name =
     [(''app.kubernetes.io/name'', ''gateway-auth''),
      (''app.kubernetes.io/instance'', name),
      (''app.kubernetes.io/managed-by'', rel_Service r),
      (''helm.sh/chart'', chart_Name r @ ''-'' @ chart_Version r),
      (''tenancy.truvity.io/layer'', ''infra''),
      (''tenancy.truvity.io/component'', ''gateway-auth'')]"

definition proxySelectorLabels :: "string \<Rightarrow> (string \<times> string) list" where
  "proxySelectorLabels name =
     [(''app.kubernetes.io/name'', ''oauth2-proxy''), (''app.kubernetes.io/instance'', name)]"

definition resourceAnnotations :: "root \<Rightarrow> string \<Rightarrow> (string \<times> string) list" where
  "resourceAnnotations r wave = (''argocd.argoproj.io/sync-wave'', wave) # rt_commonAnnotations r"

section \<open>Derived names are legal\<close>

text \<open>A DNS-1123 label, which the name of a Kubernetes Service must be.\<close>

definition dns_label :: "string \<Rightarrow> bool" where
  "dns_label s \<longleftrightarrow> s \<noteq> [] \<and> length s \<le> 63 \<and> list_all label_char s \<and>
     lower_alnum (hd s) \<and> lower_alnum (last s)"

lemma name_matches_label:
  assumes "name_matches s"
  shows "s \<noteq> [] \<and> length s \<le> 47 \<and> list_all label_char s \<and> lower_alnum (hd s) \<and> lower_alnum (last s)"
proof (cases s)
  case (Cons c rest)
  show ?thesis
  proof (cases "rest = []")
    case False
    then obtain mid d where "rest = mid @ [d]" using list_last_split by blast
    with Cons assms show ?thesis
      by (auto simp: name_matches_def label_char_def)
  qed (use Cons assms in \<open>simp add: name_matches_def label_char_def\<close>)
qed (use assms in \<open>simp add: name_matches_def\<close>)

lemma lower_alnum_eval:
  "lower_alnum c \<Longrightarrow> label_char c"
  by (simp add: label_char_def)

lemma derived_names_labels:
  assumes "name_matches name"
  shows "dns_label (proxyName name)" and "dns_label (valkeyHost name)"
  using name_matches_label [OF assms]
  by (auto simp: dns_label_def proxyName_def valkeyHost_def valkeyName_def label_char_def lower_alnum_def)

end
