(* ===== verification/Chart.thy ===== *)
theory Chart
  imports Chart_Values
begin

text \<open>
  The templates of \<open>_exposure.tpl\<close>: the configuration of oauth2-proxy and the Kubernetes documents
  of one exposure, in the order of the text. A document is its metadata and the fields of its spec;
  the YAML text around them and the fields that are the same in every rendering and refer to nothing
  (port names, protocols, probes, mount paths) are left out. A failure is the first \<open>fail\<close> or
  \<open>required\<close> that the text meets.
\<close>

section \<open>The configuration of oauth2-proxy\<close>

datatype setting_value = TStr string | TBool bool | TList "string list"

type_synonym settings = "(string \<times> setting_value) list"

definition cookie_domains :: "exposure_values \<Rightarrow> string list" where
  "cookie_domains e = (if ex_cookieDomains e = [] then [ex_hostname e] else ex_cookieDomains e)"

definition proxy_prefix :: "exposure_values \<Rightarrow> string" where
  "proxy_prefix e = sprig_default ''/oauth2'' (ex_proxyPrefix e)"

definition cfg_scopes :: "exposure_values \<Rightarrow> (render_error, string) result" where
  "cfg_scopes e =
     (let scopes = id_scopes (ex_identity e) in
      if scopes = [] then
        let scopes = ''openid profile email'';
            scopes = (if ex_groups e \<noteq> [] then scopes @ '' groups'' else scopes);
            scopes = (if ex_session_refresh e \<noteq> [] then scopes @ '' offline_access'' else scopes)
        in Inr scopes
      else if ex_session_refresh e \<noteq> [] \<and> \<not> sprig_contains ''offline_access'' scopes
      then Inl ScopesWithoutOffline
      else Inr scopes)"

definition redis_url :: "root \<Rightarrow> string \<Rightarrow> string" where
  "redis_url r name =
     ''redis://'' @ valkeyHost name @ ''.'' @ rel_Namespace r @ ''.svc.'' @ dnsDomain (rt_exposure r) @ '':6379''"

definition oauth2ProxyCfg :: "root \<Rightarrow> (render_error, settings) result" where
  "oauth2ProxyCfg r =
     (let e = rt_exposure r in
      render_then (required ''exposure.hostname is required when exposure.enabled'' (ex_hostname e)) (\<lambda>hostname.
      render_then (required ''exposure.issuer is required when exposure.enabled'' (ex_issuer e)) (\<lambda>issuer.
      render_then (cfg_scopes e) (\<lambda>scopes.
      render_then (if ex_sessionStore_url e \<noteq> [] then Inr (''redis_connection_url'', TStr (ex_sessionStore_url e))
         else render_then (chart_name r) (\<lambda>name.
           Inr (''redis_cluster_connection_urls'', TList [redis_url r name]))) (\<lambda>store.
        Inr ([(''provider'', TStr ''oidc''),
              (''oidc_issuer_url'', TStr issuer),
              (''redirect_url'', TStr (''https://'' @ hostname @ proxy_prefix e @ ''/callback'')),
              (''proxy_prefix'', TStr (proxy_prefix e)),
              (''http_address'', TStr ''0.0.0.0:4180''),
              (''reverse_proxy'', TBool True),
              (''upstreams'', TList [''static://200'']),
              (''cookie_domains'', TList (cookie_domains e)),
              (''whitelist_domains'', TList (cookie_domains e)),
              (''cookie_secure'', TBool True),
              (''cookie_samesite'', TStr ''lax''),
              (''cookie_expire'', TStr (sprig_default ''11h'' (ex_session_expire e)))] @
             (if ex_session_refresh e \<noteq> [] then [(''cookie_refresh'', TStr (ex_session_refresh e))] else []) @
             [(''cookie_csrf_per_request'', TBool True),
              (''cookie_csrf_expire'', TStr ''5m''),
              (''scope'', TStr scopes),
              (''code_challenge_method'', TStr ''S256''),
              (''skip_provider_button'', TBool True),
              (''email_domains'', TList [''*'']),
              (''set_xauthrequest'', TBool True),
              (''pass_access_token'', TBool True),
              (''set_authorization_header'', TBool (ex_passAuthorizationHeader e)),
              (''session_store_type'', TStr ''redis''),
              (''redis_use_cluster'', TBool True),
              store]))))))"

section \<open>Documents\<close>

datatype project_ref = ProjectId string | ProjectRef string

record oidc_app =
  oa_name :: string
  oa_project :: project_ref
  oa_type :: string
  oa_authMethod :: string
  oa_accessTokenType :: string
  oa_accessTokenRoleAssertion :: bool
  oa_idTokenRoleAssertion :: bool
  oa_idTokenUserinfoAssertion :: bool
  oa_redirectUris :: "string list"
  oa_postLogoutRedirectUris :: "string list"
  oa_secretRef :: string

record valkey_cluster =
  vc_shards :: int
  vc_replicas :: int
  vc_image :: "string option"
  vc_persistence :: "(string \<times> string option \<times> string option) option"
  vc_resources :: "yaml option"
  vc_config :: "yaml option"
  vc_users :: "yaml option"
  vc_exporter :: bool

record proxy_deployment =
  pd_replicas :: int
  pd_selector :: "(string \<times> string) list"
  pd_podLabels :: "(string \<times> string) list"
  pd_checksum :: string
  pd_podAnnotations :: "(string \<times> string) list"
  pd_nodeSelector :: "yaml option"
  pd_tolerations :: "yaml option"
  pd_topologySpreadConstraints :: "yaml option"
  pd_image :: string
  pd_clientSecret :: string
  pd_cookieSecret :: string
  pd_port :: int
  pd_resources :: yaml
  pd_configMap :: string

record http_route =
  hr_gateway :: chart_gateway
  hr_hostname :: string
  hr_pathType :: string
  hr_path :: string
  hr_backend :: "string \<times> int option"

record jwt_provider =
  jp_name :: string
  jp_issuer :: string
  jp_remoteJWKS :: string
  jp_cacheDuration :: string
  jp_extractFrom :: "string list"

datatype rule_action = Allow | Deny

record jwt_rule =
  jr_name :: string
  jr_action :: rule_action
  jr_provider :: string
  jr_claim :: string
  jr_valueType :: string
  jr_values :: "string list"

text \<open>The jwt and authorization blocks: providers, default action, rules.\<close>

record jwt_block =
  jb_providers :: "jwt_provider list"
  jb_defaultAction :: rule_action
  jb_rules :: "jwt_rule list"

record security_policy =
  sp_target :: string
  sp_headersToExtAuth :: "string list"
  sp_extAuth :: "string \<times> int"
  sp_headersToBackend :: "string list"
  sp_jwt :: "jwt_block option"

text \<open>A peer of a network policy: the namespace, none for its own, and the pods' labels, none for all.\<close>

record policy_rule =
  pr_namespace :: "string option"
  pr_pods :: "(string \<times> string) list option"
  pr_ports :: "int list"

datatype spec =
    OIDCApp oidc_app
  | ValkeyCluster valkey_cluster
  | Password int int
  | ExternalSecret string string
  | ProxyService "(string \<times> string) list" int
  | ProxyDeployment proxy_deployment
  | ProxyConfigMap settings
  | HTTPRoute http_route
  | SecurityPolicy security_policy
  | NetworkPolicy "(string \<times> string) list" "policy_rule list"

text \<open>The \<open>kind\<close> field.\<close>

fun spec_kind :: "spec \<Rightarrow> string" where
  "spec_kind (OIDCApp _) = ''OIDCApp''"
| "spec_kind (ValkeyCluster _) = ''ValkeyCluster''"
| "spec_kind (Password _ _) = ''Password''"
| "spec_kind (ExternalSecret _ _) = ''ExternalSecret''"
| "spec_kind (ProxyService _ _) = ''Service''"
| "spec_kind (ProxyDeployment _) = ''Deployment''"
| "spec_kind (ProxyConfigMap _) = ''ConfigMap''"
| "spec_kind (HTTPRoute _) = ''HTTPRoute''"
| "spec_kind (SecurityPolicy _) = ''SecurityPolicy''"
| "spec_kind (NetworkPolicy _ _) = ''NetworkPolicy''"

record manifest =
  m_name :: string
  m_labels :: "(string \<times> string) list"
  m_annotations :: "(string \<times> string) list"
  m_spec :: spec

section \<open>The documents of one install\<close>

definition owned :: "root \<Rightarrow> string \<Rightarrow> string \<Rightarrow> string \<Rightarrow> spec \<Rightarrow> manifest" where
  "owned r name wave docname s =
     \<lparr>m_name = docname, m_labels = chart_labels r name, m_annotations = resourceAnnotations r wave, m_spec = s\<rparr>"

definition oidc_document :: "root \<Rightarrow> string \<Rightarrow> (render_error, manifest list) result" where
  "oidc_document r name =
     (let e = rt_exposure r; i = ex_identity e in
      if sprig_default ''zitadel'' (id_mode i) = ''static'' then Inr []
      else
        render_then
          (if id_cluster i
           then render_then (required ''exposure.identity.projectId is required when exposure.identity.project.cluster''
                  (id_projectId i)) (\<lambda>p. Inr (ProjectId p))
           else render_then (required ''exposure.identity.project.ref is required when not exposure.identity.project.cluster''
                  (id_ref i)) (\<lambda>p. Inr (ProjectRef p))) (\<lambda>project.
        render_then (oidcSecretName e name) (\<lambda>secret.
          Inr [owned r name ''10'' (name @ ''-oidc'') (OIDCApp
            \<lparr>oa_name = sprig_default (name @ ''-'' @ rt_clusterName r) (id_appName i),
             oa_project = project, oa_type = ''confidential'', oa_authMethod = ''basic'',
             oa_accessTokenType = ''jwt'', oa_accessTokenRoleAssertion = False,
             oa_idTokenRoleAssertion = False, oa_idTokenUserinfoAssertion = True,
             oa_redirectUris = [''https://'' @ ex_hostname e @ proxy_prefix e @ ''/callback''],
             oa_postLogoutRedirectUris = [''https://'' @ ex_hostname e, ''https://'' @ ex_hostname e @ ''/''],
             oa_secretRef = secret\<rparr>)])))"

definition optional_text :: "string \<Rightarrow> string option" where
  "optional_text x = (if x = [] then None else Some x)"

text \<open>
  The session store and the generator of the cookie secret. Both stand inside the one
  \<open>if not sessionStore.url\<close>: the \<open>if\<close> on the existing cookie secret that precedes the generator is
  closed on the line behind it.
\<close>

definition store_documents :: "root \<Rightarrow> string \<Rightarrow> (render_error, manifest list) result" where
  "store_documents r name =
     (let e = rt_exposure r; v = ex_valkey e in
      if ex_sessionStore_url e \<noteq> [] then Inr []
      else
        render_then
          (if vk_persistence v
           then render_then (required ''exposure.valkey.persistence.size is required when persistence is enabled''
                  (vk_size v))
                  (\<lambda>size. Inr (Some (size, optional_text (vk_storageClassName v), optional_text (vk_reclaimPolicy v))))
           else Inr None) (\<lambda>persistence.
          Inr [owned r name ''5'' (valkeyName name) (ValkeyCluster
                 \<lparr>vc_shards = vk_shards v, vc_replicas = vk_replicas v, vc_image = optional_text (vk_image v),
                  vc_persistence = persistence, vc_resources = with_yaml (vk_resources v),
                  vc_config = with_yaml (vk_config v), vc_users = with_yaml (vk_users v),
                  vc_exporter = vk_exporter v\<rparr>),
               owned r name ''5'' (cookieName e name) (Password 32 0)]))"

definition cookie_documents :: "root \<Rightarrow> string \<Rightarrow> manifest list" where
  "cookie_documents r name =
     (let e = rt_exposure r in
      if ex_cookie_existingSecret e \<noteq> [] then []
      else [owned r name ''5'' (cookieName e name) (ExternalSecret (cookieName e name) (cookieName e name))])"

definition service_document :: "root \<Rightarrow> string \<Rightarrow> manifest" where
  "service_document r name =
     \<lparr>m_name = proxyName name, m_labels = chart_labels r name @ proxySelectorLabels name,
      m_annotations = resourceAnnotations r ''15'', m_spec = ProxyService (proxySelectorLabels name) 4180\<rparr>"

definition default_resources :: yaml where
  "default_resources = YMap
     [(''requests'', YMap [(''cpu'', YString ''25m''), (''memory'', YString ''64Mi'')]),
      (''limits'', YMap [(''memory'', YString ''128Mi'')])]"

text \<open>\<open>sha\<close> is Sprig's \<open>sha256sum\<close> of the configuration's text.\<close>

definition deployment_document ::
    "(settings \<Rightarrow> string) \<Rightarrow> root \<Rightarrow> string \<Rightarrow> (render_error, manifest list) result" where
  "deployment_document sha r name =
     (let e = rt_exposure r in
      render_then (oauth2ProxyCfg r) (\<lambda>cfg.
      render_then (required ''exposure.proxy.image.repository is required'' (ex_image_repository e)) (\<lambda>repository.
      render_then (required ''exposure.proxy.image.tag is required'' (ex_image_tag e)) (\<lambda>tag.
      render_then (oidcSecretName e name) (\<lambda>secret.
        Inr [\<lparr>m_name = proxyName name, m_labels = chart_labels r name @ proxySelectorLabels name,
          m_annotations = resourceAnnotations r ''15'',
          m_spec = ProxyDeployment
            \<lparr>pd_replicas = (if ex_replicas e = 0 then 2 else ex_replicas e),
             pd_selector = proxySelectorLabels name, pd_podLabels = proxySelectorLabels name,
             pd_checksum = sha cfg, pd_podAnnotations = rt_podAnnotations r,
             pd_nodeSelector = with_yaml (ex_nodeSelector e), pd_tolerations = with_yaml (ex_tolerations e),
             pd_topologySpreadConstraints = with_yaml (ex_topologySpreadConstraints e), pd_image = repository @ '':'' @ tag,
             pd_clientSecret = secret, pd_cookieSecret = cookieName e name,
             pd_port = 4180,
             pd_resources = (if yaml_empty (ex_resources e) then default_resources else ex_resources e), pd_configMap = proxyName name\<rparr>\<rparr>])))))"

definition config_document :: "root \<Rightarrow> string \<Rightarrow> (render_error, manifest list) result" where
  "config_document r name =
     render_then (oauth2ProxyCfg r) (\<lambda>cfg.
       Inr [owned r name ''15'' (proxyName name) (ProxyConfigMap cfg)])"

definition proxy_route :: "root \<Rightarrow> string \<Rightarrow> chart_gateway \<Rightarrow> (render_error, manifest list) result" where
  "proxy_route r name gw =
     (let e = rt_exposure r in
      render_then (required ''exposure.gateway.name is required'' (gw_name gw)) (\<lambda>_.
      render_then (required ''exposure.gateway.namespace is required'' (gw_namespace gw)) (\<lambda>_.
      render_then (required ''exposure.gateway.sectionName is required'' (gw_sectionName gw)) (\<lambda>_.
        Inr [owned r name ''20'' (name @ ''-proxy'') (HTTPRoute
          \<lparr>hr_gateway = gw, hr_hostname = ex_hostname e, hr_pathType = ''PathPrefix'',
           hr_path = proxy_prefix e @ ''/'', hr_backend = (proxyName name, Some 4180)\<rparr>)]))))"

section \<open>The routes\<close>

definition sec_target :: "string \<Rightarrow> chart_route \<Rightarrow> string" where
  "sec_target name route =
     (if rt_targetRouteName route \<noteq> [] then rt_targetRouteName route else name @ ''-'' @ rt_name route)"

text \<open>The backend of a route; without a port \<open>required\<close> fails on the missing value.\<close>

definition app_route ::
    "root \<Rightarrow> string \<Rightarrow> chart_gateway \<Rightarrow> chart_route \<Rightarrow> (render_error, manifest list) result" where
  "app_route r name gw route =
     (let e = rt_exposure r in
      if rt_targetRouteName route \<noteq> [] then Inr []
      else case (case rt_backend route of Some b \<Rightarrow> Some b | None \<Rightarrow> ex_backend e) of
        None \<Rightarrow> Inl (NoBackend (rt_name route))
      | Some backend \<Rightarrow>
          render_then (required ''route backend needs a name'' (be_name backend)) (\<lambda>be.
          render_then (case be_port backend of None \<Rightarrow> Inl (Required ''route backend needs a port'') | Some p \<Rightarrow> Inr p) (\<lambda>port.
            Inr [owned r name ''20'' (name @ ''-'' @ rt_name route) (HTTPRoute
              \<lparr>hr_gateway = gw, hr_hostname = ex_hostname e,
               hr_pathType = sprig_default ''PathPrefix'' (rt_pathType route),
               hr_path = sprig_default ''/'' (rt_path route), hr_backend = (be, Some port)\<rparr>)])))"

definition jwt_block_of :: "exposure_values \<Rightarrow> (render_error, jwt_block) result" where
  "jwt_block_of e =
     (if ex_groups e = []
      then Inl (Required ''exposure.authorization.groups must be set for a protected route'')
      else Inr \<lparr>jb_providers =
           [\<lparr>jp_name = jwtProviderName e, jp_issuer = ex_issuer e,
             jp_remoteJWKS = sprig_default (ex_issuer e @ ''/oauth/v2/keys'') (id_jwksUri (ex_identity e)),
             jp_cacheDuration = ''300s'', jp_extractFrom = [''X-Auth-Request-Access-Token'']\<rparr>],
         jb_defaultAction = Deny,
         jb_rules =
           [\<lparr>jr_name = ''groups-allow'', jr_action = Allow, jr_provider = jwtProviderName e,
             jr_claim = ''groups'', jr_valueType = ''StringArray'', jr_values = ex_groups e\<rparr>]\<rparr>)"

definition route_policy ::
    "root \<Rightarrow> string \<Rightarrow> chart_route \<Rightarrow> (render_error, manifest list) result" where
  "route_policy r name route =
     (let e = rt_exposure r in
      if \<not> rt_protected route then Inr []
      else
        render_then
          (if rt_authenticatedOnly route then Inr None
           else render_then (jwt_block_of e) (\<lambda>b. Inr (Some b))) (\<lambda>jwt.
          Inr [owned r name ''20'' (name @ ''-'' @ rt_name route) (SecurityPolicy
            \<lparr>sp_target = sec_target name route,
             sp_headersToExtAuth = [''cookie'', ''x-forwarded-proto'', ''x-forwarded-host'', ''x-forwarded-uri''],
             sp_extAuth = (proxyName name, 4180),
             sp_headersToBackend =
               [''x-auth-request-access-token'', ''x-auth-request-user'', ''x-auth-request-email'',
                ''x-auth-request-groups''] @
               (if ex_passAuthorizationHeader e then [''authorization''] else []),
             sp_jwt = jwt\<rparr>)]))"

definition route_documents ::
    "root \<Rightarrow> string \<Rightarrow> chart_gateway \<Rightarrow> chart_route \<Rightarrow> (render_error, manifest list) result" where
  "route_documents r name gw route =
     render_then (required ''each exposure.routes entry needs a name'' (rt_name route))
       (\<lambda>_. render_all [app_route r name gw route, route_policy r name route])"

section \<open>Network policies\<close>

definition network_documents :: "root \<Rightarrow> string \<Rightarrow> manifest list" where
  "network_documents r name =
     (let n = ex_networkPolicy (rt_exposure r) in
      if \<not> np_enabled n then []
      else
        [owned r name ''0'' (proxyName name @ ''-ingress'') (NetworkPolicy (proxySelectorLabels name)
           [\<lparr>pr_namespace = Some (sprig_default ''envoy-gateway-system'' (np_fleetNamespace n)),
             pr_pods = Some [(''app.kubernetes.io/name'', ''envoy'')],
             pr_ports = [if np_port n = 0 then 4180 else np_port n]\<rparr>]),
         owned r name ''0'' (valkeyName name @ ''-operator'') (NetworkPolicy [(''valkey.io/cluster'', valkeyName name)]
           [\<lparr>pr_namespace = Some (sprig_default ''valkey-operator-system'' (np_valkeyOperatorNamespace n)),
             pr_pods = None, pr_ports = [6379, 16379]\<rparr>,
            \<lparr>pr_namespace = None, pr_pods = Some (proxySelectorLabels name), pr_ports = [6379]\<rparr>])])"

section \<open>The exposure\<close>

definition default_route :: chart_route where
  "default_route = \<lparr>rt_name = ''app'', rt_path = ''/'', rt_pathType = [], rt_protected = True,
     rt_authenticatedOnly = False, rt_targetRouteName = [], rt_backend = None\<rparr>"

definition routes_of :: "exposure_values \<Rightarrow> chart_route list" where
  "routes_of e = (if ex_routes e = [] then [default_route] else ex_routes e)"

text \<open>The first route that is protected by groups while no group is configured.\<close>

definition groups_check :: "exposure_values \<Rightarrow> (render_error, unit) result" where
  "groups_check e =
     (case find (\<lambda>route. rt_protected route \<and> \<not> rt_authenticatedOnly route \<and> ex_groups e = []) (routes_of e) of
        Some route \<Rightarrow> Inl (NoGroups (rt_name route))
      | None \<Rightarrow> Inr ())"

definition exposure :: "(settings \<Rightarrow> string) \<Rightarrow> root \<Rightarrow> (render_error, manifest list) result" where
  "exposure sha r =
     (let e = rt_exposure r in
      if \<not> ex_enabled e then Inr []
      else
        render_then (chart_name r) (\<lambda>name.
        render_then (required ''exposure.hostname is required when exposure.enabled'' (ex_hostname e)) (\<lambda>hostname.
        render_then (required ''exposure.issuer is required when exposure.enabled'' (ex_issuer e)) (\<lambda>issuer.
        render_then (case ex_gateway e of
            None \<Rightarrow> Inl (Required ''exposure.gateway is required when exposure.enabled'')
          | Some gw \<Rightarrow> Inr gw) (\<lambda>gw.
        render_then (if routes_of e = [] then Inl NoRoutes else Inr ()) (\<lambda>_.
        render_then (groups_check e) (\<lambda>_.
          render_all
            ([oidc_document r name, store_documents r name, Inr (cookie_documents r name),
              Inr [service_document r name], deployment_document sha r name, config_document r name,
              proxy_route r name gw] @
             map (route_documents r name gw) (routes_of e) @
             [Inr (network_documents r name)]))))))))"

end
