(* ===== verification/Chart_Facts.thy ===== *)
theory Chart_Facts
  imports Chart
begin

text \<open>
  What the chart renders: which documents a successful rendering holds, which routes are protected
  and how, where the names and secrets a document refers to come from, and when a rendering fails.
\<close>

section \<open>The documents of a rendering\<close>

lemma render_all_append:
  "render_all (rs @ rs') = render_then (render_all rs) (\<lambda>xs. render_then (render_all rs') (\<lambda>ys. Inr (xs @ ys)))"
  by (induction rs) (auto simp: render_then_def split: sum.splits)

definition install_parts ::
    "(settings \<Rightarrow> string) \<Rightarrow> root \<Rightarrow> string \<Rightarrow> chart_gateway \<Rightarrow> (render_error, manifest list) result list" where
  "install_parts sha r name gw =
     [oidc_document r name, store_documents r name, Inr (cookie_documents r name),
      Inr [service_document r name], deployment_document sha r name, config_document r name,
      proxy_route r name gw] @
     map (route_documents r name gw) (routes_of (rt_exposure r)) @
     [Inr (network_documents r name)]"

lemma routes_of_nonempty [simp]: "routes_of e \<noteq> []"
  by (simp add: routes_of_def)

lemma exposure_ok_iff:
  assumes "ex_enabled (rt_exposure r)"
  shows "exposure sha r = Inr docs \<longleftrightarrow>
     (\<exists>name gw. chart_name r = Inr name \<and> ex_hostname (rt_exposure r) \<noteq> [] \<and>
        ex_issuer (rt_exposure r) \<noteq> [] \<and> ex_gateway (rt_exposure r) = Some gw \<and>
        groups_check (rt_exposure r) = Inr () \<and> render_all (install_parts sha r name gw) = Inr docs)"
  using assms by (auto simp: exposure_def Let_def install_parts_def split: option.splits)

text \<open>A successful rendering of an enabled exposure, with the name and gateway it is for.\<close>

definition renders ::
    "(settings \<Rightarrow> string) \<Rightarrow> root \<Rightarrow> string \<Rightarrow> chart_gateway \<Rightarrow> manifest list \<Rightarrow> bool" where
  "renders sha r name gw docs \<longleftrightarrow>
     chart_name r = Inr name \<and> ex_hostname (rt_exposure r) \<noteq> [] \<and> ex_issuer (rt_exposure r) \<noteq> [] \<and>
     ex_gateway (rt_exposure r) = Some gw \<and> groups_check (rt_exposure r) = Inr () \<and>
     render_all (install_parts sha r name gw) = Inr docs"

lemma exposure_renders:
  assumes "ex_enabled (rt_exposure r)" and "exposure sha r = Inr docs"
  obtains name gw where "renders sha r name gw docs"
  using assms(2) unfolding exposure_ok_iff [OF assms(1)] renders_def by blast

lemma renders_part:
  assumes "renders sha r name gw docs" and "part \<in> set (install_parts sha r name gw)"
  obtains ds where "part = Inr ds" and "set ds \<subseteq> set docs"
proof -
  from assms(1) have ok: "render_all (install_parts sha r name gw) = Inr docs" by (simp add: renders_def)
  then obtain ds where "part = Inr ds"
    using render_all_total [THEN iffD1, OF exI, OF ok] assms(2) by blast
  with render_all_mem [OF ok] assms(2) that show thesis by blast
qed

lemma renders_mem:
  assumes "renders sha r name gw docs" and "d \<in> set docs"
  obtains ds where "Inr ds \<in> set (install_parts sha r name gw)" and "d \<in> set ds"
  using assms render_all_mem unfolding renders_def by metis

section \<open>Documents by their kind\<close>

abbreviation kind :: "manifest \<Rightarrow> string" where
  "kind d \<equiv> spec_kind (m_spec d)"

lemma documents_kinds:
  "oidc_document r name = Inr ds \<Longrightarrow> d \<in> set ds \<Longrightarrow> kind d = ''OIDCApp''"
  "store_documents r name = Inr ds \<Longrightarrow> d \<in> set ds \<Longrightarrow> kind d \<in> {''ValkeyCluster'', ''Password''}"
  "d \<in> set (cookie_documents r name) \<Longrightarrow> kind d = ''ExternalSecret''"
  "d = service_document r name \<Longrightarrow> kind d = ''Service''"
  "deployment_document sha r name = Inr ds \<Longrightarrow> d \<in> set ds \<Longrightarrow> kind d = ''Deployment''"
  "config_document r name = Inr ds \<Longrightarrow> d \<in> set ds \<Longrightarrow> kind d = ''ConfigMap''"
  "proxy_route r name gw = Inr ds \<Longrightarrow> d \<in> set ds \<Longrightarrow> kind d = ''HTTPRoute''"
  "d \<in> set (network_documents r name) \<Longrightarrow> kind d = ''NetworkPolicy''"
  by (auto simp: oidc_document_def store_documents_def cookie_documents_def service_document_def
      deployment_document_def config_document_def proxy_route_def network_documents_def owned_def Let_def
      split: if_splits)

lemma route_kinds:
  "app_route r name gw route = Inr ds \<Longrightarrow> d \<in> set ds \<Longrightarrow> kind d = ''HTTPRoute''"
  "route_policy r name route = Inr ds \<Longrightarrow> d \<in> set ds \<Longrightarrow> kind d = ''SecurityPolicy''"
  by (auto simp: app_route_def route_policy_def owned_def Let_def split: if_splits option.splits)

lemma route_documents_ok:
  "route_documents r name gw route = Inr ds \<longleftrightarrow>
     rt_name route \<noteq> [] \<and> (\<exists>xs ys. app_route r name gw route = Inr xs \<and> route_policy r name route = Inr ys \<and>
       ds = xs @ ys)"
  by (auto simp: route_documents_def)

text \<open>Where a document comes from.\<close>

lemma install_parts_cases:
  assumes "Inr ds \<in> set (install_parts sha r name gw)"
  obtains (oidc) "oidc_document r name = Inr ds"
  | (store) "store_documents r name = Inr ds"
  | (cookie) "ds = cookie_documents r name"
  | (service) "ds = [service_document r name]"
  | (deployment) "deployment_document sha r name = Inr ds"
  | (config) "config_document r name = Inr ds"
  | (proxy) "proxy_route r name gw = Inr ds"
  | (route) route where "route \<in> set (routes_of (rt_exposure r))" "route_documents r name gw route = Inr ds"
  | (network) "ds = network_documents r name"
proof -
  have "Inr ds \<in> {oidc_document r name, store_documents r name, Inr (cookie_documents r name),
      Inr [service_document r name], deployment_document sha r name, config_document r name, proxy_route r name gw} \<or>
    Inr ds \<in> route_documents r name gw ` set (routes_of (rt_exposure r)) \<or> ds = network_documents r name"
    using assms unfolding install_parts_def by (simp only: set_append Un_iff list.set set_map empty_iff insert_iff) blast
  then show thesis
    using that by (elim disjE insertE emptyE imageE) (metis sum.inject(2))+
qed

text \<open>The policies of a rendering are those of its routes.\<close>

lemma renders_policy:
  assumes "renders sha r name gw docs"
  shows "d \<in> set docs \<and> m_spec d = SecurityPolicy sp \<longleftrightarrow>
     (\<exists>route \<in> set (routes_of (rt_exposure r)). \<exists>ds. route_policy r name route = Inr ds \<and> d \<in> set ds \<and>
        m_spec d = SecurityPolicy sp)" (is "?l \<longleftrightarrow> ?r")
proof
  assume ?l
  then obtain ds where ds: "Inr ds \<in> set (install_parts sha r name gw)" "d \<in> set ds"
      and sp: "m_spec d = SecurityPolicy sp"
    using renders_mem [OF assms] by blast
  have k: "kind d = ''SecurityPolicy''" by (simp add: sp)
  from ds(1) obtain route where "route \<in> set (routes_of (rt_exposure r))" and rd: "route_documents r name gw route = Inr ds"
    by (cases rule: install_parts_cases) (use documents_kinds ds(2) k in fastforce)+
  moreover from rd ds(2) sp obtain ys where "route_policy r name route = Inr ys" "d \<in> set ys"
    unfolding route_documents_ok using route_kinds(1) by fastforce
  ultimately show ?r using sp by blast
next
  assume ?r
  then obtain route ds where route: "route \<in> set (routes_of (rt_exposure r))" "route_policy r name route = Inr ds"
      "d \<in> set ds" "m_spec d = SecurityPolicy sp"
    by blast
  then have "route_documents r name gw route \<in> set (install_parts sha r name gw)"
    by (simp add: install_parts_def)
  from renders_part [OF assms this] obtain es where "route_documents r name gw route = Inr es" "set es \<subseteq> set docs" .
  with route show ?l unfolding route_documents_ok by auto
qed

section \<open>Protected routes\<close>

lemma groups_check_ok:
  "groups_check e = Inr () \<longleftrightarrow>
     (\<forall>route \<in> set (routes_of e). rt_protected route \<and> \<not> rt_authenticatedOnly route \<longrightarrow> ex_groups e \<noteq> [])"
proof (cases "find (\<lambda>route. rt_protected route \<and> \<not> rt_authenticatedOnly route \<and> ex_groups e = []) (routes_of e)")
  case None
  then have "\<forall>route \<in> set (routes_of e). rt_protected route \<and> \<not> rt_authenticatedOnly route \<longrightarrow> ex_groups e \<noteq> []"
    by (auto simp: find_None_iff)
  then show ?thesis
    unfolding groups_check_def None option.case by blast
next
  case (Some route)
  then have "rt_protected route \<and> \<not> rt_authenticatedOnly route \<and> ex_groups e = []" "route \<in> set (routes_of e)"
    by (auto simp: find_Some_iff)
  with Some show ?thesis by (auto simp: groups_check_def)
qed

lemma route_policy_rendered:
  assumes "groups_check (rt_exposure r) = Inr ()" and "route \<in> set (routes_of (rt_exposure r))" and "rt_protected route"
  obtains d sp where "route_policy r name route = Inr [d]" and "m_spec d = SecurityPolicy sp"
    and "sp_target sp = sec_target name route" and "sp_extAuth sp = (proxyName name, 4180)"
    and "sp_jwt sp = (if rt_authenticatedOnly route then None
       else Some (projr (jwt_block_of (rt_exposure r))))"
proof -
  have "rt_authenticatedOnly route \<or> (\<exists>b. jwt_block_of (rt_exposure r) = Inr b)"
    using assms by (auto simp: groups_check_ok jwt_block_of_def)
  with assms(3) that show thesis
    by (cases "rt_authenticatedOnly route") (auto simp: route_policy_def owned_def Let_def)
qed

text \<open>Every SecurityPolicy of a rendering targets the route of a protected entry, and conversely.\<close>

lemma renders_targets:
  assumes "renders sha r name gw docs"
  shows "(\<exists>d \<in> set docs. \<exists>sp. m_spec d = SecurityPolicy sp \<and> sp_target sp = t) \<longleftrightarrow>
     (\<exists>route \<in> set (routes_of (rt_exposure r)). rt_protected route \<and> sec_target name route = t)"
    (is "?l \<longleftrightarrow> ?r")
proof -
  have check: "groups_check (rt_exposure r) = Inr ()" using assms by (simp add: renders_def)
  show ?thesis
  proof
    assume ?l
    then obtain d sp where "d \<in> set docs \<and> m_spec d = SecurityPolicy sp" and t: "sp_target sp = t" by blast
    then obtain route ds where route: "route \<in> set (routes_of (rt_exposure r))" "route_policy r name route = Inr ds"
        "d \<in> set ds" "m_spec d = SecurityPolicy sp"
      unfolding renders_policy [OF assms] by blast
    then have p: "rt_protected route" by (auto simp: route_policy_def Let_def split: if_splits)
    from route_policy_rendered [OF check route(1) p, of name] route(2-4) t
    have "sec_target name route = t" by (metis list.set_intros(1) empty_set insertE list.simps(15) singletonD spec.inject(9) sum.inject(2))
    with route(1) p show ?r by blast
  next
    assume ?r
    then obtain route where route: "route \<in> set (routes_of (rt_exposure r))" "rt_protected route" "sec_target name route = t"
      by blast
    from route_policy_rendered [OF check route(1,2), of name] obtain d sp where
      "route_policy r name route = Inr [d]" "m_spec d = SecurityPolicy sp" "sp_target sp = sec_target name route" .
    with renders_policy [OF assms, of d sp] route(1) have "d \<in> set docs" by (metis list.set_intros(1))
    with \<open>m_spec d = _\<close> \<open>sp_target sp = _\<close> route(3) show ?l by blast
  qed
qed

text \<open>What a gate on groups is: denied by default, and every rule allows holders of one of the groups
  by a token of the issuer that one of the block's own providers checks.\<close>

definition demands_groups :: "string list \<Rightarrow> string \<Rightarrow> jwt_block \<Rightarrow> bool" where
  "demands_groups groups issuer jb \<longleftrightarrow> groups \<noteq> [] \<and> jb_defaultAction jb = Deny \<and> jb_rules jb \<noteq> [] \<and>
     (\<forall>rule \<in> set (jb_rules jb). jr_action rule = Allow \<and> jr_claim rule = ''groups'' \<and> jr_values rule = groups \<and>
        (\<exists>p \<in> set (jb_providers jb). jp_name p = jr_provider rule \<and> jp_issuer p = issuer \<and>
           jp_extractFrom p = [''X-Auth-Request-Access-Token'']))"

text \<open>The service a policy asks: rendered, with the proxy's pods behind it.\<close>

definition proxy_behind :: "manifest list \<Rightarrow> string \<times> int \<Rightarrow> bool" where
  "proxy_behind docs backend \<longleftrightarrow>
     (\<exists>svc \<in> set docs. \<exists>dep \<in> set docs. \<exists>sel pd. m_name svc = fst backend \<and>
        m_spec svc = ProxyService sel (snd backend) \<and> m_spec dep = ProxyDeployment pd \<and>
        sel \<noteq> [] \<and> set sel \<subseteq> set (pd_podLabels pd) \<and> pd_port pd = snd backend)"

lemma renders_proxy:
  assumes "renders sha r name gw docs"
  shows "proxy_behind docs (proxyName name, 4180)"
proof -
  have svc: "service_document r name \<in> set docs"
    using renders_part [OF assms, of "Inr [service_document r name]"] by (auto simp: install_parts_def)
  obtain ds where dep: "deployment_document sha r name = Inr ds" "set ds \<subseteq> set docs"
    using renders_part [OF assms, of "deployment_document sha r name"] by (auto simp: install_parts_def)
  then obtain d pd where "d \<in> set docs" "m_spec d = ProxyDeployment pd" "pd_port pd = 4180"
      "pd_podLabels pd = proxySelectorLabels name"
    by (auto simp: deployment_document_def Let_def)
  with svc show ?thesis
    unfolding proxy_behind_def
    by (intro bexI [of _ "service_document r name"] bexI [of _ d])
      (simp_all add: service_document_def proxySelectorLabels_def)
qed

lemma jwt_block_demands:
  "jwt_block_of e = Inr jb \<Longrightarrow> demands_groups (ex_groups e) (ex_issuer e) jb"
  by (auto simp: jwt_block_of_def demands_groups_def split: if_splits)

lemma renders_protected:
  assumes "renders sha r name gw docs" and "route \<in> set (routes_of (rt_exposure r))" and "rt_protected route"
  shows "\<exists>d \<in> set docs. \<exists>sp. m_spec d = SecurityPolicy sp \<and> sp_target sp = sec_target name route \<and>
     proxy_behind docs (sp_extAuth sp) \<and>
     (if rt_authenticatedOnly route then sp_jwt sp = None
      else \<exists>jb. sp_jwt sp = Some jb \<and>
        demands_groups (ex_groups (rt_exposure r)) (ex_issuer (rt_exposure r)) jb)"
proof -
  have check: "groups_check (rt_exposure r) = Inr ()" using assms(1) by (simp add: renders_def)
  obtain d sp where d: "route_policy r name route = Inr [d]" "m_spec d = SecurityPolicy sp"
      "sp_target sp = sec_target name route" "sp_extAuth sp = (proxyName name, 4180)"
      "sp_jwt sp = (if rt_authenticatedOnly route then None else Some (projr (jwt_block_of (rt_exposure r))))"
    using route_policy_rendered [OF check assms(2,3), of name] by metis
  have "d \<in> set docs"
    using renders_policy [OF assms(1), of d sp] assms(2) d(1,2) by (metis list.set_intros(1))
  moreover have "\<exists>jb. sp_jwt sp = Some jb \<and> demands_groups (ex_groups (rt_exposure r)) (ex_issuer (rt_exposure r)) jb"
    if "\<not> rt_authenticatedOnly route"
  proof -
    from check assms(2,3) that have "ex_groups (rt_exposure r) \<noteq> []" by (auto simp: groups_check_ok)
    then obtain jb where "jwt_block_of (rt_exposure r) = Inr jb" by (simp add: jwt_block_of_def)
    with d(5) that jwt_block_demands show ?thesis by auto
  qed
  ultimately show ?thesis
    using d renders_proxy [OF assms(1)] by (intro bexI [of _ d] exI [of _ sp]) auto
qed

section \<open>Secrets\<close>

text \<open>
  A Secret comes into being when the operator mints it for an OIDCApp, or when External Secrets
  fills it from a generator, which must be there.
\<close>

definition generator_of :: "manifest list \<Rightarrow> string \<Rightarrow> bool" where
  "generator_of docs g \<longleftrightarrow> (\<exists>d \<in> set docs. m_name d = g \<and> kind d = ''Password'')"

definition minted :: "manifest list \<Rightarrow> string \<Rightarrow> bool" where
  "minted docs secret \<longleftrightarrow>
     (\<exists>d \<in> set docs. (case m_spec d of
        OIDCApp a \<Rightarrow> oa_secretRef a = secret
      | ExternalSecret target g \<Rightarrow> target = secret \<and> generator_of docs g
      | _ \<Rightarrow> False))"

abbreviation password_document :: "root \<Rightarrow> string \<Rightarrow> manifest" where
  "password_document r name \<equiv> owned r name ''5'' (cookieName (rt_exposure r) name) (Password 32 0)"

abbreviation cookie_document :: "root \<Rightarrow> string \<Rightarrow> manifest" where
  "cookie_document r name \<equiv> owned r name ''5'' (cookieName (rt_exposure r) name)
     (ExternalSecret (cookieName (rt_exposure r) name) (cookieName (rt_exposure r) name))"

lemma renders_kinds:
  assumes "renders sha r name gw docs" and "d \<in> set docs"
  shows "(kind d = ''Password'' \<longleftrightarrow> ex_sessionStore_url (rt_exposure r) = [] \<and> d = password_document r name) \<and>
     (kind d = ''ExternalSecret'' \<longleftrightarrow> ex_cookie_existingSecret (rt_exposure r) = [] \<and> d = cookie_document r name) \<and>
     (kind d = ''OIDCApp'' \<longrightarrow> (\<exists>ds. oidc_document r name = Inr ds \<and> d \<in> set ds)) \<and>
     (kind d = ''Deployment'' \<longrightarrow> (\<exists>ds. deployment_document sha r name = Inr ds \<and> d \<in> set ds))"
proof -
  obtain ds where ds: "Inr ds \<in> set (install_parts sha r name gw)" and d: "d \<in> set ds"
    using renders_mem [OF assms] .
  from ds show ?thesis
  proof (cases rule: install_parts_cases)
    case oidc
    with documents_kinds(1) [OF oidc d] d show ?thesis by (auto simp: owned_def)
  next
    case store
    with d show ?thesis by (auto simp: store_documents_def owned_def Let_def split: if_splits)
  next
    case cookie
    with d show ?thesis by (auto simp: cookie_documents_def owned_def Let_def split: if_splits)
  next
    case service
    with d show ?thesis by (auto simp: service_document_def owned_def)
  next
    case deployment
    with documents_kinds(5) [OF deployment d] d show ?thesis by (auto simp: owned_def)
  next
    case config
    with documents_kinds(6) [OF config d] d show ?thesis by (auto simp: owned_def)
  next
    case proxy
    with documents_kinds(7) [OF proxy d] d show ?thesis by (auto simp: owned_def)
  next
    case (route route)
    with d have "kind d = ''HTTPRoute'' \<or> kind d = ''SecurityPolicy''"
      unfolding route_documents_ok using route_kinds by fastforce
    then show ?thesis by (auto simp: owned_def)
  next
    case network
    with documents_kinds(8) d have "kind d = ''NetworkPolicy''" by blast
    then show ?thesis by (auto simp: owned_def)
  qed
qed

lemmas renders_kind =
  renders_kinds [THEN conjunct1]
  renders_kinds [THEN conjunct2, THEN conjunct1]
  renders_kinds [THEN conjunct2, THEN conjunct2, THEN conjunct1, THEN mp]
  renders_kinds [THEN conjunct2, THEN conjunct2, THEN conjunct2, THEN mp]

lemma renders_generator:
  assumes "renders sha r name gw docs"
  shows "generator_of docs g \<longleftrightarrow> ex_sessionStore_url (rt_exposure r) = [] \<and> g = cookieName (rt_exposure r) name"
proof
  assume "generator_of docs g"
  then show "ex_sessionStore_url (rt_exposure r) = [] \<and> g = cookieName (rt_exposure r) name"
    unfolding generator_of_def using renders_kind(1) [OF assms] by (auto simp: owned_def)
next
  assume g: "ex_sessionStore_url (rt_exposure r) = [] \<and> g = cookieName (rt_exposure r) name"
  obtain ds where ds: "store_documents r name = Inr ds" "set ds \<subseteq> set docs"
    using renders_part [OF assms, of "store_documents r name"] by (auto simp: install_parts_def)
  with g have "password_document r name \<in> set docs"
    by (auto simp: store_documents_def Let_def)
  with g show "generator_of docs g"
    unfolding generator_of_def by (intro bexI) (auto simp: owned_def)
qed

lemma renders_minted_cookie:
  assumes "renders sha r name gw docs" and "ex_cookie_existingSecret (rt_exposure r) = []"
  shows "minted docs (cookieName (rt_exposure r) name) \<longleftrightarrow> ex_sessionStore_url (rt_exposure r) = []"
proof
  assume "minted docs (cookieName (rt_exposure r) name)"
  then obtain d where d: "d \<in> set docs" and c: "case m_spec d of
      OIDCApp a \<Rightarrow> oa_secretRef a = cookieName (rt_exposure r) name
    | ExternalSecret target g \<Rightarrow> target = cookieName (rt_exposure r) name \<and> generator_of docs g | _ \<Rightarrow> False"
    unfolding minted_def by blast
  show "ex_sessionStore_url (rt_exposure r) = []"
  proof (cases "m_spec d")
    case (OIDCApp a)
    with renders_kind(3) [OF assms(1) d] obtain ds where "oidc_document r name = Inr ds" "d \<in> set ds" by auto
    with OIDCApp have "oa_secretRef a = name @ ''-oidc-client''"
      by (auto simp: oidc_document_def oidcSecretName_def owned_def Let_def split: if_splits)
    with OIDCApp c assms(2) show ?thesis by (simp add: cookieName_def)
  qed (use c renders_generator [OF assms(1)] in auto)
next
  assume url: "ex_sessionStore_url (rt_exposure r) = []"
  have "cookie_document r name \<in> set docs"
    using renders_part [OF assms(1), of "Inr (cookie_documents r name)"] assms(2)
    by (auto simp: install_parts_def cookie_documents_def Let_def)
  with url renders_generator [OF assms(1)] show "minted docs (cookieName (rt_exposure r) name)"
    unfolding minted_def by (intro bexI) (auto simp: owned_def)
qed

lemma renders_minted_client:
  assumes "renders sha r name gw docs" and "oidcSecretName (rt_exposure r) name = Inr secret"
  shows "minted docs secret \<or> secret = id_existingSecret (ex_identity (rt_exposure r)) \<and> secret \<noteq> []"
proof (cases "jwtProviderName (rt_exposure r) = ''static''")
  case True
  with assms(2) show ?thesis by (auto simp: oidcSecretName_def jwtProviderName_def)
next
  case False
  obtain ds where ds: "oidc_document r name = Inr ds" "set ds \<subseteq> set docs"
    using renders_part [OF assms(1), of "oidc_document r name"] by (auto simp: install_parts_def)
  with False assms(2) obtain d a where "d \<in> set docs" "m_spec d = OIDCApp a" "oa_secretRef a = secret"
    by (auto simp: oidc_document_def jwtProviderName_def owned_def Let_def split: if_splits)
  then have "minted docs secret" unfolding minted_def by (intro bexI) auto
  then show ?thesis ..
qed

section \<open>When a rendering succeeds\<close>

text \<open>What the values of an enabled exposure must hold.\<close>

definition scopes_ok :: "exposure_values \<Rightarrow> bool" where
  "scopes_ok e \<longleftrightarrow> id_scopes (ex_identity e) = [] \<or> ex_session_refresh e = [] \<or>
     sprig_contains ''offline_access'' (id_scopes (ex_identity e))"

definition identity_ok :: "exposure_values \<Rightarrow> bool" where
  "identity_ok e \<longleftrightarrow>
     (let i = ex_identity e in
      if id_mode i = ''static'' then id_existingSecret i \<noteq> []
      else if id_cluster i then id_projectId i \<noteq> [] else id_ref i \<noteq> [])"

definition store_ok :: "exposure_values \<Rightarrow> bool" where
  "store_ok e \<longleftrightarrow> ex_sessionStore_url e \<noteq> [] \<or> \<not> vk_persistence (ex_valkey e) \<or> vk_size (ex_valkey e) \<noteq> []"

definition gateway_ok :: "exposure_values \<Rightarrow> bool" where
  "gateway_ok e \<longleftrightarrow>
     (case ex_gateway e of None \<Rightarrow> False
      | Some gw \<Rightarrow> gw_name gw \<noteq> [] \<and> gw_namespace gw \<noteq> [] \<and> gw_sectionName gw \<noteq> [])"

definition route_ok :: "exposure_values \<Rightarrow> chart_route \<Rightarrow> bool" where
  "route_ok e route \<longleftrightarrow> rt_name route \<noteq> [] \<and>
     (rt_protected route \<and> \<not> rt_authenticatedOnly route \<longrightarrow> ex_groups e \<noteq> []) \<and>
     (rt_targetRouteName route \<noteq> [] \<or>
      (case (if rt_backend route \<noteq> None then rt_backend route else ex_backend e) of
         None \<Rightarrow> False | Some b \<Rightarrow> be_name b \<noteq> [] \<and> be_port b \<noteq> None))"

definition well_configured :: "root \<Rightarrow> bool" where
  "well_configured r \<longleftrightarrow>
     (let e = rt_exposure r in
      name_matches (sprig_default (rel_Name r) (ex_name e)) \<and> ex_hostname e \<noteq> [] \<and> ex_issuer e \<noteq> [] \<and>
      gateway_ok e \<and> identity_ok e \<and> store_ok e \<and> scopes_ok e \<and>
      ex_image_repository e \<noteq> [] \<and> ex_image_tag e \<noteq> [] \<and> (\<forall>route \<in> set (routes_of e). route_ok e route))"

abbreviation succeeds :: "('e, 'a) result \<Rightarrow> bool" where
  "succeeds x \<equiv> \<exists>y. x = Inr y"

lemma oidcSecretName_succeeds:
  "succeeds (oidcSecretName e name) \<longleftrightarrow>
     id_mode (ex_identity e) \<noteq> ''static'' \<or> id_existingSecret (ex_identity e) \<noteq> []"
  by (auto simp: oidcSecretName_def sprig_default_def)

lemma parts_succeed:
  "succeeds (oidc_document r name) \<and> succeeds (oidcSecretName (rt_exposure r) name) \<longleftrightarrow> identity_ok (rt_exposure r)"
  "succeeds (store_documents r name) \<longleftrightarrow> store_ok (rt_exposure r)"
  "succeeds (proxy_route r name gw) \<longleftrightarrow> gw_name gw \<noteq> [] \<and> gw_namespace gw \<noteq> [] \<and> gw_sectionName gw \<noteq> []"
  by (auto simp: oidc_document_def identity_ok_def oidcSecretName_def store_documents_def store_ok_def
      proxy_route_def sprig_default_def Let_def)

lemma cfg_succeeds:
  assumes "chart_name r = Inr name" and "ex_hostname (rt_exposure r) \<noteq> []" and "ex_issuer (rt_exposure r) \<noteq> []"
  shows "succeeds (oauth2ProxyCfg r) \<longleftrightarrow> scopes_ok (rt_exposure r)"
proof -
  have "succeeds (cfg_scopes (rt_exposure r)) \<longleftrightarrow> scopes_ok (rt_exposure r)"
    by (auto simp: cfg_scopes_def scopes_ok_def Let_def)
  with assms show ?thesis
    by (auto simp: oauth2ProxyCfg_def Let_def required_def)
qed

lemma deployment_succeeds:
  "succeeds (deployment_document sha r name) \<longleftrightarrow>
     succeeds (oauth2ProxyCfg r) \<and> ex_image_repository (rt_exposure r) \<noteq> [] \<and> ex_image_tag (rt_exposure r) \<noteq> [] \<and>
     succeeds (oidcSecretName (rt_exposure r) name)"
  by (auto simp: deployment_document_def Let_def)

lemma route_succeeds:
  "succeeds (route_documents r name gw route) \<and>
     (rt_protected route \<and> \<not> rt_authenticatedOnly route \<longrightarrow> ex_groups (rt_exposure r) \<noteq> []) \<longleftrightarrow>
   route_ok (rt_exposure r) route"
proof -
  have "succeeds (route_policy r name route) \<longleftrightarrow>
      (rt_protected route \<and> \<not> rt_authenticatedOnly route \<longrightarrow> ex_groups (rt_exposure r) \<noteq> [])"
    by (auto simp: route_policy_def jwt_block_of_def Let_def)
  moreover have "succeeds (app_route r name gw route) \<longleftrightarrow> rt_targetRouteName route \<noteq> [] \<or>
      (case (if rt_backend route \<noteq> None then rt_backend route else ex_backend (rt_exposure r)) of
         None \<Rightarrow> False | Some b \<Rightarrow> be_name b \<noteq> [] \<and> be_port b \<noteq> None)"
    by (auto simp: app_route_def Let_def split: option.splits)
  ultimately show ?thesis
    unfolding route_documents_ok route_ok_def by blast
qed

lemma exposure_succeeds:
  assumes "ex_enabled (rt_exposure r)"
  shows "succeeds (exposure sha r) \<longleftrightarrow> well_configured r"
proof (cases "\<exists>name gw. chart_name r = Inr name \<and> ex_gateway (rt_exposure r) = Some gw \<and>
    ex_hostname (rt_exposure r) \<noteq> [] \<and> ex_issuer (rt_exposure r) \<noteq> []")
  case False
  then have "\<not> succeeds (exposure sha r)"
    unfolding exposure_ok_iff [OF assms] by blast
  moreover from False have "\<not> well_configured r"
    by (auto simp: well_configured_def gateway_ok_def chart_name_def Let_def split: option.splits)
  ultimately show ?thesis by blast
next
  case True
  then obtain name gw where name: "chart_name r = Inr name" and gw: "ex_gateway (rt_exposure r) = Some gw"
    and host: "ex_hostname (rt_exposure r) \<noteq> []" "ex_issuer (rt_exposure r) \<noteq> []" by blast
  have "succeeds (exposure sha r) \<longleftrightarrow>
      groups_check (rt_exposure r) = Inr () \<and> (\<forall>part \<in> set (install_parts sha r name gw). succeeds part)"
    unfolding exposure_ok_iff [OF assms] render_all_total [symmetric] using name gw host by auto
  also have "\<dots> \<longleftrightarrow> identity_ok (rt_exposure r) \<and> store_ok (rt_exposure r) \<and> scopes_ok (rt_exposure r) \<and>
      ex_image_repository (rt_exposure r) \<noteq> [] \<and> ex_image_tag (rt_exposure r) \<noteq> [] \<and>
      gw_name gw \<noteq> [] \<and> gw_namespace gw \<noteq> [] \<and> gw_sectionName gw \<noteq> [] \<and>
      (\<forall>route \<in> set (routes_of (rt_exposure r)). route_ok (rt_exposure r) route)"
  proof -
    have config: "succeeds (config_document r name) \<longleftrightarrow> succeeds (oauth2ProxyCfg r)"
      by (auto simp: config_document_def)
    show ?thesis
      unfolding install_parts_def groups_check_ok parts_succeed(1) [symmetric, where name = name]
        route_succeeds [symmetric, where name = name and gw = gw] cfg_succeeds [OF name host, symmetric]
      by (simp add: parts_succeed(2,3) deployment_succeeds config) blast
  qed
  also have "\<dots> \<longleftrightarrow> well_configured r"
    using name gw host by (auto simp: well_configured_def gateway_ok_def chart_name_def Let_def split: if_splits)
  finally show ?thesis .
qed

section \<open>The properties\<close>

text \<open>C24: in a rendered exposure the HTTPRoutes a SecurityPolicy guards are exactly those of the
  protected entries; each such policy asks an oauth2-proxy that is rendered and selected by its
  service, and unless the entry is \<open>authenticatedOnly\<close> denies by default and admits only tokens of
  the issuer, checked by a provider the same policy declares, whose groups are on the configured
  non-empty list.\<close>

theorem chart_protected_routes:
  assumes "ex_enabled (rt_exposure r)" and "exposure sha r = Inr docs"
  shows "\<exists>name. chart_name r = Inr name \<and>
     (\<forall>t. (\<exists>d \<in> set docs. \<exists>sp. m_spec d = SecurityPolicy sp \<and> sp_target sp = t) \<longleftrightarrow>
        (\<exists>route \<in> set (routes_of (rt_exposure r)). rt_protected route \<and> sec_target name route = t)) \<and>
     (\<forall>route \<in> set (routes_of (rt_exposure r)). rt_protected route \<longrightarrow>
        (\<exists>d \<in> set docs. \<exists>sp. m_spec d = SecurityPolicy sp \<and> sp_target sp = sec_target name route \<and>
           proxy_behind docs (sp_extAuth sp) \<and>
           (if rt_authenticatedOnly route then sp_jwt sp = None
            else \<exists>jb. sp_jwt sp = Some jb \<and>
              demands_groups (ex_groups (rt_exposure r)) (ex_issuer (rt_exposure r)) jb)))"
proof -
  obtain name gw where ren: "renders sha r name gw docs" using exposure_renders [OF assms] .
  then have "chart_name r = Inr name" by (simp add: renders_def)
  with renders_targets [OF ren] renders_protected [OF ren] show ?thesis by blast
qed

text \<open>C26: the client secret of a rendered proxy is minted for the rendered OIDCApp or the caller's own,
  but its cookie secret comes into being only when the install keeps its own session store or the
  caller supplies the secret: with a shared store and no shared secret the generator is missing.\<close>

theorem chart_secrets:
  assumes "ex_enabled (rt_exposure r)" and "exposure sha r = Inr docs"
    and "d \<in> set docs" and "m_spec d = ProxyDeployment pd"
  shows "(minted docs (pd_clientSecret pd) \<or>
      pd_clientSecret pd = id_existingSecret (ex_identity (rt_exposure r)) \<and> pd_clientSecret pd \<noteq> []) \<and>
     (minted docs (pd_cookieSecret pd) \<or> pd_cookieSecret pd = ex_cookie_existingSecret (rt_exposure r) \<longleftrightarrow>
      ex_sessionStore_url (rt_exposure r) = [] \<or> ex_cookie_existingSecret (rt_exposure r) \<noteq> [])"
proof -
  obtain name gw where ren: "renders sha r name gw docs" using exposure_renders [OF assms(1,2)] .
  from renders_kind(4) [OF ren assms(3)] assms(4)
  obtain ds where "deployment_document sha r name = Inr ds" "d \<in> set ds" by auto
  with assms(4) have client: "oidcSecretName (rt_exposure r) name = Inr (pd_clientSecret pd)"
      and cookie: "pd_cookieSecret pd = cookieName (rt_exposure r) name"
    by (auto simp: deployment_document_def Let_def)
  have "minted docs (pd_cookieSecret pd) \<or> pd_cookieSecret pd = ex_cookie_existingSecret (rt_exposure r) \<longleftrightarrow>
      ex_sessionStore_url (rt_exposure r) = [] \<or> ex_cookie_existingSecret (rt_exposure r) \<noteq> []"
    using renders_minted_cookie [OF ren] cookie
    by (cases "ex_cookie_existingSecret (rt_exposure r) = []") (auto simp: cookieName_def)
  with renders_minted_client [OF ren client] show ?thesis by blast
qed

text \<open>C28: a rendering fails exactly when the exposure is enabled and its values are incomplete: no
  legal name, hostname, issuer or listener, no identity of its mode, no groups for a route that needs
  them, no backend for a route it owns, or hand-written scopes without \<open>offline_access\<close> while refresh
  is on.\<close>

theorem chart_fails_iff:
  "(\<exists>err. exposure sha r = Inl err) \<longleftrightarrow> ex_enabled (rt_exposure r) \<and> \<not> well_configured r"
proof (cases "ex_enabled (rt_exposure r)")
  case True
  with exposure_succeeds [of r sha] show ?thesis by (cases "exposure sha r") auto
qed (simp add: exposure_def Let_def)

text \<open>The labels of the proxy's service and deployment name two keys twice.\<close>

lemma proxy_labels_duplicate: "\<not> distinct (map fst (m_labels (service_document r name)))"
  by (simp add: service_document_def chart_labels_def proxySelectorLabels_def)

text \<open>The names of the services an install depends on are legal, whatever its own name.\<close>

lemma chart_service_names:
  assumes "ex_enabled (rt_exposure r)" and "exposure sha r = Inr docs" and "d \<in> set docs"
    and "m_spec d = ProxyService sel port"
  shows "\<exists>name. chart_name r = Inr name \<and> m_name d = proxyName name \<and> dns_label (m_name d) \<and> dns_label (valkeyHost name)"
proof -
  obtain name gw where ren: "renders sha r name gw docs" using exposure_renders [OF assms(1,2)] .
  then have name: "chart_name r = Inr name" "name_matches name"
    by (auto simp: renders_def chart_name_def Let_def split: if_splits)
  obtain ds where "Inr ds \<in> set (install_parts sha r name gw)" "d \<in> set ds" using renders_mem [OF ren assms(3)] .
  moreover have "kind d = ''Service''" by (simp add: assms(4))
  ultimately have "d = service_document r name"
    by (cases rule: install_parts_cases) (use documents_kinds route_kinds route_documents_ok in fastforce)+
  with name derived_names_labels [OF name(2)] show ?thesis by (simp add: service_document_def)
qed

end
