(* ===== verification/Chart_Gateway.thy ===== *)
theory Chart_Gateway
  imports Chart_Facts Ts_Identity Verify Sign_Out
begin

text \<open>
  The chart and the Go package together: what a service behind a rendered exposure reads through the
  headers the policy copies onto its requests, and where the package's sign-out link leads.
\<close>

section \<open>Policies and routes, written out\<close>

lemma renders_policy_headers:
  assumes "renders sha r name gw docs" and "d \<in> set docs" and "m_spec d = SecurityPolicy sp"
  shows "sp_headersToBackend sp =
     [''x-auth-request-access-token'', ''x-auth-request-user'', ''x-auth-request-email'', ''x-auth-request-groups''] @
     (if ex_passAuthorizationHeader (rt_exposure r) then [''authorization''] else [])"
proof -
  from renders_policy [OF assms(1)] assms(2,3) obtain route ds where
    "route_policy r name route = Inr ds" "d \<in> set ds" by blast
  with assms(3) show ?thesis by (auto simp: route_policy_def owned_def Let_def split: if_splits)
qed

lemma renders_proxy_route:
  assumes "renders sha r name gw docs"
  obtains d h where "d \<in> set docs" and "m_spec d = HTTPRoute h" and "m_name d = name @ ''-proxy''"
    and "hr_hostname h = ex_hostname (rt_exposure r)" and "hr_pathType h = ''PathPrefix''"
    and "hr_path h = proxy_prefix (rt_exposure r) @ ''/''" and "hr_backend h = (proxyName name, Some 4180)"
proof -
  obtain ds where "proxy_route r name gw = Inr ds" "set ds \<subseteq> set docs"
    using renders_part [OF assms, of "proxy_route r name gw"] by (auto simp: install_parts_def)
  with that show thesis by (auto simp: proxy_route_def owned_def Let_def)
qed

section \<open>Headers\<close>

text \<open>
  What reaches a service is made by the gateway, a parameter: from the names the policy lists, the
  headers of the proxy's authorization response and those of the client's request. The template
  relies on two things: a listed header that the response carries is copied onto the request, in
  place of the client's, and no header is copied that is not listed.
\<close>

definition copies_listed :: "(string list \<Rightarrow> headers \<Rightarrow> headers \<Rightarrow> headers) \<Rightarrow> bool" where
  "copies_listed gw \<longleftrightarrow>
     (\<forall>names answer req name.
        (map to_lower name \<in> set names \<longrightarrow> answer name \<noteq> [] \<longrightarrow> gw names answer req name = answer name) \<and>
        (map to_lower name \<notin> set names \<longrightarrow> gw names answer req name = req name))"

lemma copied_names:
  assumes "copies_listed gw" and "names =
     [''x-auth-request-access-token'', ''x-auth-request-user'', ''x-auth-request-email'', ''x-auth-request-groups''] @
     (if p then [''authorization''] else [])"
  shows "name \<in> {HeaderAccessToken, HeaderUser, HeaderEmail, HeaderGroups} \<Longrightarrow> answer name \<noteq> [] \<Longrightarrow>
      gw names answer req name = answer name"
    and "p \<Longrightarrow> answer HeaderAuthorization \<noteq> [] \<Longrightarrow>
      gw names answer req HeaderAuthorization = answer HeaderAuthorization"
    and "\<not> p \<Longrightarrow> gw names answer req HeaderAuthorization = req HeaderAuthorization"
  using assms(1) unfolding copies_listed_def by (auto simp: assms(2) header_names_lower)

text \<open>The identity a service reads with a token of the configured groups is the one the gateway lets in.\<close>

lemma default_roles_claim:
  "RolesClaim (withDefaults \<lparr>NameClaim = [], EmailClaim = [], RolesClaim = []\<rparr>) = ''groups''"
  by (simp add: withDefaults_def)

text \<open>C25: behind a rendered policy the package reads what the proxy answered, whatever the client
  sent: of the four identity headers each that the response carries arrives as it is, so the default
  source finds the response's access token, and header trust the response's identity where all four
  are there; the Authorization header is the response's where the proxy is configured to set one, and
  otherwise untouched; and the header and claim the gateway checks itself are the package's own.\<close>

theorem chart_forwards:
  assumes "ex_enabled (rt_exposure r)" and "exposure sha r = Inr docs"
    and "d \<in> set docs" and "m_spec d = SecurityPolicy sp"
    and "copies_listed gw" and "h = gw (sp_headersToBackend sp) answer req"
  shows "(\<forall>name \<in> {HeaderAccessToken, HeaderUser, HeaderEmail, HeaderGroups}.
        answer name \<noteq> [] \<longrightarrow> h name = answer name) \<and>
     (trim_space (answer HeaderAccessToken) \<noteq> [] \<longrightarrow>
        source_token orbit DefaultSource h = Some (trim_space (answer HeaderAccessToken)) \<and>
        source_token orbit DefaultSource h = source_token orbit DefaultSource answer) \<and>
     ((\<forall>name \<in> {HeaderAccessToken, HeaderUser, HeaderEmail, HeaderGroups}. answer name \<noteq> []) \<longrightarrow>
        headerTrust_Authenticate h = headerTrust_Authenticate answer) \<and>
     (if ex_passAuthorizationHeader (rt_exposure r)
      then answer HeaderAuthorization \<noteq> [] \<longrightarrow> h HeaderAuthorization = answer HeaderAuthorization
      else h HeaderAuthorization = req HeaderAuthorization) \<and>
     (\<forall>cfg. oauth2ProxyCfg r = Inr cfg \<longrightarrow>
        map_of cfg ''set_authorization_header'' = Some (TBool (ex_passAuthorizationHeader (rt_exposure r)))) \<and>
     (\<forall>jb \<in> set_option (sp_jwt sp).
        (\<forall>p \<in> set (jb_providers jb). jp_extractFrom p = [HeaderAccessToken]) \<and>
        (\<forall>rule \<in> set (jb_rules jb).
           jr_claim rule = RolesClaim (withDefaults \<lparr>NameClaim = [], EmailClaim = [], RolesClaim = []\<rparr>)))"
proof -
  obtain name gateway where ren: "renders sha r name gateway docs" using exposure_renders [OF assms(1,2)] .
  note copied = copied_names [OF assms(5) renders_policy_headers [OF ren assms(3,4)],
      where answer = answer and req = req, folded assms(6)]
  have "answer HeaderAccessToken \<noteq> []" if "trim_space (answer HeaderAccessToken) \<noteq> []"
    using that by auto
  then have "trim_space (answer HeaderAccessToken) \<noteq> [] \<longrightarrow>
        source_token orbit DefaultSource h = Some (trim_space (answer HeaderAccessToken)) \<and>
        source_token orbit DefaultSource answer = Some (trim_space (answer HeaderAccessToken))"
    using copied(1) [of HeaderAccessToken] by (auto simp: DefaultSource_token)
  moreover have "(\<forall>name \<in> {HeaderAccessToken, HeaderUser, HeaderEmail, HeaderGroups}. answer name \<noteq> []) \<longrightarrow>
        headerTrust_Authenticate h = headerTrust_Authenticate answer"
    using copied(1) by (simp add: headerTrust_Authenticate_def Let_def)
  moreover have "map_of cfg ''set_authorization_header'' = Some (TBool (ex_passAuthorizationHeader (rt_exposure r)))"
    if "oauth2ProxyCfg r = Inr cfg" for cfg
    using that by (auto simp: oauth2ProxyCfg_def Let_def)
  moreover have "(\<forall>p \<in> set (jb_providers jb). jp_extractFrom p = [HeaderAccessToken]) \<and>
      (\<forall>rule \<in> set (jb_rules jb). jr_claim rule = ''groups'')" if "sp_jwt sp = Some jb" for jb
  proof -
    from renders_policy [OF ren] assms(3,4) obtain route ds where
      "route_policy r name route = Inr ds" "d \<in> set ds" by blast
    with assms(4) that have "jwt_block_of (rt_exposure r) = Inr jb"
      by (auto simp: route_policy_def owned_def Let_def split: if_splits)
    then show ?thesis by (auto simp: jwt_block_of_def HeaderAccessToken_def split: if_splits)
  qed
  ultimately show ?thesis
    using copied by (simp add: default_roles_claim)
qed

section \<open>Signing out\<close>

text \<open>The prefix defaults alike on both sides.\<close>

lemma SignOutURL_default: "SignOutURL (proxy_prefix e) rd = SignOutURL (ex_proxyPrefix e) rd"
  by (simp add: SignOutURL_def proxy_prefix_def sprig_default_def has_prefix_def)

lemma proxy_prefix_nonempty: "proxy_prefix e \<noteq> []"
  by (simp add: proxy_prefix_def sprig_default_def)

text \<open>The link lies under the path with its slash only if the prefix needs no normalising.\<close>

lemma SignOutURL_under:
  assumes "p \<noteq> []"
  shows "has_prefix (SignOutURL p rd) (p @ ''/'') \<longleftrightarrow> hd p = CHR ''/'' \<and> last p \<noteq> CHR ''/''"
proof (cases "hd p = CHR ''/''")
  case False
  then show ?thesis
    using assms SignOutURL_rooted [of p rd] by (cases p) (auto simp: has_prefix_iff)
next
  case rooted: True
  then have "has_prefix p ''/''" using assms by (cases p) (auto simp: has_prefix_def)
  then obtain rest where link: "SignOutURL p rd = trim_right_bytes p ''/'' @ ''/sign_out'' @ rest"
    using assms that by (cases "rd = []") (auto simp: SignOutURL_def Let_def)
  obtain w where p: "p = trim_right_bytes p ''/'' @ w" and w: "set w \<subseteq> {CHR ''/''}"
    using trim_right_bytes_split [of p "''/''"] by auto
  show ?thesis
  proof (cases "last p = CHR ''/''")
    case False
    with p w have "w = []" by (metis last_appendR last_in_set singletonD subsetD)
    with p have "SignOutURL p rd = p @ ''/sign_out'' @ rest" by (simp add: link)
    with False rooted show ?thesis by (simp add: has_prefix_def)
  next
    case True
    have "w \<noteq> []" using True p assms trim_right_bytes_last [of p "''/''"] by force
    with w obtain u where "w = CHR ''/'' # u" "set u \<subseteq> {CHR ''/''}" by (cases w) auto
    then have "\<not> has_prefix (''/sign_out'' @ rest) (w @ ''/'')" by (cases u) (auto simp: has_prefix_def)
    moreover have "has_prefix (q @ a) (q @ b) = has_prefix a b" for q a b :: string
      by (simp add: has_prefix_iff)
    from this [of "trim_right_bytes p ''/''" "''/sign_out'' @ rest" "w @ ''/''"]
    have "has_prefix (SignOutURL p rd) (p @ ''/'') = has_prefix (''/sign_out'' @ rest) (w @ ''/'')"
      unfolding link append_assoc [symmetric] p [symmetric] by simp
    ultimately have "\<not> has_prefix (SignOutURL p rd) (p @ ''/'')" by simp
    with True show ?thesis by simp
  qed
qed

text \<open>C27: the rendered exposure routes its prefix with a slash to its proxy, and the package's sign-out
  link, made with the same prefix, lies under that path exactly if the prefix starts with a slash and
  does not end in one: any other prefix, which nothing in the chart refuses, the package normalises and
  the chart does not. The redirect URL registered with the provider always lies under it. A policy
  guards that route, which the template says carries none, exactly when a protected entry is named
  \<open>proxy\<close> or attached to it.\<close>

theorem chart_signout_routed:
  assumes "ex_enabled (rt_exposure r)" and "exposure sha r = Inr docs"
  shows "\<exists>d \<in> set docs. \<exists>h backend. m_spec d = HTTPRoute h \<and> hr_pathType h = ''PathPrefix'' \<and>
     hr_path h = proxy_prefix (rt_exposure r) @ ''/'' \<and>
     (has_prefix (SignOutURL (ex_proxyPrefix (rt_exposure r)) rd) (hr_path h) \<longleftrightarrow>
        hd (proxy_prefix (rt_exposure r)) = CHR ''/'' \<and> last (proxy_prefix (rt_exposure r)) \<noteq> CHR ''/'') \<and>
     hr_backend h = (fst backend, Some (snd backend)) \<and> proxy_behind docs backend \<and>
     (\<forall>a \<in> set docs. \<forall>app uri. m_spec a = OIDCApp app \<and> uri \<in> set (oa_redirectUris app) \<longrightarrow>
        has_prefix uri (''https://'' @ hr_hostname h @ hr_path h)) \<and>
     ((\<exists>q \<in> set docs. \<exists>sp. m_spec q = SecurityPolicy sp \<and> sp_target sp = m_name d) \<longleftrightarrow>
      (\<exists>route \<in> set (routes_of (rt_exposure r)). rt_protected route \<and>
         (rt_targetRouteName route = m_name d \<or> rt_targetRouteName route = [] \<and> rt_name route = ''proxy'')))"
proof -
  obtain name gw where ren: "renders sha r name gw docs" using exposure_renders [OF assms(1,2)] .
  obtain d h where d: "d \<in> set docs" "m_spec d = HTTPRoute h" and own: "m_name d = name @ ''-proxy''"
    and h: "hr_hostname h = ex_hostname (rt_exposure r)" "hr_pathType h = ''PathPrefix''"
      "hr_path h = proxy_prefix (rt_exposure r) @ ''/''" "hr_backend h = (proxyName name, Some 4180)"
    using renders_proxy_route [OF ren] by metis
  have out: "has_prefix (SignOutURL (ex_proxyPrefix (rt_exposure r)) rd) (hr_path h) \<longleftrightarrow>
      hd (proxy_prefix (rt_exposure r)) = CHR ''/'' \<and> last (proxy_prefix (rt_exposure r)) \<noteq> CHR ''/''"
    unfolding h(3) SignOutURL_default [symmetric] by (rule SignOutURL_under [OF proxy_prefix_nonempty])
  have uris: "has_prefix uri (''https://'' @ hr_hostname h @ hr_path h)"
    if "a \<in> set docs" "m_spec a = OIDCApp app" "uri \<in> set (oa_redirectUris app)" for a app uri
  proof -
    from renders_kind(3) [OF ren that(1)] that(2) obtain ds where "oidc_document r name = Inr ds" "a \<in> set ds" by auto
    with that(2,3) have "uri = ''https://'' @ ex_hostname (rt_exposure r) @ proxy_prefix (rt_exposure r) @ ''/callback''"
      by (auto simp: oidc_document_def owned_def Let_def split: if_splits)
    then show ?thesis by (simp add: h has_prefix_def)
  qed
  have "sec_target name route = m_name d \<longleftrightarrow>
      rt_targetRouteName route = m_name d \<or> rt_targetRouteName route = [] \<and> rt_name route = ''proxy''" for route
    by (auto simp: sec_target_def own)
  with renders_targets [OF ren, of "m_name d"] show ?thesis
    using d h out uris renders_proxy [OF ren]
    by (intro bexI [of _ d] exI [of _ h] exI [of _ "(proxyName name, 4180)"]) auto
qed

end
