(* ===== verification/Chart_Examples.thy ===== *)
theory Chart_Examples
  imports Chart_Gateway
begin

text \<open>
  Installs of the chart: \<open>values.yaml\<close> with the required values filled in, the same with a shared
  session store, and one whose route takes the name of the proxy's own.
\<close>

section \<open>An install\<close>

definition example_route :: "string \<Rightarrow> chart_route" where
  "example_route name = \<lparr>rt_name = name, rt_path = ''/'', rt_pathType = [], rt_protected = True,
     rt_authenticatedOnly = False, rt_targetRouteName = [], rt_backend = None\<rparr>"

definition example_exposure :: exposure_values where
  "example_exposure =
     \<lparr>ex_enabled = True, ex_name = [], ex_hostname = ''app.example'', ex_issuer = ''https://i'',
      ex_proxyPrefix = ''/oauth2'', ex_dnsDomain = ''cluster.local'', ex_cookieDomains = [],
      ex_passAuthorizationHeader = False,
      ex_gateway = Some \<lparr>gw_name = ''public'', gw_namespace = ''gateways'', gw_sectionName = ''https''\<rparr>,
      ex_identity = \<lparr>id_mode = ''zitadel'', id_existingSecret = [], id_jwksUri = [], id_scopes = [],
        id_cluster = True, id_ref = [], id_projectId = ''42'', id_appName = []\<rparr>,
      ex_routes = [example_route ''app''], ex_cookie_existingSecret = [], ex_sessionStore_url = [],
      ex_session_expire = ''11h'', ex_session_refresh = [], ex_groups = [''op''],
      ex_backend = Some \<lparr>be_name = ''web'', be_port = Some 80\<rparr>,
      ex_image_repository = ''quay.io/oauth2-proxy/oauth2-proxy'', ex_image_tag = ''v7.15.4'', ex_replicas = 2,
      ex_resources = YMap [], ex_nodeSelector = YMap [], ex_tolerations = YList [], ex_topologySpreadConstraints = YList [],
      ex_valkey = \<lparr>vk_shards = 1, vk_replicas = 0, vk_image = [], vk_persistence = False, vk_size = ''1Gi'',
        vk_storageClassName = [], vk_reclaimPolicy = ''Delete'',
        vk_resources = YMap [], vk_config = YMap [], vk_users = YList [], vk_exporter = False\<rparr>,
      ex_networkPolicy = \<lparr>np_enabled = True, np_port = 4180, np_fleetNamespace = ''envoy-gateway-system'',
        np_valkeyOperatorNamespace = ''valkey-operator-system''\<rparr>\<rparr>"

definition example_install :: "exposure_values \<Rightarrow> root" where
  "example_install e = \<lparr>rt_exposure = e, rt_clusterName = ''devel'', rt_commonAnnotations = [], rt_podAnnotations = [],
     rel_Name = ''console'', rel_Namespace = ''apps'', rel_Service = ''Helm'',
     chart_Name = ''gateway-auth'', chart_Version = ''0.4.2''\<rparr>"

lemma example_well_configured:
  "well_configured (example_install (example_exposure\<lparr>ex_sessionStore_url := url, ex_routes := [example_route name]\<rparr>))
     \<longleftrightarrow> name \<noteq> []"
  by (simp add: well_configured_def example_install_def example_exposure_def example_route_def Let_def
      gateway_ok_def identity_ok_def store_ok_def scopes_ok_def route_ok_def routes_of_def sprig_default_def
      name_matches_def lower_alnum_def label_char_def)

lemma example_renders:
  assumes "name \<noteq> []"
  obtains docs where "exposure sha (example_install
      (example_exposure\<lparr>ex_sessionStore_url := url, ex_routes := [example_route name]\<rparr>)) = Inr docs"
  using exposure_succeeds [of "example_install
      (example_exposure\<lparr>ex_sessionStore_url := url, ex_routes := [example_route name]\<rparr>)" sha]
    example_well_configured assms
  by (auto simp: example_install_def example_exposure_def)

section \<open>The properties on it\<close>

abbreviation example_root :: "string \<Rightarrow> string \<Rightarrow> root" where
  "example_root url name \<equiv> example_install
     (example_exposure\<lparr>ex_sessionStore_url := url, ex_routes := [example_route name]\<rparr>)"

lemma example_enabled [simp]: "ex_enabled (rt_exposure (example_root url name))"
  by (simp add: example_install_def example_exposure_def)

lemma example_routes: "routes_of (rt_exposure (example_root url name)) = [example_route name]"
  by (simp add: routes_of_def example_install_def)

theorem chart_protected_routes_witness:
  "\<exists>docs. exposure (\<lambda>_. []) (example_root [] ''app'') = Inr docs \<and>
     (\<exists>d \<in> set docs. \<exists>sp. m_spec d = SecurityPolicy sp)"
proof -
  obtain docs where ok: "exposure (\<lambda>_. []) (example_root [] ''app'') = Inr docs"
    by (rule example_renders [of "''app''"]) simp_all
  have "\<exists>d \<in> set docs. \<exists>sp. m_spec d = SecurityPolicy sp"
    using chart_protected_routes [OF example_enabled ok]
    unfolding example_routes by (auto simp: example_route_def)
  with ok show ?thesis by blast
qed

text \<open>With a shared store and no shared cookie secret, the proxy's cookie secret never comes into being.\<close>

theorem chart_secrets_witness:
  "\<exists>docs. exposure (\<lambda>_. []) (example_root ''redis://shared'' ''app'') = Inr docs \<and>
     (\<exists>d \<in> set docs. \<exists>pd. m_spec d = ProxyDeployment pd \<and> minted docs (pd_clientSecret pd) \<and>
        \<not> minted docs (pd_cookieSecret pd))"
proof -
  let ?r = "example_root ''redis://shared'' ''app''"
  obtain docs where ok: "exposure (\<lambda>_. []) ?r = Inr docs"
    by (rule example_renders [of "''app''"]) simp_all
  obtain name gw where ren: "renders (\<lambda>_. []) ?r name gw docs" using exposure_renders [OF _ ok] by auto
  from renders_proxy [OF ren] obtain d pd where d: "d \<in> set docs" "m_spec d = ProxyDeployment pd"
    unfolding proxy_behind_def by blast
  have "ex_sessionStore_url (rt_exposure ?r) \<noteq> []" "ex_cookie_existingSecret (rt_exposure ?r) = []"
    "id_existingSecret (ex_identity (rt_exposure ?r)) = []"
    by (simp_all add: example_install_def example_exposure_def)
  with chart_secrets [OF _ ok d] ok d show ?thesis by fastforce
qed

text \<open>A gateway that copies, and leaves a listed header the response lacks to the client.\<close>

definition example_gateway :: "string list \<Rightarrow> headers \<Rightarrow> headers \<Rightarrow> headers" where
  "example_gateway names answer req name =
     (if map to_lower name \<in> set names \<and> answer name \<noteq> [] then answer name else req name)"

theorem chart_forwards_witness:
  "\<exists>docs d sp. exposure (\<lambda>_. []) (example_root [] ''app'') = Inr docs \<and> d \<in> set docs \<and>
     m_spec d = SecurityPolicy sp \<and>
     source_token (\<lambda>_ _. False) DefaultSource
       (example_gateway (sp_headersToBackend sp) (\<lambda>_. ''tok'') (\<lambda>_. ''forged'')) = Some ''tok''"
proof -
  obtain docs where ok: "exposure (\<lambda>_. []) (example_root [] ''app'') = Inr docs"
    by (rule example_renders [of "''app''"]) simp_all
  obtain name gw where ren: "renders (\<lambda>_. []) (example_root [] ''app'') name gw docs"
    using exposure_renders [OF _ ok] by auto
  have "example_route ''app'' \<in> set (routes_of (rt_exposure (example_root [] ''app'')))" "rt_protected (example_route ''app'')"
    by (simp_all add: example_routes) (simp add: example_route_def)
  from renders_protected [OF ren this] obtain d sp where d: "d \<in> set docs" "m_spec d = SecurityPolicy sp" by blast
  have "copies_listed example_gateway" by (simp add: copies_listed_def example_gateway_def)
  moreover have "trim_space ''tok'' = ''tok''" by (simp add: go_eval)
  ultimately have "source_token (\<lambda>_ _. False) DefaultSource
       (example_gateway (sp_headersToBackend sp) (\<lambda>_. ''tok'') (\<lambda>_. ''forged'')) = Some ''tok''"
    using chart_forwards [OF _ ok d _ refl, of example_gateway "\<lambda>_. ''tok''" "\<lambda>_. ''forged''" "\<lambda>_ _. False"]
    by simp
  then show ?thesis using ok d by blast
qed

theorem chart_signout_routed_witness:
  "\<exists>docs. exposure (\<lambda>_. []) (example_root [] ''app'') = Inr docs \<and>
     (\<exists>d \<in> set docs. \<exists>h. m_spec d = HTTPRoute h \<and> has_prefix (SignOutURL ''/oauth2'' ''/'') (hr_path h))"
proof -
  obtain docs where ok: "exposure (\<lambda>_. []) (example_root [] ''app'') = Inr docs"
    by (rule example_renders [of "''app''"]) simp_all
  have "ex_proxyPrefix (rt_exposure (example_root [] ''app'')) = ''/oauth2''"
    by (simp add: example_install_def example_exposure_def)
  moreover from this have "proxy_prefix (rt_exposure (example_root [] ''app'')) = ''/oauth2''"
    by (simp add: proxy_prefix_def sprig_default_def)
  ultimately show ?thesis using chart_signout_routed [OF _ ok, of "''/''"] ok by fastforce
qed

end
