(* ===== verification/React_Badge.thy ===== *)
theory React_Badge
  imports Ts_Adapters
begin

text \<open>
  \<open>ts/src/react/UserBadge.tsx\<close>: the header badge. A rendered component is a tree of elements; of the
  attributes those that carry data are kept, the styling is left out. A missing member is \<open>None\<close>.
\<close>

record badge_me =
  me_name :: "js_string option"
  me_email :: "js_string option"
  me_role :: "js_string option"

datatype element = Element string "(string \<times> js_string) list" "element list" | Text js_string

text \<open>\<open>x || y\<close> and \<open>x && ...\<close> on a string that may be missing.\<close>

definition js_text :: "js_string option \<Rightarrow> js_string" where
  "js_text x = (case x of Some s \<Rightarrow> s | None \<Rightarrow> [])"

definition badge_name :: "badge_me \<Rightarrow> js_string" where
  "badge_name me =
     (if js_text (me_name me) \<noteq> [] then js_text (me_name me)
      else if js_text (me_email me) \<noteq> [] then js_text (me_email me)
      else units ''signed in'')"

definition UserBadge ::
    "badge_me option \<Rightarrow> js_string option \<Rightarrow> js_string list option \<Rightarrow> element option" where
  "UserBadge me signOutHref emphasizeRoles =
     (let signOutHref = (case signOutHref of Some s \<Rightarrow> s | None \<Rightarrow> units ''/oauth2/sign_out'');
          emphasizeRoles = (case emphasizeRoles of Some rs \<Rightarrow> rs | None \<Rightarrow> [units ''operator'']) in
      case me of
        None \<Rightarrow> None
      | Some me \<Rightarrow> Some (Element ''Box'' []
          ([Element ''Box'' []
              ([Element ''Typography'' [(''variant'', units ''body2'')] [Text (badge_name me)]] @
               (if js_text (me_name me) \<noteq> [] \<and> js_text (me_email me) \<noteq> []
                then [Element ''Typography'' [(''variant'', units ''caption''), (''color'', units ''text.secondary'')]
                        [Text (js_text (me_email me))]]
                else []))] @
           (if js_text (me_role me) \<noteq> []
            then [Element ''Chip'' [(''label'', js_text (me_role me)), (''size'', units ''small''), (''variant'', units ''outlined''),
                    (''color'', if js_text (me_role me) \<in> set emphasizeRoles then units ''success'' else units ''default'')] []]
            else []) @
           [Element ''Button'' [(''href'', signOutHref), (''size'', units ''small''), (''variant'', units ''outlined''),
               (''title'', units ''Clear the session and sign out'')] [Text (units ''Sign out'')]])))"

fun texts :: "element \<Rightarrow> js_string list" where
  "texts (Text s) = [s]"
| "texts (Element _ _ es) = concat (map texts es)"

fun attributes :: "element \<Rightarrow> (string \<times> string \<times> js_string) list" where
  "attributes (Text s) = []"
| "attributes (Element tag as es) = map (\<lambda>(k, x). (tag, k, x)) as @ concat (map attributes es)"

text \<open>The badge shows a name for every caller, and the caller's email once.\<close>

lemma UserBadge_texts:
  "UserBadge (Some me) href roles = Some el \<Longrightarrow>
     texts el = badge_name me # (if js_text (me_name me) \<noteq> [] \<and> js_text (me_email me) \<noteq> []
       then [js_text (me_email me)] else []) @ [units ''Sign out'']"
  by (auto simp: UserBadge_def Let_def simp del: units_simps)

lemma badge_name_shown: "badge_name me \<noteq> []"
  by (simp add: badge_name_def)

text \<open>The default link is the one \<open>signOutUrl\<close> builds without a prefix, and a link given is kept.\<close>

lemma ts_signOutUrl_default: "ts_signOutUrl None None = Some (units ''/oauth2/sign_out'')"
  by code_simp

lemma UserBadge_href:
  assumes "UserBadge (Some me) href roles = Some el"
  shows "(''Button'', ''href'', x) \<in> set (attributes el) \<longleftrightarrow>
     Some x = (case href of Some s \<Rightarrow> Some s | None \<Rightarrow> ts_signOutUrl None None)"
  using assms
  unfolding ts_signOutUrl_default
  by (cases href) (auto simp: UserBadge_def Let_def simp del: units_simps split: if_splits)

text \<open>A role stands out exactly when it is one of the emphasized ones.\<close>

lemma UserBadge_role:
  assumes "UserBadge (Some me) href (Some roles) = Some el"
  shows "(''Chip'', ''color'', units ''success'') \<in> set (attributes el) \<longleftrightarrow>
     js_text (me_role me) \<noteq> [] \<and> js_text (me_role me) \<in> set roles"
  using assms
  by (auto simp: UserBadge_def Let_def units_inject simp del: units_simps split: option.splits if_splits)

lemma UserBadge_nothing_iff: "UserBadge me href roles = None \<longleftrightarrow> me = None"
  by (auto simp: UserBadge_def Let_def split: option.split)

end
