(* ===== verification/Repo_Tests.thy ===== *)
theory Repo_Tests
  imports Profile Sign_Out Connect_Mw Ts_Adapters
begin

text \<open>
  The repository's own unit tests, replayed on the model: the cases of \<open>source_test.go\<close>,
  \<open>claims_test.go\<close>, \<open>signout_test.go\<close>, \<open>gatewayauth_test.go\<close>, \<open>connectmw_test.go\<close>,
  \<open>claims.test.ts\<close> and \<open>signout.test.ts\<close>, by their names there, evaluated.
\<close>

definition fake_headers :: "(string \<times> string) list \<Rightarrow> headers" where
  "fake_headers ps = (\<lambda>name. case map_of ps name of Some x \<Rightarrow> x | None \<Rightarrow> [])"

definition no_orbit :: "nat \<Rightarrow> nat \<Rightarrow> bool" where
  "no_orbit _ _ = False"

lemma split_byte_eval [go_eval]:
  "split_str [] [d] = [[]]"
  "split_str (c # s) [d] =
     (case split_str s [d] of [] \<Rightarrow> [[]] | p # ps \<Rightarrow> if c = d then [] # p # ps else (c # p) # ps)"
proof -
  show "split_str [] [d] = [[]]" by (rule split_byte_none) simp
  show "split_str (c # s) [d] =
     (case split_str s [d] of [] \<Rightarrow> [[]] | p # ps \<Rightarrow> if c = d then [] # p # ps else (c # p) # ps)"
  proof (cases "d \<in> set s")
    case True
    then obtain b a where s: "s = b @ d # a" "d \<notin> set b" by (meson split_list_first)
    then show ?thesis
      using split_byte_cons [of d "[]" s] split_byte_cons [of d "c # b" a] split_byte_cons [of d b a] by (auto split: list.split)
  next
    case False
    then show ?thesis
      using split_byte_cons [of d "[]" s] split_byte_none [of d "c # s"] split_byte_none [of d s] by (auto split: list.split)
  qed
qed

lemmas source_eval = go_eval HeaderSource_Token_def fake_headers_def DefaultSource_token AuthorizationBearer_def
  fold_eq_def Let_def header_names ForwardAuthorization_def HeaderGetter_Get_def splitAndTrim_def

section \<open>\<open>source_test.go\<close>\<close>

abbreviation access_source :: "string \<Rightarrow> string option" where
  "access_source x \<equiv> source_token no_orbit (HeaderSource HeaderAccessToken [])
     (fake_headers [(HeaderAccessToken, x)])"

abbreviation bearer_source :: "string \<Rightarrow> string option" where
  "bearer_source x \<equiv> source_token no_orbit (HeaderSource HeaderAuthorization ''Bearer'')
     (fake_headers [(HeaderAuthorization, x)])"

lemma TestHeaderSourceToken:
  "access_source ''abc.def.ghi'' = Some ''abc.def.ghi''"
  "access_source ''  abc.def.ghi  '' = Some ''abc.def.ghi''"
  "source_token no_orbit (HeaderSource HeaderAccessToken []) (fake_headers []) = None"
  "access_source ''   '' = None"
  "bearer_source ''Bearer abc.def.ghi'' = Some ''abc.def.ghi''"
  "bearer_source ''bearer abc.def.ghi'' = Some ''abc.def.ghi''"
  "bearer_source ''BeArEr abc.def.ghi'' = Some ''abc.def.ghi''"
  "bearer_source ''Bearer   abc.def.ghi  '' = Some ''abc.def.ghi''"
  "bearer_source ''Bearer '' = None"
  "bearer_source ''Basic dXNlcjpwYXNz'' = None"
  "bearer_source ''abc.def.ghi'' = None"
  "bearer_source ''Bea'' = None"
  by (simp_all add: source_eval)

lemma TestChainSourceOrder:
  "source_token no_orbit DefaultSource (fake_headers []) = None"
  "source_token no_orbit DefaultSource (fake_headers [(HeaderAuthorization, ''Bearer from-auth'')]) = Some ''from-auth''"
  "source_token no_orbit DefaultSource (fake_headers [(HeaderAccessToken, ''from-access'')]) = Some ''from-access''"
  "source_token no_orbit DefaultSource
     (fake_headers [(HeaderAccessToken, ''from-access''), (HeaderAuthorization, ''Bearer from-auth'')]) = Some ''from-access''"
  by (simp_all add: source_eval)

lemma TestSplitAndTrim:
  "splitAndTrim [] '','' = None"
  "splitAndTrim '' , , '' '','' = None"
  "splitAndTrim ''operators'' '','' = Some [''operators'']"
  "splitAndTrim '' a , b ,c'' '','' = Some [''a'', ''b'', ''c'']"
  "splitAndTrim ''a,,b,'' '','' = Some [''a'', ''b'']"
  by (simp_all add: source_eval)

lemma TestForwardAuthorization:
  "ForwardAuthorization (fake_headers [(''Authorization'', ''Bearer direct'')]) = ''Bearer direct''"
  "ForwardAuthorization (fake_headers [(''X-Auth-Request-Access-Token'', ''gw-token'')]) = ''Bearer gw-token''"
  "ForwardAuthorization (fake_headers []) = []"
  by (simp_all add: source_eval)

lemma TestHeaderGetterAdapts:
  "ForwardAuthorization (HeaderGetter_Get (\<lambda>name. if name = ''Authorization'' then ''Bearer x'' else [])) = ''Bearer x''"
  by (simp_all add: source_eval)

section \<open>\<open>claims_test.go\<close> and \<open>signout_test.go\<close>\<close>

lemma TestStringsFrom:
  "stringsFrom ANil = None"
  "stringsFrom (AString ''a'') = Some [''a'']"
  "stringsFrom (AStrings (Some [''a'', ''b''])) = Some [''a'', ''b'']"
  "stringsFrom (AArray (Some [AString ''a'', AString ''b''])) = Some [''a'', ''b'']"
  "stringsFrom (AArray (Some [])) = Some []"
  by (simp_all add: stringsFrom_def)

lemma TestClaimsMapperWithDefaults:
  "withDefaults \<lparr>NameClaim = [], EmailClaim = [], RolesClaim = []\<rparr> =
     \<lparr>NameClaim = ''name'', EmailClaim = ''email'', RolesClaim = ''groups''\<rparr>"
  "withDefaults \<lparr>NameClaim = ''display'', EmailClaim = ''mail'', RolesClaim = ''roles''\<rparr> =
     \<lparr>NameClaim = ''display'', EmailClaim = ''mail'', RolesClaim = ''roles''\<rparr>"
  "withDefaults \<lparr>NameClaim = [], EmailClaim = [], RolesClaim = ''realm_access''\<rparr> =
     \<lparr>NameClaim = ''name'', EmailClaim = ''email'', RolesClaim = ''realm_access''\<rparr>"
  by (simp_all add: withDefaults_def)

lemma TestSignOutURL:
  "SignOutURL [] [] = ''/oauth2/sign_out''"
  "SignOutURL ''/oauth2'' [] = ''/oauth2/sign_out''"
  "SignOutURL ''_gwauth'' [] = ''/_gwauth/sign_out''"
  "SignOutURL ''/_gwauth/'' [] = ''/_gwauth/sign_out''"
  "SignOutURL ''/oauth2'' ''/'' = ''/oauth2/sign_out?rd=%2F''"
  by code_simp+

section \<open>\<open>gatewayauth_test.go\<close>\<close>

definition of_roles :: "string list \<Rightarrow> identity" where
  "of_roles rs = zero_identity\<lparr>Roles := Some rs\<rparr>"

lemma TestIdentityHasRole:
  "HasRole (of_roles [''a:read'', ''a:write'']) ''a:read''"
  "HasRole (of_roles [''a:read'', ''a:write'']) ''a:write''"
  "\<not> HasRole (of_roles [''a:read'', ''a:write'']) ''a:admin''"
  "\<not> HasRole (of_roles [''a:read'', ''a:write'']) []"
  "\<not> HasRole zero_identity ''a:read''"
  by (simp_all add: HasRole_iff of_roles_def zero_identity_def)

lemma TestIdentityHasAnyRole:
  "\<not> HasAnyRole (of_roles [''a:read'']) []"
  "HasAnyRole (of_roles [''a:read'']) [''a:read'']"
  "\<not> HasAnyRole (of_roles [''a:read'']) [''a:write'', ''a:admin'']"
  "HasAnyRole (of_roles [''a:read'']) [''a:admin'', ''a:read'']"
  by (simp_all add: HasAnyRole_iff HasRole_iff of_roles_def zero_identity_def)

lemma TestContextRoundTrip:
  "FromContext [] = None"
  "FromContext (WithIdentity [] (zero_identity\<lparr>Subject := ''u-1'', Name := ''A Person''\<rparr>)) =
     Some (zero_identity\<lparr>Subject := ''u-1'', Name := ''A Person''\<rparr>)"
  by (simp_all add: FromContext_def WithIdentity_def as_identity_def ctx_Value_def)

lemma TestDisabled:
  "\<not> Enabled (NewDisabled (Some [''svc:operator'', ''svc:viewer'']))"
  "\<exists>i. Authenticate (NewDisabled (Some [''svc:operator'', ''svc:viewer''])) (fake_headers []) s = (Inr i, s) \<and>
     Subject i = ''local'' \<and> Email i = ''local@localhost'' \<and>
     Roles i = Some [''svc:operator'', ''svc:viewer''] \<and> HasRole i ''svc:operator''"
  by (simp_all add: NewDisabled_def HasRole_iff)

lemma group_list: "splitAndTrim ''ops, viewers ,,writers'' '','' = Some [''ops'', ''viewers'', ''writers'']"
  by (simp add: source_eval)

lemma TestHeaderTrust:
  "headerTrust_Authenticate (fake_headers [(HeaderUser, ''u-1''), (HeaderEmail, ''a@example.com''),
       (HeaderGroups, ''ops, viewers ,,writers''), (HeaderAccessToken, ''tok-123'')]) =
     Inr \<lparr>Subject = ''u-1'', Name = ''u-1'', Email = ''a@example.com'',
       Roles = Some [''ops'', ''viewers'', ''writers''], Token = ''tok-123'', Claims = None\<rparr>"
  "headerTrust_Authenticate (fake_headers [(HeaderEmail, ''a@example.com'')]) =
     Inr \<lparr>Subject = [], Name = ''a@example.com'', Email = ''a@example.com'', Roles = None, Token = [], Claims = None\<rparr>"
  "headerTrust_Authenticate (fake_headers [(HeaderUser, ''u-1'')]) =
     Inr \<lparr>Subject = ''u-1'', Name = ''u-1'', Email = [], Roles = None, Token = [], Claims = None\<rparr>"
  "headerTrust_Authenticate (fake_headers [(HeaderAccessToken, ''tok-only'')]) = Inl ErrNoCredential"
  by (simp_all add: headerTrust_Authenticate_def Let_def fake_headers_def header_names group_list TestSplitAndTrim(1))

section \<open>\<open>connectmw_test.go\<close>\<close>

text \<open>A handler that answers with what it finds on its context.\<close>

definition fake_auth :: "(auth_error, identity) result \<Rightarrow> unit authenticator" where
  "fake_auth answer = \<lparr>Authenticate = (\<lambda>h s. (answer, s)), Enabled = True\<rparr>"

definition seen :: "(unit, identity option, unit) unary" where
  "seen ctx req s = (Inr (FromContext ctx), s)"

lemma TestInterceptor:
  "Interceptor hdr (fake_auth (Inr (caller ''u-1''))) seen [] () () = (Inr (Some (caller ''u-1'')), ())"
  "Interceptor hdr (fake_auth (Inl ErrNoCredential)) seen [] () () =
     (Inl (CodeUnauthenticated ''authentication required''), ())"
  "Interceptor hdr (fake_auth (Inl ErrInvalidToken)) seen [] () () =
     (Inl (CodeUnauthenticated ''authentication required''), ())"
  by (simp_all add: Interceptor_def fake_auth_def seen_def FromContext_def WithIdentity_def as_identity_def ctx_Value_def)

lemma TestOptionalInterceptor:
  "OptionalInterceptor hdr (fake_auth (Inr (caller ''u-1''))) seen [] () () = (Inr (Some (caller ''u-1'')), ())"
  "OptionalInterceptor hdr (fake_auth (Inl ErrNoCredential)) seen [] () () = (Inr None, ())"
  by (simp_all add: OptionalInterceptor_def fake_auth_def seen_def FromContext_def WithIdentity_def as_identity_def ctx_Value_def)

section \<open>\<open>signout.test.ts\<close> and \<open>claims.test.ts\<close>\<close>

lemma test_signOutUrl:
  "ts_signOutUrl (Some (units ''_gwauth'')) None = Some (units ''/_gwauth/sign_out'')"
  "ts_signOutUrl (Some (units ''/_gwauth/'')) None = Some (units ''/_gwauth/sign_out'')"
  by code_simp+

definition standard_mapper :: ts_mapper where
  "standard_mapper = ts_claimsMapper None None None"

definition payload_of :: "(string \<times> js_value) list \<Rightarrow> js_payload" where
  "payload_of ps = map (\<lambda>(k, x). (units k, x)) ps"

lemma test_identityFromClaims:
  "ts_roles (ts_identityFromClaims standard_mapper
     (payload_of [(''sub'', JsString (units ''u1'')), (''groups'', JsString (units ''solo''))]) (units ''t'')) =
     [units ''solo'']"
  "ts_roles (ts_identityFromClaims standard_mapper
     (payload_of [(''groups'', JsArray [JsNumber 1, JsString (units ''ok''), JsNull])]) (units ''t'')) = [units ''ok'']"
  "ts_roles (ts_identityFromClaims standard_mapper (payload_of [(''groups'', JsNumber 42)]) (units ''t'')) = []"
  "ts_roles (ts_identityFromClaims standard_mapper [] (units ''t'')) = []"
  "ts_name (ts_identityFromClaims standard_mapper
     (payload_of [(''sub'', JsString (units ''u1'')), (''name'', JsNumber 5)]) (units ''t'')) = JsString []"
  by code_simp+

end
