(* ===== verification/Adapter_Tests.thy ===== *)
theory Adapter_Tests
  imports Repo_Tests Huma_Mw
begin

text \<open>
  The unit tests of the adapters, replayed: the cases of \<open>fibermw_test.go\<close>, \<open>humamw_test.go\<close> and
  \<open>adapters.test.ts\<close>, by their names there, and one of \<open>source.test.ts\<close>. Their fake
  authenticator ignores the request and returns what the test configured.
\<close>

definition fakeAuth :: "(auth_error, identity) result \<Rightarrow> bool \<Rightarrow> unit authenticator" where
  "fakeAuth answer enabled = \<lparr>Authenticate = (\<lambda>h s. (answer, s)), Enabled = enabled\<rparr>"

lemma fakeAuth_sel [simp]:
  "Authenticate (fakeAuth answer enabled) h s = (answer, s)" "Enabled (fakeAuth answer enabled) = enabled"
  by (simp_all add: fakeAuth_def)

section \<open>\<open>fibermw_test.go\<close>\<close>

text \<open>The status of a response, and the subject the terminal handler found.\<close>

definition fiber_response :: "handler_error option \<times> example_ctx \<times> unit \<Rightarrow> nat \<times> string option" where
  "fiber_response out =
     (case out of
        (Some (FiberError status _), c, _) \<Rightarrow> (status, None)
      | (Some (AppError _), c, _) \<Rightarrow> (500, None)
      | (None, c, _) \<Rightarrow> (200, map_option Subject (From example_fiber c)))"

definition fiber_run ::
    "((example_ctx, unit) fiber_handler \<Rightarrow> (example_ctx, unit) fiber_handler) \<Rightarrow> nat \<times> string option" where
  "fiber_run mw = fiber_response (mw (\<lambda>c s. (None, c, s)) example_request ())"

lemmas fiber_run_eval = fiber_run_def fiber_response_def Require_def Optional_def RequireRoles_def statusFor_def
  StatusUnauthorized_def StatusForbidden_def attach_def From_def example_fiber_def example_request_def
  as_identity_def HasAnyRole_iff HasRole_iff of_roles_def zero_identity_def

lemma TestRequire:
  "fiber_run (Require example_fiber (fakeAuth (Inl ErrNoCredential) True)) = (401, None)"
  "fiber_run (Require example_fiber (fakeAuth (Inl ErrInvalidToken) True)) = (401, None)"
  "fiber_run (Require example_fiber (fakeAuth (Inr (caller ''u-1'')) True)) = (200, Some ''u-1'')"
  by (simp_all add: fiber_run_eval)

lemma TestOptional:
  "fiber_run (Optional example_fiber (fakeAuth (Inl ErrNoCredential) True)) = (200, None)"
  "fiber_run (Optional example_fiber (fakeAuth (Inr (caller ''u-1'')) True)) = (200, Some ''u-1'')"
  by (simp_all add: fiber_run_eval)

lemma TestRequireRoles:
  "fst (fiber_run (RequireRoles example_fiber (fakeAuth (Inl ErrNoCredential) True) [''svc:operator''])) = 401"
  "fst (fiber_run (RequireRoles example_fiber (fakeAuth (Inr (of_roles [''svc:viewer''])) True) [''svc:operator''])) = 403"
  "fst (fiber_run (RequireRoles example_fiber (fakeAuth (Inr (of_roles [''svc:operator''])) True) [''svc:operator''])) = 200"
  "fst (fiber_run (RequireRoles example_fiber (fakeAuth (Inr (of_roles [''other''])) False) [''svc:operator''])) = 200"
  by (simp_all add: fiber_run_eval)

section \<open>\<open>humamw_test.go\<close>\<close>

definition secured :: "(string \<times> string list) list \<Rightarrow> operation" where
  "secured reqs = \<lparr>op_Security = Some (map (\<lambda>(k, scopes). [k \<mapsto> Some scopes]) reqs)\<rparr>"

text \<open>The handlers of the tests have no output, which is the status 204.\<close>

definition huma_run :: "unit authenticator \<Rightarrow> operation \<Rightarrow> nat" where
  "huma_run auth op =
     (case hx_written (fst (middleware example_huma auth (\<lambda>c s. (c, s))
        (example_huma_request\<lparr>hx_operation := Some op\<rparr>) ())) of
        None \<Rightarrow> 204 | Some (status, _) \<Rightarrow> status)"

lemmas huma_run_eval = huma_run_def middleware_def Let_def requiredRoles_def secured_def SchemeName_def
  example_huma_def example_huma_request_def HasAnyRole_iff HasRole_iff of_roles_def zero_identity_def

lemma TestRegisterAddsSecurityScheme:
  "\<exists>comps m scheme. fst (Register zero example_huma (fakeAuth answer True) oapi) = Some comps \<and>
     SecuritySchemes comps = Some m \<and> m SchemeName = Some scheme \<and>
     sch_Type scheme = ''http'' \<and> sch_Scheme scheme = ''bearer''"
  by (simp add: Register_def registerScheme_def gateway_scheme_def Let_def split: option.split)

lemma TestProtectedOperation:
  "huma_run (fakeAuth (Inl ErrNoCredential) True) (secured [(SchemeName, [''svc:operator''])]) = 401"
  "huma_run (fakeAuth (Inl ErrInvalidToken) True) (secured [(SchemeName, [''svc:operator''])]) = 401"
  "huma_run (fakeAuth (Inr (of_roles [''svc:viewer''])) True) (secured [(SchemeName, [''svc:operator''])]) = 403"
  "huma_run (fakeAuth (Inr (of_roles [''svc:operator''])) True) (secured [(SchemeName, [''svc:operator''])]) = 204"
  "huma_run (fakeAuth (Inr (of_roles [''other''])) False) (secured [(SchemeName, [''svc:operator''])]) = 204"
  by (simp_all add: huma_run_eval)

lemma TestAnonymousOperationPasses: "huma_run (fakeAuth (Inl ErrNoCredential) True) \<lparr>op_Security = None\<rparr> = 204"
  by (simp add: huma_run_eval)

lemma TestRequiredRoles:
  "requiredRoles None = (None, False)"
  "requiredRoles (Some \<lparr>op_Security = None\<rparr>) = (None, False)"
  "requiredRoles (Some (secured [(SchemeName, [''a'', ''b''])])) = (Some [''a'', ''b''], True)"
  "requiredRoles (Some (secured [(''other'', [''x''])])) = (None, False)"
  by (simp_all add: requiredRoles_def secured_def SchemeName_def)

section \<open>\<open>adapters.test.ts\<close>\<close>

definition node_headers_of :: "(string \<times> node_header) list \<Rightarrow> node_headers" where
  "node_headers_of ps = map_of (map (\<lambda>(k, x). (units k, x)) ps)"

lemma test_fromNodeHeaders:
  "fromNodeHeaders (\<lambda>s. s) (node_headers_of [(''x-auth-request-user'', OneValue (units ''u1'')),
      (''x-multi'', ManyValues [units ''a'', units ''b''])]) (units ''X-Auth-Request-User'') = Some (units ''u1'')"
  "fromNodeHeaders (\<lambda>s. s) (node_headers_of [(''x-auth-request-user'', OneValue (units ''u1'')),
      (''x-multi'', ManyValues [units ''a'', units ''b''])]) (units ''x-multi'') = Some (units ''a, b'')"
  "fromNodeHeaders (\<lambda>s. s) (node_headers_of [(''x-auth-request-user'', OneValue (units ''u1'')),
      (''x-multi'', ManyValues [units ''a'', units ''b''])]) (units ''absent'') = None"
  by code_simp+

definition ts_fakeAuth :: "(ts_error, ts_identity) result \<Rightarrow> unit ts_authenticator" where
  "ts_fakeAuth answer = \<lparr>ts_authenticate = (\<lambda>h s. (answer, s)), ts_enabled = True\<rparr>"

definition ada :: ts_identity where
  "ada = \<lparr>ts_subject = units ''u1'', ts_name = JsString (units ''Ada''), ts_email = JsString (units ''ada@x''),
     ts_roles = [units ''ops''], ts_token = units ''t'', ts_claims = []\<rparr>"

text \<open>The code of a reply, or the identity on the request that reached \<open>next\<close>.\<close>

definition ts_run_test ::
    "((ts_request \<Rightarrow> unit \<Rightarrow> ts_identity option \<times> unit) \<Rightarrow> ts_request \<Rightarrow> unit \<Rightarrow>
      ts_identity option ts_outcome \<times> unit) \<Rightarrow> nat + ts_identity option" where
  "ts_run_test mw =
     (case fst (mw (\<lambda>req s. (tr_identity req, s)) \<lparr>tr_headers = (\<lambda>_. None), tr_identity = None\<rparr> ()) of
        TsReply code _ \<Rightarrow> Inl code | TsNext i \<Rightarrow> Inr i)"

lemmas ts_run_eval = ts_run_test_def ts_middleware_def ts_requireRoles_def authenticateThen_def ts_fakeAuth_def
  sendAuthError_def ts_hasAnyRole_def ts_hasRole_def ts_disabled_def ada_def

lemma test_middleware:
  "ts_run_test (ts_middleware (\<lambda>s. s) (ts_fakeAuth (Inr ada))) = Inr (Some ada)"
  "ts_run_test (ts_middleware (\<lambda>s. s) (ts_fakeAuth (Inl NoCredentialError))) = Inl 401"
  "ts_run_test (ts_middleware (\<lambda>s. s) (ts_fakeAuth (Inl InvalidTokenError))) = Inl 401"
  by (simp_all add: ts_run_eval)

lemma test_requireRoles:
  "ts_run_test (ts_requireRoles (\<lambda>s. s) (ts_fakeAuth (Inr ada)) [units ''ops'']) = Inr (Some ada)"
  "ts_run_test (ts_requireRoles (\<lambda>s. s) (ts_fakeAuth (Inr ada)) [units ''admin'']) = Inl 403"
  "\<exists>i. ts_run_test (ts_requireRoles (\<lambda>s. s) (ts_disabled []) [units ''admin'']) = Inr (Some i)"
  "ts_run_test (ts_requireRoles (\<lambda>s. s) (ts_fakeAuth (Inl NoCredentialError)) [units ''ops'']) = Inl 401"
  by (simp_all add: ts_run_eval)

section \<open>\<open>source.test.ts\<close>\<close>

lemma test_splitAndTrim:
  "ts_splitAndTrim (units ''a, b ,,c , '') (units '','') = [units ''a'', units ''b'', units ''c'']"
  "ts_splitAndTrim [] (units '','') = []"
proof -
  have "splitAndTrim ''a, b ,,c , '' '','' = Some [''a'', ''b'', ''c'']" "splitAndTrim [] '','' = None"
    by (simp_all add: source_eval)
  then show "ts_splitAndTrim (units ''a, b ,,c , '') (units '','') = [units ''a'', units ''b'', units ''c'']"
    and "ts_splitAndTrim [] (units '','') = []"
    using ts_splitAndTrim_agrees [of "''a, b ,,c , ''"] ts_splitAndTrim_agrees [of "[]"]
    by (simp_all add: elems_def del: units_simps) (simp add: units_def)
qed

end
