(* ===== verification/Spec2Isabelle.thy ===== *)
theory Spec2Isabelle
  imports Service_Run Key_Timing Ts_Examples Huma_Mw Connect_Mw Chart_Examples React_Badge Adapter_Tests
begin

text \<open>
  Verification development of gateway-auth: the Go package \<open>gatewayauth\<close>, its three adapters, and
  the TypeScript package \<open>ts/src\<close> that mirrors it, and the Helm chart that puts the gateway in front.

  The program. A service behind an authenticating gateway receives requests whose headers carry an
  access token. An \<open>Authenticator\<close> turns a request's headers into an \<open>Identity\<close> or one of two
  errors. The verifying one (\<open>verify.go\<close>) takes the token from a \<open>TokenSource\<close> (\<open>source.go\<close>),
  has it verified by the JWT library under a key set that a background loop refreshes
  (\<open>keyset.go\<close>), maps its claims (\<open>claims.go\<close>), and fills a missing display name from the
  gateway's ID-token cookie or from the provider's userinfo endpoint through a cache shared by all
  requests (\<open>userinfo.go\<close>). It is built by \<open>NewVerifier\<close> (\<open>profile.go\<close>), which performs OIDC
  discovery (\<open>discovery.go\<close>) and the first key fetch. Header trust (\<open>verify.go\<close>) and the
  disabled authenticator (\<open>gatewayauth.go\<close>) implement the same interface. The adapters
  (\<open>adapters/fibermw\<close>, \<open>adapters/humamw\<close>, \<open>adapters/connectmw\<close>) authenticate each request of
  a framework, check roles, and park the identity where handlers find it. \<open>signout.go\<close> builds the
  sign-out link.

  Theories and the code they model.
  \<^item> \<open>Prelude\<close>: slices with nil, results, fact collections.
  \<^item> \<open>Go_Strings\<close>, \<open>Go_Url\<close>, \<open>Go_Json\<close>, \<open>Go_Net\<close>: what the code uses of Go's standard
    library: \<open>strings\<close> on bytes with UTF-8 decoding, query escaping, \<open>encoding/json\<close> into a
    struct of strings, responses, limited reads, header maps and durations.
  \<^item> \<open>Identity\<close>: \<open>gatewayauth.go\<close>. The interface is the record \<open>authenticator\<close> of its two
    methods over a shared state, and its promise is the locale of the same name.
  \<^item> \<open>Source\<close>: \<open>source.go\<close>. Sources and chains are one datatype; \<open>source_token\<close> is the method
    \<open>Token\<close>. The locale \<open>token_source\<close> says that no source hands on an empty or padded token.
  \<^item> \<open>Claims\<close>: \<open>claims.go\<close>, over the accessors of a token.
  \<^item> \<open>Discovery\<close>: \<open>discovery.go\<close>, every error return a constructor.
  \<^item> \<open>Key_Set\<close>: \<open>keyset.go\<close>. The goroutine's loop is a function of the events its \<open>select\<close>
    receives; the locale \<open>refreshing_cell\<close> is a cell that survives failed updates.
  \<^item> \<open>Key_Timing\<close>: the same loop on a clock, with the ticker's one-place channel, the 15 minutes
    between ticks, the timeouts of the clients, and the end of the service's context, at which the
    loop returns and a request under way is cut off.
  \<^item> \<open>Userinfo\<close>: \<open>userinfo.go\<close>, once sequentially (\<open>fill\<close>) and once as a step relation of any
    number of concurrent calls (\<open>fill_step\<close>) whose steps are the critical sections of the mutex
    and the request between them, each with the endpoint and the clock it meets; the cache is an instance of the locale \<open>ttl_cache\<close>.
  \<^item> \<open>Verify\<close>: \<open>verify.go\<close>. \<open>verifier_Authenticate\<close> is the method; the state \<open>gate_state\<close> is
    what its pointers share; \<open>world\<close> is what happens outside during one call, key refreshes
    between its two verifications included.
  \<^item> \<open>Profile\<close>: \<open>profile.go\<close>, and \<open>serve\<close>, any sequence of requests to a built verifier.
  \<^item> \<open>Service\<close>: a verifier in service with its real concurrency. \<open>svc_step\<close> lets any number of
    \<open>Authenticate\<close> calls, the key refreshes and the userinfo fills interleave at their accesses to
    shared state: a call reads the key set under the read lock once for the token and once more for
    the cookie, its userinfo part is \<open>fill_step\<close>, a refresh is one write of the key set, and the
    clock moves in between. \<open>alone\<close> is one call running by itself in a given sequence of
    endpoints and times. Logging is left out there. \<open>Service_Run\<close> shows the sequential
    \<open>Authenticate\<close> to be a run of it and gives a concrete service.
  \<^item> \<open>Gate\<close>: the abstract decision of an adapter and the locale \<open>gated\<close>, which \<open>Fiber_Mw\<close>,
    \<open>Huma_Mw\<close> and \<open>Connect_Mw\<close>, the three adapters, interpret.
  \<^item> \<open>Sign_Out\<close>: \<open>signout.go\<close>.
  \<^item> \<open>Js_Core\<close>: what the TypeScript package uses of JavaScript, strings as 16-bit code units and
    dynamic values, each operation related to Go's on ASCII text.
  \<^item> \<open>Ts_Identity\<close> (\<open>identity.ts\<close>, \<open>source.ts\<close>, \<open>claims.ts\<close>), \<open>Ts_Verify\<close> (\<open>userinfo.ts\<close>,
    \<open>discovery.ts\<close>, \<open>verify.ts\<close>, \<open>profile.ts\<close>), \<open>Ts_Adapters\<close> (\<open>adapters.ts\<close>, \<open>signout.ts\<close>, and
    the comparison of the two packages), \<open>Ts_Service\<close> (calls of its verifier that interleave at
    their \<open>await\<close>s, with \<open>authenticate\<close> as the run of one alone), \<open>Ts_Progress\<close> (they end, and
    none waits for another), \<open>Ts_Examples\<close>: one
    request in both languages. \<open>React_Badge\<close>: \<open>react/UserBadge.tsx\<close> as a tree of elements.
  \<^item> \<open>Chart_Values\<close>, \<open>Chart\<close>: the Helm chart \<open>charts/gateway-auth\<close>. The values are records, the naming
    templates and each document one definition, and \<open>exposure\<close> the concatenation of the documents or
    the first failure. \<open>Chart_Facts\<close> says which routes are guarded and how, where the secrets come
    from and when a rendering succeeds; \<open>Chart_Gateway\<close> relates the chart to the package behind it;
    \<open>Chart_Examples\<close> holds concrete installs.
  \<^item> \<open>Repo_Tests\<close>, \<open>Adapter_Tests\<close>: unit tests of the repository, replayed on the model.

  What is proved. For each component its behaviour on every branch, its invariants and, where two
  directions exist, its round trips: tokens read from headers, groups, cookies and the redirect
  parameter are read back exactly; a role is held exactly when the claim asserts it; discovery and
  refresh succeed exactly on the answers they should; the key set is never empty after startup;
  concurrent cache use never shows one subject another's data; the sequential userinfo call refines
  the interleaved system. For the service: whatever interleaves, an answered identity was verified
  during its request under a key set current then, is displayed under its own subject's name only, a
  rejection has a reason of the request's own, every request is answered within nine steps of its
  own, whatever the userinfo endpoint does, and waits for no other, and the sequential operation is one of the runs. For the verifier: an
  identity is returned only for a proven token, error texts do not influence results, and only a
  verified token is ever sent on. For the adapters: they are the abstract gate, so a protected
  handler cannot influence the outcome of a request that is not admitted. This theory composes them
  from startup to a protected handler, puts each of the three in front of the interleaved service,
  follows a key rotation and bounds the time it takes to bite while the context lasts, and compares the adapters with each
  other. For the TypeScript package: sources, claims, sign-out links and the decisions of
  \<open>requireRoles\<close> agree with Go's on ASCII text, except that with an empty role list it lets every
  authenticated caller through where Fiber forbids each; its verifier's rejections are characterised, among
  them one the Go package does not have, for a userinfo answer that is the JSON value \<open>null\<close>; and
  with any calls interleaving at their \<open>await\<close>s, an identity is answered for the call's own verified
  token only and has its declared type as long as the userinfo endpoint's answers have theirs, and
  every call ends within three steps of its own. For the chart: the routes it guards are exactly the
  protected ones, each policy is complete in itself, the headers the gateway forwards are the ones
  the package reads, the sign-out link reaches the proxy exactly for a prefix with a leading and
  no trailing slash, and a rendering succeeds exactly on complete values; the one secret whose generator can be missing is characterised.

  Outside code. \<open>jose\<close> and \<open>fetch\<close> are the record \<open>ts_world\<close> with the contract \<open>jose_contract\<close>, and
  lower-casing outside ASCII is a parameter. The JWT and JWK libraries, the Unicode folding table
  and the frameworks' request contexts are arguments: the records \<open>library\<close>, \<open>fiber\<close> and \<open>huma\<close>, and
  \<open>req_Header\<close>. What is relied on of them is stated as predicates: \<open>jwt_contract\<close> (a parsed token is
  signed under the given set, unexpired, of the demanded issuer and audience), \<open>fiber_contract\<close> and
  \<open>huma_contract\<close> (a value set under a key is read back), and \<open>copies_listed\<close> for the gateway
  (of the proxy's response it copies exactly the headers the policy lists). Each has a concrete instance in the
  examples. The network is a function from a URL to the outcome of one GET; a timeout or a cancelled
  context is a transport error, and outside \<open>Key_Timing\<close> any timing is covered.

  Bounds. The JSON parser runs on fuel, one more than twice the length of its input; \<open>json_decode_fuel\<close>
  in \<open>Go_Json\<close> shows that more fuel changes nothing. All other recursions are structural or come
  with a termination proof. Times are integers in nanoseconds and \<open>Time.Sub\<close> saturates as in Go.

  Not modelled. The choice of logger and the texts of wrapped errors, and the OpenAPI document outside
  its components. In the TypeScript package JSON parsing is left to the response; of the badge the
  styling. Of the chart's values an absent and an empty object are one, which matters only for the
  kind of failure Helm reports. Of the chart the YAML text around the documents' fields and the constant fields that
  refer to nothing; what Kubernetes, Envoy and oauth2-proxy make of the documents is
  theirs.
\<close>

section \<open>From startup to a protected handler\<close>

text \<open>A verifier in service answers the next request with a proven identity or not at all.\<close>

lemma served_proven:
  assumes "NewVerifier lib get cfg = Inr (v, st)" and "jwt_contract lib signs"
    and "Authenticate (verifier_auth lib v w) h (serve lib v rs st) = (Inr i, st')"
  shows "\<exists>k. keySet_Set (g_keys (serve lib v rs st)) = Some k \<and> 0 < lib_jwk_Len lib k \<and>
     identity_proven signs lib v k (now_parse w) h i"
proof -
  have "has_keys (lib_jwk_Len lib) (g_keys (serve lib v rs st))"
    using serve_inv [OF NewVerifier_inv [OF assms(1)], of rs v] by (simp add: gate_inv_def)
  from verifier_proven [OF assms(2) this assms(3)] show ?thesis .
qed

lemma role_asserted:
  assumes "same_authorization i (mapper_identity m token raw)"
  shows "HasRole i r \<longleftrightarrow>
     (\<exists>val. tok_Field token (RolesClaim (withDefaults m)) = Some val \<and> asserts_role val r)"
  using assms
  by (simp add: same_authorization_def HasRole_iff claimValues_def stringsFrom_asserts split: option.split)

lemma proven_role:
  assumes "identity_proven signs lib v k now h i" and "HasRole i r"
  shows "\<exists>token val. token_proven signs v k now (Token i) token \<and>
     tok_Field token (RolesClaim (withDefaults (v_mapper v))) = Some val \<and> asserts_role val r"
  using assms by (auto simp: identity_proven_def role_asserted)

text \<open>C1: end to end through Fiber: a verifier is built, serves any requests while its keys are
  refreshed in any way, and guards a handler with roles; the handler can influence the outcome
  only for a request whose token the current non-empty key set signed, for the configured issuer
  and audience, unexpired, and whose roles claim asserts one of the roles.\<close>

theorem fiber_end_to_end:
  assumes "NewVerifier lib get cfg = Inr (v, st)" and "jwt_contract lib signs"
    and "RequireRoles fib (verifier_auth lib v w) roles nxt c (serve lib v rs st) \<noteq>
         RequireRoles fib (verifier_auth lib v w) roles nxt' c (serve lib v rs st)"
  shows "\<exists>k raw token r val. keySet_Set (g_keys (serve lib v rs st)) = Some k \<and>
     0 < lib_jwk_Len lib k \<and>
     source_token (lib_orbit lib) (v_source v) (fiberHeaders fib c) = Some raw \<and>
     signs k raw token \<and> tok_Issuer token = Some (cfg_Issuer cfg) \<and>
     (cfg_Audience cfg = [] \<or> cfg_Audience cfg \<in> set (tok_Audience token)) \<and>
     (\<forall>t. tok_Expiration token \<noteq> Some t \<or> now_parse w < t + 1000000000) \<and>
     r \<in> set roles \<and>
     tok_Field token (RolesClaim (withDefaults (cfg_Claims cfg))) = Some val \<and> asserts_role val r"
proof -
  let ?st = "serve lib v rs st"
  have enabled: "Enabled (verifier_auth lib v w)" and not_public: "\<not> False"
    by (simp_all add: verifier_auth_def)
  obtain i s' where auth: "Authenticate (verifier_auth lib v w) (fiberHeaders fib c) ?st = (Inr i, s')"
    and role: "HasAnyRole i roles"
    by (rule require_roles.handler_reached [OF not_public assms(3)]) (simp add: enabled)
  from role obtain r where r: "r \<in> set roles" "HasRole i r"
    by (auto simp: HasAnyRole_iff)
  obtain k where k: "keySet_Set (g_keys ?st) = Some k" "0 < lib_jwk_Len lib k"
    and proven: "identity_proven signs lib v k (now_parse w) (fiberHeaders fib c) i"
    using served_proven [OF assms(1,2) auth] by blast
  from proven_role [OF proven r(2)] obtain token val
    where token: "token_proven signs v k (now_parse w) (Token i) token"
      and val: "tok_Field token (RolesClaim (withDefaults (v_mapper v))) = Some val" "asserts_role val r"
    by blast
  have "v_issuer v = cfg_Issuer cfg" "v_audience v = cfg_Audience cfg" "v_mapper v = cfg_Claims cfg"
    using assms(1) by (auto elim!: NewVerifier_okE)
  with k proven token val r(1) show ?thesis
    unfolding token_proven_def identity_proven_def by metis
qed

text \<open>End to end through Huma, for an operation that lists roles under the scheme.\<close>

lemma huma_end_to_end:
  assumes "NewVerifier lib get cfg = Inr (v, st)" and "jwt_contract lib signs"
    and "requiredRoles (hum_Operation hum ctx) = (Some roles, True)" and "roles \<noteq> []"
    and "middleware hum (verifier_auth lib v w) nxt ctx (serve lib v rs st) \<noteq>
         middleware hum (verifier_auth lib v w) nxt' ctx (serve lib v rs st)"
  shows "\<exists>k raw token r val. keySet_Set (g_keys (serve lib v rs st)) = Some k \<and>
     0 < lib_jwk_Len lib k \<and> token_proven signs v k (now_parse w) raw token \<and>
     r \<in> set roles \<and>
     tok_Field token (RolesClaim (withDefaults (cfg_Claims cfg))) = Some val \<and> asserts_role val r"
proof -
  let ?st = "serve lib v rs st"
  have enabled: "Enabled (verifier_auth lib v w)" and not_public: "\<not> \<not> op_guarded hum ctx"
    using assms(3) by (simp_all add: verifier_auth_def)
  obtain i s' where auth: "Authenticate (verifier_auth lib v w) (humaHeaders hum ctx) ?st = (Inr i, s')"
    and role: "HasAnyRole i roles"
    by (rule huma.handler_reached [OF not_public assms(5)]) (use assms(3,4) enabled in auto)
  from role obtain r where r: "r \<in> set roles" "HasRole i r"
    by (auto simp: HasAnyRole_iff)
  obtain k where k: "keySet_Set (g_keys ?st) = Some k" "0 < lib_jwk_Len lib k"
    and proven: "identity_proven signs lib v k (now_parse w) (humaHeaders hum ctx) i"
    using served_proven [OF assms(1,2) auth] by blast
  have "v_mapper v = cfg_Claims cfg"
    using assms(1) by (auto elim!: NewVerifier_okE)
  with k r(1) proven_role [OF proven r(2)] show ?thesis by metis
qed

section \<open>Adapters in front of the interleaved service\<close>

text \<open>
  The adapter calls an authenticator that is enabled and gives this request the answer that the
  interleaved service gave it; what else the authenticator does, and the adapter's own state, are
  left open.
\<close>

lemma answered_in_service:
  assumes "NewVerifier lib get cfg = Inr (v, st)" and "jwt_contract lib signs"
    and "svc_reachable lib v st s" and "svc_calls s k = Some call" and "c_pc call = Answered (Inr i)"
  shows "\<exists>ks \<in> set (drop (c_known call) (svc_adopted s)). \<exists>now \<in> {c_time call..svc_clock s}. \<exists>token.
     0 < lib_jwk_Len lib ks \<and> token_proven signs v ks now (Token i) token \<and>
     source_token (lib_orbit lib) (v_source v) (c_headers call) = Some (Token i) \<and>
     same_authorization i (mapper_identity (cfg_Claims cfg) token (Token i))"
proof -
  have "v_mapper v = cfg_Claims cfg"
    using assms(1) by (auto elim!: NewVerifier_okE)
  with answered_proven [OF assms] show ?thesis
    unfolding identity_proven_def by metis
qed

lemma role_in_service:
  assumes "NewVerifier lib get cfg = Inr (v, st)" and "jwt_contract lib signs"
    and "svc_reachable lib v st s" and "svc_calls s k = Some call" and "c_pc call = Answered (Inr i)"
    and "HasRole i r"
  shows "\<exists>ks \<in> set (drop (c_known call) (svc_adopted s)). \<exists>now \<in> {c_time call..svc_clock s}. \<exists>token val.
     0 < lib_jwk_Len lib ks \<and> token_proven signs v ks now (Token i) token \<and>
     source_token (lib_orbit lib) (v_source v) (c_headers call) = Some (Token i) \<and>
     tok_Field token (RolesClaim (withDefaults (cfg_Claims cfg))) = Some val \<and> asserts_role val r"
  using answered_in_service [OF assms(1-5)] assms(6) by (fastforce simp: role_asserted)

text \<open>C2: end to end through Fiber with the service's real concurrency: whatever requests, key
  refreshes and userinfo calls interleaved with it, the handler behind \<open>RequireRoles\<close> can
  influence the outcome of a request only if its own token was verified during the request, under a
  non-empty key set current during it, and the token's roles claim asserts one of the roles.\<close>

theorem fiber_in_service:
  assumes "NewVerifier lib get cfg = Inr (v, st)" and "jwt_contract lib signs"
    and "svc_reachable lib v st s" and "svc_calls s k = Some call"
    and "c_headers call = fiberHeaders fib c"
    and "c_pc call = Answered (fst (Authenticate auth (fiberHeaders fib c) x))" and "Enabled auth"
    and "RequireRoles fib auth roles nxt c x \<noteq> RequireRoles fib auth roles nxt' c x"
  shows "\<exists>ks \<in> set (drop (c_known call) (svc_adopted s)). \<exists>now \<in> {c_time call..svc_clock s}. \<exists>raw token val r.
     r \<in> set roles \<and> 0 < lib_jwk_Len lib ks \<and> token_proven signs v ks now raw token \<and>
     source_token (lib_orbit lib) (v_source v) (fiberHeaders fib c) = Some raw \<and>
     tok_Field token (RolesClaim (withDefaults (cfg_Claims cfg))) = Some val \<and> asserts_role val r"
proof -
  have not_public: "\<not> False" by simp
  obtain i s' where "Authenticate auth (fiberHeaders fib c) x = (Inr i, s')" and role: "HasAnyRole i roles"
    by (rule require_roles.handler_reached [OF not_public assms(8)]) (simp add: assms(7))
  with assms(6) have "c_pc call = Answered (Inr i)" by simp
  moreover from role obtain r where "r \<in> set roles" "HasRole i r" by (auto simp: HasAnyRole_iff)
  ultimately show ?thesis
    using role_in_service [OF assms(1-4)] assms(5) by metis
qed

text \<open>C3: end to end through Huma with the same concurrency: the handler of an operation under the
  scheme can influence the response only if the request's own token was verified during the
  request, and where the operation lists roles the token's roles claim asserts one of them.\<close>

theorem huma_in_service:
  assumes "NewVerifier lib get cfg = Inr (v, st)" and "jwt_contract lib signs"
    and "svc_reachable lib v st s" and "svc_calls s k = Some call"
    and "c_headers call = humaHeaders hum ctx"
    and "c_pc call = Answered (fst (Authenticate auth (humaHeaders hum ctx) x))" and "Enabled auth"
    and "requiredRoles (hum_Operation hum ctx) = (roles, True)"
    and "middleware hum auth nxt ctx x \<noteq> middleware hum auth nxt' ctx x"
  shows "\<exists>ks \<in> set (drop (c_known call) (svc_adopted s)). \<exists>now \<in> {c_time call..svc_clock s}. \<exists>raw token.
     0 < lib_jwk_Len lib ks \<and> token_proven signs v ks now raw token \<and>
     source_token (lib_orbit lib) (v_source v) (humaHeaders hum ctx) = Some raw \<and>
     (elems roles = [] \<or> (\<exists>r \<in> set (elems roles). \<exists>val.
        tok_Field token (RolesClaim (withDefaults (cfg_Claims cfg))) = Some val \<and> asserts_role val r))"
proof -
  have not_public: "\<not> \<not> op_guarded hum ctx"
    using assms(8) by simp
  obtain i s' where "Authenticate auth (humaHeaders hum ctx) x = (Inr i, s')"
    and role: "elems roles = [] \<or> HasAnyRole i (elems roles)"
    by (rule huma.handler_reached [OF not_public assms(9)]) (use assms(7,8) in auto)
  with assms(6) have "c_pc call = Answered (Inr i)" by simp
  note call = assms(1-4) this
  show ?thesis
  proof (cases "elems roles = []")
    case True
    with answered_in_service [OF call] assms(5) show ?thesis by auto
  next
    case False
    with role obtain r where "r \<in> set (elems roles)" "HasRole i r" by (auto simp: HasAnyRole_iff)
    with role_in_service [OF call] assms(5) show ?thesis by metis
  qed
qed

text \<open>C4: end to end through Connect with the same concurrency: the procedure behind the
  interceptor can influence the outcome of a call only if its own token was verified during it; it
  then runs with that token's identity on the context: its subject, its claims, and exactly the
  roles its roles claim asserts.\<close>

theorem connect_in_service:
  assumes "NewVerifier lib get cfg = Inr (v, st)" and "jwt_contract lib signs"
    and "svc_reachable lib v st s" and "svc_calls s k = Some call"
    and "c_headers call = connectHeaders (req_Header req)"
    and "c_pc call = Answered (fst (Authenticate auth (connectHeaders (req_Header req)) x))"
    and "Interceptor req_Header auth nxt ctx req x \<noteq> Interceptor req_Header auth nxt' ctx req x"
  shows "\<exists>ks \<in> set (drop (c_known call) (svc_adopted s)). \<exists>now \<in> {c_time call..svc_clock s}. \<exists>token i ctx' x'.
     0 < lib_jwk_Len lib ks \<and> token_proven signs v ks now (Token i) token \<and>
     source_token (lib_orbit lib) (v_source v) (connectHeaders (req_Header req)) = Some (Token i) \<and>
     Interceptor req_Header auth nxt ctx req x = nxt ctx' req x' \<and> FromContext ctx' = Some i \<and>
     Subject i = subject_of token \<and> Claims i = claimsMap token \<and>
     (\<forall>r. HasRole i r \<longleftrightarrow> (\<exists>val.
        tok_Field token (RolesClaim (withDefaults (cfg_Claims cfg))) = Some val \<and> asserts_role val r))"
proof -
  from assms(7) obtain i x' where i: "Authenticate auth (connectHeaders (req_Header req)) x = (Inr i, x')"
    by (auto simp: Interceptor_def split: prod.splits sum.splits)
  then have run: "Interceptor req_Header auth nxt ctx req x = nxt (WithIdentity ctx i) req x'"
    by (simp add: Interceptor_def)
  have found: "FromContext (WithIdentity ctx i) = Some i" by simp
  from i assms(6) have "c_pc call = Answered (Inr i)" by simp
  from answered_in_service [OF assms(1-4) this] obtain ks now token where
    ks: "ks \<in> set (drop (c_known call) (svc_adopted s))" "now \<in> {c_time call..svc_clock s}"
      "0 < lib_jwk_Len lib ks" "token_proven signs v ks now (Token i) token"
      "source_token (lib_orbit lib) (v_source v) (connectHeaders (req_Header req)) = Some (Token i)"
    and auth: "same_authorization i (mapper_identity (cfg_Claims cfg) token (Token i))"
    unfolding assms(5) by blast
  have "Subject i = subject_of token \<and> Claims i = claimsMap token"
    using auth by (simp add: same_authorization_def)
  with ks run found role_asserted [OF auth] show ?thesis
    by (intro bexI [OF _ ks(1)] bexI [OF _ ks(2)] exI [of _ token] exI [of _ i]
        exI [of _ "WithIdentity ctx i"] exI [of _ x']) auto
qed

section \<open>Key rotation\<close>

lemma unsigned_rejected:
  assumes "jwt_contract lib signs" and "keySet_Set (g_keys st) = Some ks"
    and "source_token (lib_orbit lib) (v_source v) h = Some raw" and "\<forall>token. \<not> signs ks raw token"
  shows "fst (Authenticate (verifier_auth lib v w) h st) = Inl ErrInvalidToken"
proof -
  have "\<exists>why. v_parse lib v (Some ks) (now_parse w) raw = Inl why"
    using v_parse_proven [OF assms(1), of v ks "now_parse w" raw] assms(4)
    by (cases "v_parse lib v (Some ks) (now_parse w) raw") (auto simp: token_proven_def)
  with assms(2,3) show ?thesis
    by (auto simp: verifier_auth_def verifier_Authenticate_eq)
qed

text \<open>C7: rotation takes effect: once a background refresh has read a new key set, a token that
  no key of that set signed is rejected as invalid, even if the previous set signed it.\<close>

theorem rotation_revokes:
  assumes "jwt_contract lib signs"
    and "g_keys st = fst (refreshLoop (lib_jwk_Parse lib) (lib_jwk_Len lib) (es @ [Tick get]) k)"
    and "Done \<notin> set es"
    and "offered (lib_jwk_Parse lib) (lib_jwk_Len lib) (get (ks_url k)) = Some ks"
    and "source_token (lib_orbit lib) (v_source v) h = Some raw"
    and "\<forall>token. \<not> signs ks raw token"
  shows "fst (Authenticate (verifier_auth lib v w) h st) = Inl ErrInvalidToken"
proof -
  have "keySet_Set (g_keys st) = Some ks"
    unfolding assms(2) by (rule refreshLoop_adopts) (rule assms(3,4))+
  from unsigned_rejected [OF assms(1) this assms(5,6)] show ?thesis .
qed

text \<open>C8: rotation takes effect in time, as long as the service's context has not ended: if the
  provider serves the key set \<open>ks\<close> promptly from time \<open>T\<close> on, then from 15 minutes and 15 seconds
  later a token that no key of \<open>ks\<close> signed is rejected as invalid, whatever was served before and
  however long earlier fetches hung.\<close>

theorem revocation_deadline:
  assumes "jwt_contract lib signs" and "\<forall>t url. 0 \<le> ex_delay (net t url)"
    and "\<forall>t \<ge> T. ex_delay (net t (ks_url k)) \<le> 15 * 1000000000 \<and>
      offered (lib_jwk_Parse lib) (lib_jwk_Len lib) (ex_outcome (net t (ks_url k))) = Some ks"
    and "started \<le> T" and "T + 915 * 1000000000 \<le> now"
    and "\<forall>e. ended = Some e \<longrightarrow> now < e"
    and "g_keys st = loop_keys (lib_jwk_Parse lib) (lib_jwk_Len lib) net ended pick started k now"
    and "source_token (lib_orbit lib) (v_source v) h = Some raw" and "\<forall>token. \<not> signs ks raw token"
  shows "fst (Authenticate (verifier_auth lib v w) h st) = Inl ErrInvalidToken"
proof -
  have "serves_from (lib_jwk_Parse lib) (lib_jwk_Len lib) net (ks_url k) T ks"
    using assms(3) by (simp add: serves_from_def durations)
  moreover have "running ended now" using assms(6) by (simp add: running_def)
  ultimately have "keySet_Set (g_keys st) = Some ks"
    unfolding assms(7) using assms(2,4,5) by (intro rotation_deadline) simp_all
  from unsigned_rejected [OF assms(1) this assms(8,9)] show ?thesis .
qed

section \<open>The adapters side by side\<close>

text \<open>C23: Fiber's \<open>RequireRoles\<close> and Huma's middleware decide alike about the same request and
  the same roles, with one exception: an empty list of roles forbids every verified caller in
  Fiber and admits every verified caller in Huma.\<close>

theorem fiber_huma_agree:
  assumes "fiberHeaders fib c = humaHeaders hum ctx"
    and "requiredRoles (hum_Operation hum ctx) = (scopes, True)" and "roles = elems scopes"
  shows "case Authenticate auth (fiberHeaders fib c) s of
     (Inl e, s') \<Rightarrow>
       (\<exists>m. RequireRoles fib auth roles nxt c s = (Some (FiberError 401 m), c, s')) \<and>
       (\<exists>m. middleware hum auth nxt' ctx s = (hum_WriteErr hum ctx 401 m, s'))
   | (Inr i, s') \<Rightarrow>
       RequireRoles fib auth roles nxt c s =
         (if Enabled auth \<and> \<not> HasAnyRole i roles
          then (Some (FiberError 403 ''your account holds none of the required roles''), c, s')
          else nxt (attach fib c i) s') \<and>
       middleware hum auth nxt' ctx s =
         (if Enabled auth \<and> \<not> HasAnyRole i roles \<and> roles \<noteq> []
          then (hum_WriteErr hum ctx 403 ''your account holds none of the required roles'', s')
          else nxt' (hum_WithValue hum ctx ContextKey (CIdentity i)) s')"
  using assms
  by (auto simp: RequireRoles_def middleware_def statusFor_def StatusUnauthorized_def
      StatusForbidden_def split: prod.split sum.split auth_error.split)

text \<open>Behind a verifier Fiber's 401 says only that a credential is missing or invalid, one
  text each; the text for unforeseen errors is never sent.\<close>

lemma verifier_fiber_message:
  assumes "fst (RequireRoles fib (verifier_auth lib v w) roles (\<lambda>c s. (None, c, s)) c st) =
     Some (FiberError 401 msg)"
  shows "msg = ''authentication required: reach this service through the gateway'' \<or>
     msg = ''invalid credential''"
  using authenticator.fiber_message [OF verifying.authenticator_axioms assms] by simp

section \<open>The verified token downstream\<close>

text \<open>With the default source and no Authorization header of its own, a verified request
  forwards downstream exactly the token that was verified, as a bearer credential.\<close>

lemma forwarded_is_verified:
  assumes "Authenticate (verifier_auth lib v w) h st = (Inr i, st')"
    and "v_source v = DefaultSource" and "trim_space (h HeaderAuthorization) = []"
  shows "ForwardAuthorization h = ''Bearer '' @ Token i"
proof -
  from assms(1) have "verifier_Authenticate lib v w h st = (Inr i, st')"
    by (simp add: verifier_auth_def)
  then obtain raw token where raw: "source_token (lib_orbit lib) (v_source v) h = Some raw"
    and fill: "(i, g_ui st') = fill_display lib v w h raw (keySet_Set (g_keys st'))
           (mapper_identity (v_mapper v) token raw) (g_ui st)"
    by (rule verifier_ok)
  from fill have "Token i = raw"
    using fill_display_frame [of lib v w h raw]
    by (metis fst_conv mapper_identity_sel(2) same_authorization_def)
  with raw assms(2,3) show ?thesis
    by (auto simp: DefaultSource_token AuthorizationBearer_def HeaderSource_Token_def
        ForwardAuthorization_def Let_def split: if_splits)
qed

section \<open>A request through everything\<close>

abbreviation example_auth :: "string list gate_state authenticator" where
  "example_auth \<equiv> verifier_auth example_lib example_verifier example_world"

definition fiber_request :: "headers \<Rightarrow> example_ctx" where
  "fiber_request h = example_request\<lparr>fx_headers := h\<rparr>"

definition huma_request :: "headers \<Rightarrow> example_huma_ctx" where
  "huma_request h = example_huma_request\<lparr>hx_headers := h\<rparr>"

lemma example_requests [simp]:
  "fiberHeaders example_fiber (fiber_request h) = h"
  "humaHeaders example_huma (huma_request h) = h"
  "requiredRoles (hum_Operation example_huma (huma_request h)) = (Some [''op''], True)"
  by (simp_all add: fiberHeaders_def example_fiber_def fiber_request_def humaHeaders_def
      example_huma_def huma_request_def example_huma_request_def example_operation_def
      requiredRoles_def)

lemma example_op [simp]: "HasAnyRole example_result [''op'']"
  by (simp add: HasAnyRole_iff HasRole_iff example_result_def)

lemma serve_Nil [simp]: "serve lib v [] st = st"
  by (simp add: serve_def)

lemma example_auth_enabled: "Enabled example_auth"
  by (simp add: verifier_auth_def)

abbreviation example_signed_in :: headers where
  "example_signed_in \<equiv> example_headers ''tok'' ''IdToken=idt''"

theorem fiber_end_to_end_witness:
  "\<exists>raw token val. example_signed [''k''] raw token \<and> tok_Issuer token = Some ''https://i'' \<and>
     tok_Field token ''groups'' = Some val \<and> asserts_role val ''op''"
proof -
  have "RequireRoles example_fiber example_auth [''op''] (\<lambda>c s. (None, c, s))
      (fiber_request example_signed_in) (serve example_lib example_verifier [] example_state) \<noteq>
    RequireRoles example_fiber example_auth [''op''] (\<lambda>c s. (Some (AppError []), c, s))
      (fiber_request example_signed_in) (serve example_lib example_verifier [] example_state)"
    by (simp add: RequireRoles_def example_authenticate)
  from fiber_end_to_end [OF example_NewVerifier example_contract this] show ?thesis
    by (auto simp: example_state_def keySet_Set_def example_config_def zero_Config_def)
qed

theorem fiber_in_service_witness:
  "\<exists>ks now raw token. 0 < length ks \<and> token_proven example_signed example_verifier ks now raw token"
proof -
  have headers: "fiberHeaders example_fiber (fiber_request example_signed_in) = example_signed_in"
    by (simp add: fiberHeaders_def example_fiber_def fiber_request_def)
  obtain s call where s: "svc_reachable example_lib example_verifier example_state s" "svc_calls s 7 = Some call"
    and call: "c_headers call = fiberHeaders example_fiber (fiber_request example_signed_in)"
      "c_pc call = Answered (fst (Authenticate example_auth (fiberHeaders example_fiber
         (fiber_request example_signed_in)) example_state))"
    using example_served unfolding headers example_authenticate fst_conv by blast
  have "RequireRoles example_fiber example_auth [''op''] (\<lambda>c s. (None, c, s))
      (fiber_request example_signed_in) example_state \<noteq>
    RequireRoles example_fiber example_auth [''op''] (\<lambda>c s. (Some (AppError []), c, s))
      (fiber_request example_signed_in) example_state"
    by (simp add: RequireRoles_def example_authenticate)
  from fiber_in_service [OF example_NewVerifier example_contract s call example_auth_enabled this] show ?thesis
    by (auto simp: example_lib_def)
qed

theorem huma_in_service_witness:
  "\<exists>ks now raw token val. 0 < length ks \<and> token_proven example_signed example_verifier ks now raw token \<and>
     tok_Field token ''groups'' = Some val \<and> asserts_role val ''op''"
proof -
  obtain s call where s: "svc_reachable example_lib example_verifier example_state s" "svc_calls s 7 = Some call"
    and call: "c_headers call = humaHeaders example_huma (huma_request example_signed_in)"
      "c_pc call = Answered (fst (Authenticate example_auth (humaHeaders example_huma
         (huma_request example_signed_in)) example_state))"
    using example_served by (auto simp: example_authenticate)
  have guarded: "requiredRoles (hum_Operation example_huma (huma_request example_signed_in)) = (Some [''op''], True)"
    by simp
  have "middleware example_huma example_auth (\<lambda>c s. (c, s)) (huma_request example_signed_in) example_state \<noteq>
    middleware example_huma example_auth (\<lambda>c s. (hum_WriteErr example_huma c 500 [], s))
      (huma_request example_signed_in) example_state"
    by (simp add: middleware_def example_authenticate)
      (simp add: example_huma_def huma_request_def example_huma_request_def)
  from huma_in_service [OF example_NewVerifier example_contract s call example_auth_enabled guarded this] show ?thesis
    by (auto simp: example_lib_def example_config_def zero_Config_def) blast
qed

definition example_http :: http_header where
  "example_http = [''X-Auth-Request-Access-Token'' \<mapsto> [''tok'']]"

lemma example_http_served:
  "\<exists>s c i st. svc_reachable example_lib example_verifier example_state s \<and> svc_calls s 7 = Some c \<and>
     c_headers c = connectHeaders example_http \<and>
     Authenticate example_auth (connectHeaders example_http) example_state = (Inr i, st) \<and> c_pc c = Answered (Inr i)"
proof -
  have "CanonicalHeaderKey ''X-Auth-Request-Access-Token'' = ''X-Auth-Request-Access-Token''"
    by code_simp
  then have "connectHeaders example_http HeaderAccessToken = ''tok''"
    by (simp add: connectHeaders_def http_header_get_def example_http_def header_names)
  then have source: "source_token (lib_orbit example_lib) (v_source example_verifier) (connectHeaders example_http) =
      Some ''tok''"
    by (simp add: DefaultSource_token go_eval)
  have "\<exists>i st. Authenticate example_auth (connectHeaders example_http) example_state = (Inr i, st)"
    using source by (auto simp: example_run keySet_Set_def split: prod.split)
  with example_request [of "connectHeaders example_http"] svc_reachable_run [OF _ svc_reachable.init]
  show ?thesis by (metis fst_conv)
qed

theorem connect_in_service_witness:
  "\<exists>ks now token i. 0 < length ks \<and> token_proven example_signed example_verifier ks now (Token i) token \<and>
     Subject i = subject_of token \<and>
     (\<forall>r. HasRole i r \<longleftrightarrow> (\<exists>val. tok_Field token ''groups'' = Some val \<and> asserts_role val r))"
proof -
  obtain s call i st where s: "svc_reachable example_lib example_verifier example_state s" "svc_calls s 7 = Some call"
    and auth: "Authenticate example_auth (connectHeaders example_http) example_state = (Inr i, st)"
    and call: "c_headers call = connectHeaders example_http"
      "c_pc call = Answered (fst (Authenticate example_auth (connectHeaders example_http) example_state))"
    using example_http_served by (metis fst_conv)
  have "Interceptor (\<lambda>h. h) example_auth (\<lambda>ctx req s. (Inr (0 :: nat), s)) [] example_http example_state \<noteq>
      Interceptor (\<lambda>h. h) example_auth (\<lambda>ctx req s. (Inr 1, s)) [] example_http example_state"
    by (simp add: Interceptor_def auth)
  from connect_in_service [OF example_NewVerifier example_contract s call this] show ?thesis
    by (auto simp: example_lib_def example_config_def zero_Config_def withDefaults_def)
qed

lemma huma_end_to_end_witness:
  "\<exists>raw token. token_proven example_signed example_verifier [''k''] 0 raw token"
proof -
  have "middleware example_huma example_auth (\<lambda>c s. (c, s)) (huma_request example_signed_in)
      (serve example_lib example_verifier [] example_state) \<noteq>
    middleware example_huma example_auth (\<lambda>c s. (hum_WriteErr example_huma c 500 [], s))
      (huma_request example_signed_in) (serve example_lib example_verifier [] example_state)"
    by (simp add: middleware_def example_authenticate)
      (simp add: example_huma_def huma_request_def example_huma_request_def)
  from huma_end_to_end [OF example_NewVerifier example_contract _ _ this] show ?thesis
    by (auto simp: example_state_def keySet_Set_def example_world_def)
qed

theorem rotation_revokes_witness:
  "fst (Authenticate example_auth example_signed_in
     (example_state\<lparr>g_keys := \<lparr>ks_url = ''https://i/k'', ks_keys = Some [''new'']\<rparr>\<rparr>)) =
   Inl ErrInvalidToken"
proof (rule rotation_revokes [OF example_contract, where es = "[]" and k = "g_keys example_state"
      and get = "\<lambda>_. Response \<lparr>StatusCode = 200, body_bytes = ''new'', body_fails = False\<rparr>"
      and ks = "[''new'']" and raw = "''tok''"])
  show "source_token (lib_orbit example_lib) (v_source example_verifier) example_signed_in = Some ''tok''"
    by (simp add: example_source)
qed (simp_all add: refresh_def read_limited_def keySetMaxBytes_def StatusOK_def offered_def
    example_lib_def example_state_def example_signed_def)

definition example_new_keys :: timed_net where
  "example_new_keys t url = \<lparr>ex_outcome = Response \<lparr>StatusCode = 200, body_bytes = ''new'', body_fails = False\<rparr>,
     ex_delay = 1000, ex_partial = None\<rparr>"

theorem revocation_deadline_witness:
  "fst (Authenticate example_auth example_signed_in (example_state\<lparr>g_keys :=
       loop_keys (\<lambda>body. Some [body]) length example_new_keys (Some 915000000001) (\<lambda>_. True) 0
         (g_keys example_state) 915000000000\<rparr>)) = Inl ErrInvalidToken"
proof (rule revocation_deadline [OF example_contract, where T = 0 and started = 0 and pick = "\<lambda>_. True"
      and now = 915000000000 and net = example_new_keys and k = "g_keys example_state"
      and ended = "Some 915000000001" and ks = "[''new'']" and raw = "''tok''"])
  show "source_token (lib_orbit example_lib) (v_source example_verifier) example_signed_in = Some ''tok''"
    by (simp add: example_source)
qed (simp_all add: example_new_keys_def offered_def read_limited_def keySetMaxBytes_def StatusOK_def
    example_lib_def example_signed_def)

theorem fiber_huma_agree_witness:
  "middleware example_huma example_auth (\<lambda>c s. (c, s)) (huma_request example_signed_in) example_state =
     (hum_WithValue example_huma (huma_request example_signed_in) ContextKey (CIdentity example_result),
      example_state)"
  using fiber_huma_agree [of example_fiber "fiber_request example_signed_in" example_huma
      "huma_request example_signed_in" "Some [''op'']" "[''op'']", where auth = example_auth
      and s = example_state and nxt' = "\<lambda>c s. (c, s)"]
  by (simp add: example_authenticate)

lemma verifier_fiber_message_witness:
  "\<exists>msg. fst (RequireRoles example_fiber example_auth [] (\<lambda>c s. (None, c, s))
       (fiber_request (\<lambda>_. [])) example_state) = Some (FiberError 401 msg) \<and>
     msg \<noteq> ''authentication failed''"
proof -
  have "Authenticate example_auth (\<lambda>_. []) example_state = (Inl ErrNoCredential, example_state)"
    by (simp add: verifier_auth_def verifier_Authenticate_eq DefaultSource_token AuthorizationBearer_def
        HeaderSource_Token_def)
  then have "\<exists>msg. fst (RequireRoles example_fiber example_auth [] (\<lambda>c s. (None, c, s))
      (fiber_request (\<lambda>_. [])) example_state) = Some (FiberError 401 msg)"
    by (simp add: RequireRoles_def statusFor_def StatusUnauthorized_def)
  with verifier_fiber_message [of example_fiber example_lib example_verifier example_world "[]"
      "fiber_request (\<lambda>_. [])" example_state] show ?thesis by force
qed

lemma forwarded_is_verified_witness:
  "ForwardAuthorization example_signed_in = ''Bearer tok''"
  using forwarded_is_verified [OF example_authenticate]
  by (simp add: example_headers_def header_names example_result_def)

end
